theory Spec2Isabelle
  imports Complex_Main "HOL-Library.List_Lexorder" "HOL-Library.Char_ord"
begin

section \<open>Basic types\<close>

text \<open>
  Node identifiers are the strings the relational source hands over (\<open>str(user.id)\<close>,
  \<open>video.video_id\<close>, \<open>category.category_id\<close>); Cypher compares them in lexicographic
  order. A reading of the store clock \<open>datetime()\<close> is an integer (microseconds);
  timestamps of relational rows travel as their \<open>isoformat()\<close> strings. Python and
  Cypher floats (watch time, interest score, similarity, loss) are read as the real
  numbers they denote.
\<close>

type_synonym node_id = string
type_synonym time = int

datatype py_error =
    KeyError
  | IndexError
  | ValueError
  | TypeError
  | AttributeError
  | JSONDecodeError
  | FaissError
  | CypherError
  | ZeroDivisionError

section \<open>Relational source (models.py)\<close>





text \<open>
  A \<open>Watch\<close> or \<open>Like\<close> object reaches the engine with its user and its video;
  \<open>wr_video_categories\<close> is what \<open>watch.video.categories.all()\<close> delivers.
\<close>

record watch_row =
  wr_user_id :: node_id
  wr_video_id :: node_id
  wr_watch_time :: real
  wr_timestamp :: string
  wr_video_categories :: "node_id list"

record like_row =
  lr_user_id :: node_id
  lr_video_id :: node_id
  lr_timestamp :: string
  lr_video_categories :: "node_id list"



section \<open>Graph Store\<close>

text \<open>
  A node is a bag of optional properties under its identifying property; a node that a
  bare \<open>MERGE (n {id: ...})\<close> creates has the identifier only. Nodes and relationships
  are kept as lists in store order, so that a duplicate would be visible.
\<close>

record user_node =
  user_id :: node_id
  username :: "string option"
  user_updated_at :: "time option"
  user_embedding :: "string option"
  user_embedding_updated :: "time option"

record video_node =
  video_id :: node_id
  title :: "string option"
  categories :: "node_id list option"
  parent_categories :: "node_id list option"
  video_updated_at :: "time option"
  video_embedding :: "string option"
  video_embedding_updated :: "time option"

record category_node =
  category_id :: node_id
  category_name :: "string option"
  parent_category :: "node_id option"
  category_updated_at :: "time option"
  category_embedding :: "string option"
  category_embedding_updated :: "time option"

record parent_category_node =
  parent_category_id :: node_id
  parent_category_name :: "string option"
  parent_category_updated_at :: "time option"
  parent_category_embedding :: "string option"
  parent_category_embedding_updated :: "time option"

record watches_rel =
  w_src :: node_id
  w_dst :: node_id
  w_watch_time :: real
  w_timestamp :: string

record likes_rel =
  l_src :: node_id
  l_dst :: node_id
  l_timestamp :: string

record follows_rel =
  f_src :: node_id
  f_dst :: node_id
  f_timestamp :: string

record interested_in_rel =
  i_src :: node_id
  i_dst :: node_id
  i_score :: real
  i_count :: int

record similar_to_rel =
  s_src :: node_id
  s_dst :: node_id
  s_similarity :: real
  s_updated_at :: time

text \<open>The relational aggregate \<open>UserCategoryInterest\<close> that the dual write maintains.\<close>

record user_category_interest =
  uci_user :: node_id
  uci_category :: node_id
  uci_score :: real
  uci_interaction_count :: int

text \<open>
  The state the sync operations write: the Graph Store, and beside it the relational
  \<open>UserCategoryInterest\<close> table.
\<close>

record store =
  g_users :: "user_node list"
  g_videos :: "video_node list"
  g_categories :: "category_node list"
  g_parent_categories :: "parent_category_node list"
  g_watches :: "watches_rel list"
  g_likes :: "likes_rel list"
  g_follows :: "follows_rel list"
  g_interested_in :: "interested_in_rel list"
  g_similar_to :: "similar_to_rel list"
  g_created_by :: "(node_id \<times> node_id) list"
  g_belongs_to :: "(node_id \<times> node_id) list"
  g_parent_of :: "(node_id \<times> node_id) list"
  uci_table :: "user_category_interest list"

definition empty_store :: store where
  "empty_store = \<lparr>g_users = [], g_videos = [], g_categories = [], g_parent_categories = [],
     g_watches = [], g_likes = [], g_follows = [], g_interested_in = [], g_similar_to = [],
     g_created_by = [], g_belongs_to = [], g_parent_of = [], uci_table = []\<rparr>"

subsection \<open>Cypher MERGE\<close>

text \<open>
  \<open>MERGE pattern ON CREATE SET a ON MATCH SET b\<close>: when something matches the pattern,
  every match is updated by \<open>on_match\<close>; otherwise \<open>created\<close> is appended. A plain
  \<open>SET\<close> after a \<open>MERGE\<close> is the case where both branches write the same properties.
\<close>

definition merge_on :: "('a \<Rightarrow> bool) \<Rightarrow> 'a \<Rightarrow> ('a \<Rightarrow> 'a) \<Rightarrow> 'a list \<Rightarrow> 'a list" where
  "merge_on p created on_match xs =
     (if list_ex p xs then map (\<lambda>x. if p x then on_match x else x) xs
      else xs @ [created])"

definition has_user :: "store \<Rightarrow> node_id \<Rightarrow> bool" where
  "has_user g k = list_ex (\<lambda>n. user_id n = k) (g_users g)"

definition has_video :: "store \<Rightarrow> node_id \<Rightarrow> bool" where
  "has_video g k = list_ex (\<lambda>n. video_id n = k) (g_videos g)"

definition has_category :: "store \<Rightarrow> node_id \<Rightarrow> bool" where
  "has_category g k = list_ex (\<lambda>n. category_id n = k) (g_categories g)"

definition new_user :: "node_id \<Rightarrow> user_node" where
  "new_user k = \<lparr>user_id = k, username = None, user_updated_at = None,
     user_embedding = None, user_embedding_updated = None\<rparr>"

definition new_video :: "node_id \<Rightarrow> video_node" where
  "new_video k = \<lparr>video_id = k, title = None, categories = None, parent_categories = None,
     video_updated_at = None, video_embedding = None, video_embedding_updated = None\<rparr>"

definition new_category :: "node_id \<Rightarrow> category_node" where
  "new_category k = \<lparr>category_id = k, category_name = None, parent_category = None,
     category_updated_at = None, category_embedding = None,
     category_embedding_updated = None\<rparr>"





definition merge_edge :: "node_id \<times> node_id \<Rightarrow> (node_id \<times> node_id) list \<Rightarrow> (node_id \<times> node_id) list" where
  "merge_edge e es = merge_on (\<lambda>x. x = e) e (\<lambda>x. x) es"

section \<open>Graph Sync\<close>

subsection \<open>sync_categories_to_neo4j\<close>




subsection \<open>sync_user_to_neo4j, sync_video_to_neo4j\<close>




subsection \<open>sync_watch_to_neo4j, sync_like_to_neo4j, sync_follow_to_neo4j\<close>

text \<open>\<open>UNWIND v.categories\<close>: the list on the matched video node; no rows when the
  property is null.\<close>

definition node_categories :: "store \<Rightarrow> node_id \<Rightarrow> node_id list" where
  "node_categories g vid =
     (case find (\<lambda>n. video_id n = vid) (g_videos g) of
        None \<Rightarrow> []
      | Some n \<Rightarrow> (case categories n of None \<Rightarrow> [] | Some cs \<Rightarrow> cs))"

text \<open>One row of the \<open>UNWIND\<close>: \<open>MATCH\<close> the category, then \<open>MERGE\<close> the
  \<open>INTERESTED_IN\<close> relationship, created with the amount and count 1, or incremented.\<close>

definition interest_step :: "node_id \<Rightarrow> real \<Rightarrow> node_id \<Rightarrow> store \<Rightarrow> store" where
  "interest_step uid amount cat_id g =
     (if has_category g cat_id then
        g\<lparr>g_interested_in :=
           merge_on (\<lambda>r. i_src r = uid \<and> i_dst r = cat_id)
             \<lparr>i_src = uid, i_dst = cat_id, i_score = amount, i_count = 1\<rparr>
             (\<lambda>r. r\<lparr>i_score := i_score r + amount, i_count := i_count r + 1\<rparr>)
             (g_interested_in g)\<rparr>
      else g)"

text \<open>\<open>UserCategoryInterest.objects.get_or_create\<close> (score 0.0 and count 0 when
  created), then \<open>score += amount\<close>, \<open>interaction_count += 1\<close>, \<open>save()\<close>.\<close>

definition uci_step :: "node_id \<Rightarrow> real \<Rightarrow> node_id \<Rightarrow> store \<Rightarrow> store" where
  "uci_step uid amount cat_id g =
     g\<lparr>uci_table :=
        merge_on (\<lambda>r. uci_user r = uid \<and> uci_category r = cat_id)
          \<lparr>uci_user = uid, uci_category = cat_id, uci_score = 0 + amount,
            uci_interaction_count = 0 + 1\<rparr>
          (\<lambda>r. r\<lparr>uci_score := uci_score r + amount,
                  uci_interaction_count := uci_interaction_count r + 1\<rparr>)
          (uci_table g)\<rparr>"

definition sync_watch_to_neo4j :: "watch_row \<Rightarrow> store \<Rightarrow> store" where
  "sync_watch_to_neo4j w g =
     (let uid = wr_user_id w; vid = wr_video_id w;
          g1 = (if has_user g uid \<and> has_video g vid then
                  fold (interest_step uid (wr_watch_time w)) (node_categories g vid)
                    (g\<lparr>g_watches :=
                        merge_on (\<lambda>r. w_src r = uid \<and> w_dst r = vid)
                          \<lparr>w_src = uid, w_dst = vid, w_watch_time = wr_watch_time w,
                            w_timestamp = wr_timestamp w\<rparr>
                          (\<lambda>r. r\<lparr>w_watch_time := wr_watch_time w,
                                  w_timestamp := wr_timestamp w\<rparr>)
                          (g_watches g)\<rparr>)
                else g)
      in fold (uci_step uid (wr_watch_time w)) (wr_video_categories w) g1)"

definition sync_like_to_neo4j :: "like_row \<Rightarrow> store \<Rightarrow> store" where
  "sync_like_to_neo4j l g =
     (let uid = lr_user_id l; vid = lr_video_id l;
          g1 = (if has_user g uid \<and> has_video g vid then
                  fold (interest_step uid 2.0) (node_categories g vid)
                    (g\<lparr>g_likes :=
                        merge_on (\<lambda>r. l_src r = uid \<and> l_dst r = vid)
                          \<lparr>l_src = uid, l_dst = vid, l_timestamp = lr_timestamp l\<rparr>
                          (\<lambda>r. r\<lparr>l_timestamp := lr_timestamp l\<rparr>)
                          (g_likes g)\<rparr>)
                else g)
      in fold (uci_step uid 2.0) (lr_video_categories l) g1)"


subsection \<open>compute_video_similarities\<close>

text \<open>
  \<open>toFloat(size([c IN v1.categories WHERE c IN v2.categories])) /
  size(v1.categories + [c IN v2.categories WHERE NOT c IN v1.categories])\<close>.
  With both lists empty the float division is 0.0/0, not a number, and the
  comparison \<open>cat_sim >= 0.3\<close> does not hold: that pair has no row.
\<close>

definition overlap_size :: "node_id list \<Rightarrow> node_id list \<Rightarrow> nat" where
  "overlap_size cs1 cs2 = length (filter (\<lambda>c. c \<in> set cs2) cs1)"

definition union_size :: "node_id list \<Rightarrow> node_id list \<Rightarrow> nat" where
  "union_size cs1 cs2 = length (cs1 @ filter (\<lambda>c. c \<notin> set cs1) cs2)"

definition cat_sim :: "node_id list \<Rightarrow> node_id list \<Rightarrow> real" where
  "cat_sim cs1 cs2 = real (overlap_size cs1 cs2) / real (union_size cs1 cs2)"

definition passes_threshold :: "node_id list \<Rightarrow> node_id list \<Rightarrow> bool" where
  "passes_threshold cs1 cs2 = (union_size cs1 cs2 \<noteq> 0 \<and> cat_sim cs1 cs2 \<ge> 0.3)"

text \<open>The rows that reach the \<open>MERGE\<close>: ordered pairs of video nodes with
  \<open>v1.video_id < v2.video_id\<close>, both category lists present, above the threshold.\<close>

definition pair_row :: "video_node \<Rightarrow> video_node \<Rightarrow> (node_id \<times> node_id \<times> real) list" where
  "pair_row v1 v2 =
     (case (categories v1, categories v2) of
        (Some cs1, Some cs2) \<Rightarrow>
          (if video_id v1 < video_id v2 \<and> passes_threshold cs1 cs2
           then [(video_id v1, video_id v2, cat_sim cs1 cs2)] else [])
      | _ \<Rightarrow> [])"

definition similarity_rows :: "store \<Rightarrow> (node_id \<times> node_id \<times> real) list" where
  "similarity_rows g =
     concat (map (\<lambda>v1. concat (map (pair_row v1) (g_videos g))) (g_videos g))"

text \<open>\<open>MERGE (v1)-[s:SIMILAR_TO]-(v2)\<close> matches a relationship in either direction and
  creates it from \<open>v1\<close> to \<open>v2\<close> when there is none.\<close>

definition joins :: "similar_to_rel \<Rightarrow> node_id \<Rightarrow> node_id \<Rightarrow> bool" where
  "joins r a b = ((s_src r = a \<and> s_dst r = b) \<or> (s_src r = b \<and> s_dst r = a))"

definition merge_similar :: "time \<Rightarrow> node_id \<times> node_id \<times> real \<Rightarrow> similar_to_rel list \<Rightarrow> similar_to_rel list" where
  "merge_similar now row es =
     (case row of (a, b, sim) \<Rightarrow>
        merge_on (\<lambda>r. joins r a b)
          \<lparr>s_src = a, s_dst = b, s_similarity = sim, s_updated_at = now\<rparr>
          (\<lambda>r. r\<lparr>s_similarity := sim, s_updated_at := now\<rparr>) es)"

definition compute_video_similarities :: "time \<Rightarrow> store \<Rightarrow> store" where
  "compute_video_similarities now g =
     g\<lparr>g_similar_to := fold (merge_similar now) (similarity_rows g) (g_similar_to g)\<rparr>"

subsection \<open>bulk_sync_all_data_to_neo4j\<close>



section \<open>Properties in the words of the specification\<close>

subsection \<open>Similarity\<close>

text \<open>Category-set Jaccard overlap: intersection size over union size.\<close>

definition jaccard :: "node_id set \<Rightarrow> node_id set \<Rightarrow> real" where
  "jaccard A B = real (card (A \<inter> B)) / real (card (A \<union> B))"

text \<open>Two video nodes, the first with the smaller id, whose category sets overlap by
  at least 0.30.\<close>

definition similar_pair :: "store \<Rightarrow> node_id \<Rightarrow> node_id \<Rightarrow> bool" where
  "similar_pair g a b =
     list_ex (\<lambda>v1. list_ex (\<lambda>v2.
        video_id v1 = a \<and> video_id v2 = b \<and> a < b \<and>
        (case (categories v1, categories v2) of
           (Some cs1, Some cs2) \<Rightarrow>
              set cs1 \<union> set cs2 \<noteq> {} \<and> jaccard (set cs1) (set cs2) \<ge> 0.3
         | _ \<Rightarrow> False)) (g_videos g)) (g_videos g)"

definition pair_similarity :: "store \<Rightarrow> node_id \<Rightarrow> node_id \<Rightarrow> real" where
  "pair_similarity g a b = jaccard (set (node_categories g a)) (set (node_categories g b))"

definition linked :: "store \<Rightarrow> node_id \<Rightarrow> node_id \<Rightarrow> bool" where
  "linked g a b = list_ex (\<lambda>r. joins r a b) (g_similar_to g)"

definition similarity_between :: "store \<Rightarrow> node_id \<Rightarrow> node_id \<Rightarrow> real option" where
  "similarity_between g a b =
     map_option s_similarity (find (\<lambda>r. joins r a b) (g_similar_to g))"

definition edge_key :: "similar_to_rel \<Rightarrow> node_id \<times> node_id" where
  "edge_key r = (s_src r, s_dst r)"

text \<open>The scenario of three videos A{x,y}, B{y,z}, C{p,q}, not yet compared.\<close>

definition abc_store :: store where
  "abc_store = empty_store\<lparr>g_videos :=
     [(new_video ''A'')\<lparr>categories := Some [''x'', ''y'']\<rparr>,
      (new_video ''B'')\<lparr>categories := Some [''y'', ''z'']\<rparr>,
      (new_video ''C'')\<lparr>categories := Some [''p'', ''q'']\<rparr>]\<rparr>"

subsection \<open>Interest edges under a sequence of interactions\<close>

text \<open>The score and the count of the \<open>INTERESTED_IN\<close> relationship from a user to a
  category, if there is one.\<close>

definition interest :: "store \<Rightarrow> node_id \<Rightarrow> node_id \<Rightarrow> (real \<times> int) option" where
  "interest g uid cid =
     map_option (\<lambda>r. (i_score r, i_count r))
       (find (\<lambda>r. i_src r = uid \<and> i_dst r = cid) (g_interested_in g))"

datatype interaction = WatchEvent watch_row | LikeEvent like_row

fun apply_interaction :: "interaction \<Rightarrow> store \<Rightarrow> store" where
  "apply_interaction (WatchEvent w) g = sync_watch_to_neo4j w g"
| "apply_interaction (LikeEvent l) g = sync_like_to_neo4j l g"

fun amount :: "interaction \<Rightarrow> real" where
  "amount (WatchEvent w) = wr_watch_time w"
| "amount (LikeEvent l) = 2.0"

fun actor :: "interaction \<Rightarrow> node_id" where
  "actor (WatchEvent w) = wr_user_id w"
| "actor (LikeEvent l) = lr_user_id l"

fun target :: "interaction \<Rightarrow> node_id" where
  "target (WatchEvent w) = wr_video_id w"
| "target (LikeEvent l) = lr_video_id l"

text \<open>An interaction qualifies for a (user, category) pair in a store when it is the
  user's, the user node, the video node and the category node exist, and the video node
  carries the category (once).\<close>

definition qualifying :: "interaction \<Rightarrow> store \<Rightarrow> node_id \<Rightarrow> node_id \<Rightarrow> bool" where
  "qualifying x g uid cid =
     (actor x = uid \<and> has_user g uid \<and> has_video g (target x) \<and> has_category g cid \<and>
      count_list (node_categories g (target x)) cid = 1)"

text \<open>A user, two videos of one category, and the user's like of the first video; then
  a watch of the second video with a negative watch time, as the \<open>watch\<close> endpoint accepts
  it (\<open>float(request.data.get('watch_time', 1.0))\<close>).\<close>

definition two_videos_one_category :: store where
  "two_videos_one_category = empty_store\<lparr>
     g_users := [new_user ''u1''],
     g_videos := [(new_video ''v1'')\<lparr>categories := Some [''c1'']\<rparr>,
                  (new_video ''v2'')\<lparr>categories := Some [''c1'']\<rparr>],
     g_categories := [new_category ''c1'']\<rparr>"

definition like_v1 :: like_row where
  "like_v1 = \<lparr>lr_user_id = ''u1'', lr_video_id = ''v1'', lr_timestamp = ''t1'',
     lr_video_categories = [''c1'']\<rparr>"

definition watch_v2 :: "real \<Rightarrow> watch_row" where
  "watch_v2 wt = \<lparr>wr_user_id = ''u1'', wr_video_id = ''v2'', wr_watch_time = wt,
     wr_timestamp = ''t2'', wr_video_categories = [''c1'']\<rparr>"

text \<open>An edge after \<open>k\<close> increments by the amount \<open>a\<close>: created by the first one when it
  was absent.\<close>

definition accumulate :: "real \<Rightarrow> nat \<Rightarrow> (real \<times> int) option \<Rightarrow> (real \<times> int) option" where
  "accumulate a k v =
     (if k = 0 then v
      else Some (case v of
                   None \<Rightarrow> (real k * a, int k)
                 | Some (s, n) \<Rightarrow> (s + real k * a, n + int k)))"

text \<open>How often an interaction bumps the edge of a pair.\<close>

definition bumps :: "interaction \<Rightarrow> store \<Rightarrow> node_id \<Rightarrow> node_id \<Rightarrow> nat" where
  "bumps x g u c =
     (if actor x = u \<and> has_user g u \<and> has_video g (target x) \<and> has_category g c
      then count_list (node_categories g (target x)) c else 0)"

section \<open>GNN model (HeteroGNNModel)\<close>

text \<open>
  A tensor of shape [num_nodes, dim] is the list of its rows; an \<open>edge_index\<close> tensor of
  shape [2, E] is the list of its columns (source index, destination index). The node
  types are the four keys \<open>'user'\<close>, \<open>'video'\<close>, \<open>'category'\<close>, \<open>'parent_category'\<close>
  that \<open>_get_all_nodes\<close> produces.
\<close>

type_synonym matrix = "real list list"
type_synonym edge_index = "(nat \<times> nat) list"

datatype node_type = User | Video | Category | ParentCategory

type_synonym edge_type = "node_type \<times> string \<times> node_type"

record 'w hetero_gnn =
  gnn_hidden_dim :: nat
  gnn_num_layers :: nat
  gnn_params :: 'w
  gnn_training :: bool

record hetero_data =
  hd_x :: "node_type \<rightharpoonup> matrix"
  hd_num_nodes :: "node_type \<rightharpoonup> nat"
  hd_edge_index :: "(edge_type \<times> edge_index) list"
  hd_edge_attr :: "(edge_type \<times> real list) list"

text \<open>
  What torch, torch_geometric, numpy, json and faiss compute is not part of the
  repository: it enters as a record of functions. \<open>'w\<close> are the parameters of a model
  (its \<open>state_dict\<close>), \<open>'o\<close> the state of an optimizer, \<open>'ix\<close> a faiss index, \<open>'v\<close> a
  Python value as \<open>json.loads\<close> returns it or a numpy array made of one. The random
  generators of the process are a tape; the state of the process is the position on it
  (a natural number), and every random call reads at the current position and moves
  one step on.

  \<open>json_loads\<close> is \<open>json.loads\<close>, whatever texts it accepts; \<open>np_array\<close> is
  \<open>np.array(value)\<close>; \<open>query_vector\<close> is
  \<open>np.array(value).astype('float32').reshape(1, -1)\<close> followed by
  \<open>faiss.normalize_L2\<close>; \<open>index_flat_ip\<close> is
  \<open>np.array(arrays).astype('float32')\<close>, \<open>faiss.normalize_L2\<close>,
  \<open>faiss.IndexFlatIP(shape[1])\<close> and \<open>add\<close>; \<open>faiss_search\<close> answers \<open>indices[0]\<close>.
  Each of them can raise.
\<close>

record ('w, 'o, 'ix, 'v) lib =
  input_proj :: "'w \<Rightarrow> node_type \<Rightarrow> matrix \<Rightarrow> matrix"
  gcn_conv :: "'w \<Rightarrow> nat \<Rightarrow> matrix \<Rightarrow> edge_index \<Rightarrow> matrix"
  layer_norm :: "'w \<Rightarrow> nat \<Rightarrow> matrix \<Rightarrow> matrix"
  dropout :: "nat \<Rightarrow> real \<Rightarrow> matrix \<Rightarrow> matrix"
  randn :: "nat \<Rightarrow> nat \<Rightarrow> nat \<Rightarrow> matrix"
  randint :: "nat \<Rightarrow> nat \<Rightarrow> nat \<Rightarrow> nat"
  init_params :: "nat \<Rightarrow> nat \<Rightarrow> 'w"
  adam :: "'w \<Rightarrow> 'o"
  optimizer_step :: "'o \<Rightarrow> 'w \<Rightarrow> hetero_data \<Rightarrow> nat \<Rightarrow> nat \<times> nat \<times> nat \<Rightarrow> 'o \<times> 'w"
  json_dumps :: "real list \<Rightarrow> string"
  json_loads :: "string \<Rightarrow> py_error + 'v"
  np_array :: "'v \<Rightarrow> py_error + 'v"
  query_vector :: "'v \<Rightarrow> py_error + 'v"
  index_flat_ip :: "'v list \<Rightarrow> py_error + 'ix"
  faiss_search :: "'ix \<Rightarrow> 'v \<Rightarrow> int \<Rightarrow> py_error + int list"

definition tensor_add :: "matrix \<Rightarrow> matrix \<Rightarrow> matrix" where
  "tensor_add x y = map2 (map2 (+)) x y"

definition relu :: "matrix \<Rightarrow> matrix" where
  "relu x = map (map (max 0)) x"

text \<open>\<open>nn.Dropout(0.3)\<close>: the identity in evaluation mode, a random mask in training
  mode.\<close>

definition apply_dropout :: "('w, 'o, 'ix, 'v) lib \<Rightarrow> bool \<Rightarrow> nat \<Rightarrow> matrix \<Rightarrow> matrix \<times> nat" where
  "apply_dropout L training pos x =
     (if training then (dropout L pos 0.3 x, pos + 1) else (x, pos))"

text \<open>One relation of the inner loop whose source type equals its destination type:
  convolution, layer normalization, ReLU, dropout.\<close>

definition branch_output :: "('w, 'o, 'ix, 'v) lib \<Rightarrow> 'w hetero_gnn \<Rightarrow> nat \<Rightarrow> nat \<Rightarrow> matrix \<Rightarrow> edge_index \<Rightarrow> matrix \<times> nat" where
  "branch_output L m i pos x ei =
     apply_dropout L (gnn_training m) pos
       (relu (layer_norm L (gnn_params m) i (gcn_conv L (gnn_params m) i x ei)))"

text \<open>The loop \<open>for edge_type in edge_index_dict.keys()\<close> of layer \<open>i\<close>, filling
  \<open>x_dict_new\<close>; \<open>x_dict[src_type]\<close> raises KeyError on a missing key.\<close>

fun gnn_branches ::
  "('w, 'o, 'ix, 'v) lib \<Rightarrow> 'w hetero_gnn \<Rightarrow> nat \<Rightarrow> (node_type \<rightharpoonup> matrix) \<Rightarrow>
   (edge_type \<times> edge_index) list \<Rightarrow> (node_type \<rightharpoonup> matrix) \<Rightarrow> nat \<Rightarrow>
   py_error + ((node_type \<rightharpoonup> matrix) \<times> nat)" where
  "gnn_branches L m i x_dict [] x_dict_new pos = Inr (x_dict_new, pos)"
| "gnn_branches L m i x_dict (((src_type, rel, dst_type), ei) # rest) x_dict_new pos =
     (if src_type = dst_type then
        (case x_dict src_type of
           None \<Rightarrow> Inl KeyError
         | Some xs \<Rightarrow>
             (case branch_output L m i pos xs ei of (x, pos') \<Rightarrow>
                gnn_branches L m i x_dict rest
                  (case x_dict_new dst_type of
                     None \<Rightarrow> x_dict_new(dst_type \<mapsto> x)
                   | Some y \<Rightarrow> x_dict_new(dst_type \<mapsto> tensor_add y x))
                  pos'))
      else gnn_branches L m i x_dict rest x_dict_new pos)"

text \<open>\<open>for node_type in x_dict_new: x_dict[node_type] = x_dict[node_type] +
  x_dict_new[node_type]\<close>. A key of \<open>x_dict_new\<close> is a key of \<open>x_dict\<close>, since the
  convolution read it there.\<close>

definition residual :: "(node_type \<rightharpoonup> matrix) \<Rightarrow> (node_type \<rightharpoonup> matrix) \<Rightarrow> (node_type \<rightharpoonup> matrix)" where
  "residual x_dict x_dict_new =
     (\<lambda>nt. case x_dict_new nt of
              None \<Rightarrow> x_dict nt
            | Some y \<Rightarrow> map_option (\<lambda>x. tensor_add x y) (x_dict nt))"

definition gnn_layer ::
  "('w, 'o, 'ix, 'v) lib \<Rightarrow> 'w hetero_gnn \<Rightarrow> nat \<Rightarrow> (edge_type \<times> edge_index) list \<Rightarrow>
   (node_type \<rightharpoonup> matrix) \<Rightarrow> nat \<Rightarrow> py_error + ((node_type \<rightharpoonup> matrix) \<times> nat)" where
  "gnn_layer L m i edges x_dict pos =
     (case gnn_branches L m i x_dict edges Map.empty pos of
        Inl e \<Rightarrow> Inl e
      | Inr (x_dict_new, pos') \<Rightarrow> Inr (residual x_dict x_dict_new, pos'))"

text \<open>\<open>for i, conv in enumerate(self.convs)\<close>: layers \<open>i\<close>, \<open>i + 1\<close>, ... , \<open>n\<close> of them.\<close>

fun gnn_layers ::
  "('w, 'o, 'ix, 'v) lib \<Rightarrow> 'w hetero_gnn \<Rightarrow> (edge_type \<times> edge_index) list \<Rightarrow> nat \<Rightarrow> nat \<Rightarrow>
   (node_type \<rightharpoonup> matrix) \<Rightarrow> nat \<Rightarrow> py_error + ((node_type \<rightharpoonup> matrix) \<times> nat)" where
  "gnn_layers L m edges i 0 x_dict pos = Inr (x_dict, pos)"
| "gnn_layers L m edges i (Suc n) x_dict pos =
     (case gnn_layer L m i edges x_dict pos of
        Inl e \<Rightarrow> Inl e
      | Inr (x_dict', pos') \<Rightarrow> gnn_layers L m edges (i + 1) n x_dict' pos')"

definition forward ::
  "('w, 'o, 'ix, 'v) lib \<Rightarrow> 'w hetero_gnn \<Rightarrow> (node_type \<rightharpoonup> matrix) \<Rightarrow>
   (edge_type \<times> edge_index) list \<Rightarrow> nat \<Rightarrow> py_error + ((node_type \<rightharpoonup> matrix) \<times> nat)" where
  "forward L m x_dict edge_index_dict pos =
     gnn_layers L m edge_index_dict 0 (gnn_num_layers m)
       (\<lambda>nt. map_option (input_proj L (gnn_params m) nt) (x_dict nt)) pos"

section \<open>Engine state and persisted artifacts\<close>

text \<open>A Python \<open>datetime\<close>: naive (no time zone) or aware, in microseconds.\<close>

datatype py_datetime = Naive time | Aware time

text \<open>The readings of the clocks one call sees: \<open>datetime.now()\<close>, \<open>timezone.now()\<close>
  and the store's \<open>datetime()\<close>.\<close>

record clock =
  datetime_now :: time
  timezone_now :: time
  neo4j_datetime :: time

text \<open>A dict from node id to dense index, in insertion order; assigning to a key that is
  present replaces its value in place.\<close>

type_synonym id_index = "(node_id \<times> nat) list"
type_synonym index_id = "(nat \<times> node_id) list"

definition dict_put :: "'k \<Rightarrow> 'v \<Rightarrow> ('k \<times> 'v) list \<Rightarrow> ('k \<times> 'v) list" where
  "dict_put k v d = merge_on (\<lambda>e. fst e = k) (k, v) (\<lambda>e. (k, v)) d"

text \<open>The metadata dict: each key may be missing (\<open>{}\<close> has none), and is read with
  \<open>.get(key, default)\<close>.\<close>

record metadata =
  md_hidden_dim :: "nat option"
  md_node_mappings :: "(node_type \<rightharpoonup> id_index) option"
  md_reverse_mappings :: "(node_type \<rightharpoonup> index_id) option"
  md_last_trained :: "py_datetime option"
  md_total_epochs :: "int option"

definition empty_metadata :: metadata where
  "empty_metadata = \<lparr>md_hidden_dim = None, md_node_mappings = None,
     md_reverse_mappings = None, md_last_trained = None, md_total_epochs = None\<rparr>"

text \<open>The four files under \<open>MODEL_DIR\<close>; \<open>None\<close> when the path does not exist. A saved
  \<open>state_dict\<close> holds the parameters, whose shapes fix the hidden dimension.\<close>

record ('w, 'ix) files =
  model_file :: "(nat \<times> 'w) option"
  metadata_file :: "metadata option"
  faiss_index_file :: "'ix option"
  video_ids_file :: "node_id list option"

definition no_files :: "('w, 'ix) files" where
  "no_files = \<lparr>model_file = None, metadata_file = None, faiss_index_file = None,
     video_ids_file = None\<rparr>"

record ('w, 'ix) engine =
  e_model :: "'w hetero_gnn option"
  e_node_mappings :: "node_type \<rightharpoonup> id_index"
  e_reverse_mappings :: "node_type \<rightharpoonup> index_id"
  e_data :: "hetero_data option"
  e_model_metadata :: metadata
  e_faiss_index :: "'ix option"
  e_video_ids :: "node_id list"

text \<open>Everything a call of the engine can read or write: the engine object, the Graph
  Store (with the relational aggregate), the files, and the position on the random
  tape.\<close>

record ('w, 'ix) world =
  w_engine :: "('w, 'ix) engine"
  w_store :: store
  w_disk :: "('w, 'ix) files"
  w_rng :: nat

subsection \<open>_load_model_if_exists, _save_model, _load_faiss_index_if_exists,
  _save_faiss_index\<close>

text \<open>
  \<open>HeteroGNNModel(hidden_dim)\<close> draws its initial parameters; \<open>load_state_dict\<close> raises
  when the saved shapes belong to another hidden dimension, and the \<open>except\<close> branch
  then sets \<open>self.model = None\<close>, after \<open>self.model_metadata\<close> has been assigned.
\<close>

definition load_model_if_exists ::
  "('w, 'o, 'ix, 'v) lib \<Rightarrow> ('w, 'ix) world \<Rightarrow> ('w, 'ix) world" where
  "load_model_if_exists L w =
     (case (model_file (w_disk w), metadata_file (w_disk w)) of
        (Some (saved_dim, saved_params), Some md) \<Rightarrow>
          (let e1 = (w_engine w)\<lparr>e_model_metadata := md\<rparr>;
               hidden_dim = (case md_hidden_dim md of None \<Rightarrow> 128 | Some h \<Rightarrow> h);
               w1 = w\<lparr>w_rng := w_rng w + 1\<rparr>
           in if saved_dim = hidden_dim then
                w1\<lparr>w_engine := e1\<lparr>
                  e_model := Some \<lparr>gnn_hidden_dim = hidden_dim, gnn_num_layers = 3,
                                   gnn_params = saved_params, gnn_training = False\<rparr>,
                  e_node_mappings :=
                    (case md_node_mappings md of None \<Rightarrow> Map.empty | Some nm \<Rightarrow> nm),
                  e_reverse_mappings :=
                    (case md_reverse_mappings md of None \<Rightarrow> Map.empty | Some rm \<Rightarrow> rm)\<rparr>\<rparr>
              else w1\<lparr>w_engine := e1\<lparr>e_model := None\<rparr>\<rparr>)
      | _ \<Rightarrow> w)"

text \<open>
  \<open>_save_model\<close>: \<open>torch.save(self.model.state_dict(), MODEL_PATH)\<close>, then the
  assignment of a new dict to \<open>self.model_metadata\<close>. Nothing is written to
  \<open>METADATA_PATH\<close>.
\<close>

definition save_model :: "clock \<Rightarrow> ('w, 'ix) world \<Rightarrow> py_error + ('w, 'ix) world" where
  "save_model clk w =
     (case e_model (w_engine w) of
        None \<Rightarrow> Inl AttributeError
      | Some m \<Rightarrow>
          Inr (w\<lparr>w_disk := (w_disk w)\<lparr>model_file := Some (gnn_hidden_dim m, gnn_params m)\<rparr>,
                 w_engine := (w_engine w)\<lparr>e_model_metadata :=
                   \<lparr>md_hidden_dim = Some (gnn_hidden_dim m),
                    md_node_mappings = Some (e_node_mappings (w_engine w)),
                    md_reverse_mappings = Some (e_reverse_mappings (w_engine w)),
                    md_last_trained = Some (Naive (datetime_now clk)),
                    md_total_epochs =
                      Some ((case md_total_epochs (e_model_metadata (w_engine w)) of
                               None \<Rightarrow> 0 | Some n \<Rightarrow> n) + 30)\<rparr>\<rparr>\<rparr>))"

definition load_faiss_index_if_exists :: "('w, 'ix) world \<Rightarrow> ('w, 'ix) world" where
  "load_faiss_index_if_exists w =
     (case (faiss_index_file (w_disk w), video_ids_file (w_disk w)) of
        (Some ix, Some ids) \<Rightarrow>
          w\<lparr>w_engine := (w_engine w)\<lparr>e_faiss_index := Some ix, e_video_ids := ids\<rparr>\<rparr>
      | _ \<Rightarrow> w)"

definition save_faiss_index :: "('w, 'ix) world \<Rightarrow> ('w, 'ix) world" where
  "save_faiss_index w =
     (case e_faiss_index (w_engine w) of
        None \<Rightarrow> w
      | Some ix \<Rightarrow>
          w\<lparr>w_disk := (w_disk w)\<lparr>faiss_index_file := Some ix,
                                   video_ids_file := Some (e_video_ids (w_engine w))\<rparr>\<rparr>)"

text \<open>\<open>RecommendationEngine.__init__\<close> in a process that finds the store \<open>g\<close> and the
  files \<open>fs\<close>.\<close>

definition blank_engine :: "('w, 'ix) engine" where
  "blank_engine = \<lparr>e_model = None, e_node_mappings = Map.empty,
     e_reverse_mappings = Map.empty, e_data = None, e_model_metadata = empty_metadata,
     e_faiss_index = None, e_video_ids = []\<rparr>"

definition new_engine ::
  "('w, 'o, 'ix, 'v) lib \<Rightarrow> store \<Rightarrow> ('w, 'ix) files \<Rightarrow> nat \<Rightarrow> ('w, 'ix) world" where
  "new_engine L g fs pos =
     load_faiss_index_if_exists
       (load_model_if_exists L
          \<lparr>w_engine = blank_engine, w_store = g, w_disk = fs, w_rng = pos\<rparr>)"

section \<open>Staleness Detector\<close>

definition seven_days :: int where
  "seven_days = 7 * 24 * 60 * 60 * 1000000"

definition trained_count :: "('w, 'ix) engine \<Rightarrow> node_type \<Rightarrow> nat" where
  "trained_count e nt = (case e_node_mappings e nt of None \<Rightarrow> 0 | Some d \<Rightarrow> length d)"

definition outgrown :: "('w, 'ix) engine \<Rightarrow> store \<Rightarrow> bool" where
  "outgrown e g =
     (real (length (g_users g)) > real (trained_count e User) * 1.2 \<or>
      real (length (g_videos g)) > real (trained_count e Video) * 1.2)"

definition check_model_needs_training :: "clock \<Rightarrow> ('w, 'ix) engine \<Rightarrow> store \<Rightarrow> bool" where
  "check_model_needs_training clk e g =
     (if e_model e = None then True
      else (case md_last_trained (e_model_metadata e) of
              Some (Aware t) \<Rightarrow>
                (if timezone_now clk - t > seven_days then True else outgrown e g)
            | Some (Naive t) \<Rightarrow>
                (if datetime_now clk - t > seven_days then True else outgrown e g)
            | None \<Rightarrow> outgrown e g))"

section \<open>Graph Loader\<close>

definition bind_err :: "'e + 'a \<Rightarrow> ('a \<Rightarrow> 'e + 'b) \<Rightarrow> 'e + 'b" where
  "bind_err r f = (case r of Inl e \<Rightarrow> Inl e | Inr a \<Rightarrow> f a)"

text \<open>\<open>{nid: idx for idx, nid in enumerate(node_ids)}\<close> and its reverse.\<close>

definition enumerate_ids :: "node_id list \<Rightarrow> id_index" where
  "enumerate_ids ids = fold (\<lambda>(idx, nid) d. dict_put nid idx d) (zip [0..<length ids] ids) []"

definition reverse_of :: "id_index \<Rightarrow> index_id" where
  "reverse_of m = fold (\<lambda>(nid, idx) d. dict_put idx nid d) m []"

definition get_all_nodes :: "store \<Rightarrow> node_type \<Rightarrow> node_id list" where
  "get_all_nodes g nt =
     (case nt of
        User \<Rightarrow> map user_id (g_users g)
      | Video \<Rightarrow> map video_id (g_videos g)
      | Category \<Rightarrow> map category_id (g_categories g)
      | ParentCategory \<Rightarrow> map parent_category_id (g_parent_categories g))"

text \<open>The undirected match of \<open>SIMILAR_TO\<close> sees each relationship from both ends and
  keeps the end with \<open>v1.video_id < v2.video_id\<close>.\<close>

definition similar_triple :: "similar_to_rel \<Rightarrow> (node_id \<times> node_id \<times> real) list" where
  "similar_triple r =
     (if s_src r < s_dst r then [(s_src r, s_dst r, s_similarity r)]
      else if s_dst r < s_src r then [(s_dst r, s_src r, s_similarity r)]
      else [])"

definition get_all_edges :: "store \<Rightarrow> (edge_type \<times> (node_id \<times> node_id \<times> real) list) list" where
  "get_all_edges g =
     [((User, ''watches'', Video),
         map (\<lambda>r. (w_src r, w_dst r, if w_watch_time r = 0 then 1.0 else w_watch_time r))
           (g_watches g)),
      ((User, ''likes'', Video), map (\<lambda>r. (l_src r, l_dst r, 1.0)) (g_likes g)),
      ((Video, ''belongs_to'', Category), map (\<lambda>(a, b). (a, b, 1.0)) (g_belongs_to g)),
      ((Video, ''created_by'', User), map (\<lambda>(a, b). (a, b, 1.0)) (g_created_by g)),
      ((User, ''follows'', User), map (\<lambda>r. (f_src r, f_dst r, 1.0)) (g_follows g)),
      ((User, ''interested_in'', Category),
         map (\<lambda>r. (i_src r, i_dst r, min (i_score r / 10.0) 1.0)) (g_interested_in g)),
      ((Video, ''similar_to'', Video), concat (map similar_triple (g_similar_to g))),
      ((Category, ''parent_of'', ParentCategory),
         map (\<lambda>(a, b). (a, b, 1.0)) (g_parent_of g))]"

text \<open>The edges of one type whose two ends are in the mappings, as index pairs with
  their weights.\<close>

definition index_edges ::
  "id_index \<Rightarrow> id_index \<Rightarrow> (node_id \<times> node_id \<times> real) list \<Rightarrow> ((nat \<times> nat) \<times> real) list" where
  "index_edges m_src m_dst edge_list =
     List.map_filter (\<lambda>(src_id, dst_id, weight).
        (case (map_of m_src src_id, map_of m_dst dst_id) of
           (Some src_idx, Some dst_idx) \<Rightarrow> Some ((src_idx, dst_idx), weight)
         | _ \<Rightarrow> None)) edge_list"

definition node_type_pos :: "node_type \<Rightarrow> nat" where
  "node_type_pos nt = (case nt of User \<Rightarrow> 0 | Video \<Rightarrow> 1 | Category \<Rightarrow> 2 | ParentCategory \<Rightarrow> 3)"

definition load_graph_from_neo4j :: "('w, 'o, 'ix, 'v) lib \<Rightarrow> ('w, 'ix) world \<Rightarrow> ('w, 'ix) world" where
  "load_graph_from_neo4j L w =
     (let nodes = get_all_nodes (w_store w);
          nm = (\<lambda>nt. enumerate_ids (nodes nt));
          indexed = map (\<lambda>((src_type, rel, dst_type), edge_list).
                      ((src_type, rel, dst_type),
                       index_edges (nm src_type) (nm dst_type) edge_list))
                    (filter (\<lambda>(et, edge_list). edge_list \<noteq> []) (get_all_edges (w_store w)));
          kept = filter (\<lambda>(et, es). es \<noteq> []) indexed;
          data = \<lparr>hd_x = (\<lambda>nt. Some (randn L (w_rng w + node_type_pos nt) (length (nodes nt)) 64)),
                  hd_num_nodes = (\<lambda>nt. Some (length (nodes nt))),
                  hd_edge_index = map (\<lambda>(et, es). (et, map fst es)) kept,
                  hd_edge_attr = map (\<lambda>(et, es). (et, map snd es)) kept\<rparr>
      in w\<lparr>w_engine := (w_engine w)\<lparr>
              e_node_mappings := (\<lambda>nt. Some (nm nt)),
              e_reverse_mappings := (\<lambda>nt. Some (reverse_of (nm nt))),
              e_data := Some data\<rparr>,
           w_rng := w_rng w + 4\<rparr>)"

section \<open>Trainer\<close>

text \<open>What one training run carries from step to step: the model in training mode, the
  optimizer, the position on the random tape.\<close>

record ('w, 'o) trainer =
  tr_model :: "'w hetero_gnn"
  tr_opt :: 'o
  tr_pos :: nat

definition interactions :: "store \<Rightarrow> (node_id \<times> node_id) list" where
  "interactions g = take 5000 (map (\<lambda>r. (w_src r, w_dst r)) (g_watches g))"

definition dot :: "real list \<Rightarrow> real list \<Rightarrow> real" where
  "dot a b = sum_list (map2 (*) a b)"

definition logsigmoid :: "real \<Rightarrow> real" where
  "logsigmoid x = ln (1 / (1 + exp (- x)))"

definition row :: "matrix \<Rightarrow> nat \<Rightarrow> py_error + real list" where
  "row m i = (if i < length m then Inr (m ! i) else Inl IndexError)"

text \<open>
  \<open>self.data.x_dict\<close> and \<open>self.data.edge_index_dict\<close>: \<open>HeteroData\<close> collects the
  attribute over its node and edge types and raises KeyError when no type has it. A
  snapshot of a store without relationships has no edge type.
\<close>

definition data_x_dict :: "hetero_data \<Rightarrow> py_error + (node_type \<rightharpoonup> matrix)" where
  "data_x_dict data =
     (if hd_x data User = None \<and> hd_x data Video = None \<and> hd_x data Category = None \<and>
         hd_x data ParentCategory = None
      then Inl KeyError else Inr (hd_x data))"

definition data_edge_index_dict :: "hetero_data \<Rightarrow> py_error + (edge_type \<times> edge_index) list" where
  "data_edge_index_dict data =
     (if hd_edge_index data = [] then Inl KeyError else Inr (hd_edge_index data))"

text \<open>Python's \<open>/\<close> on numbers raises when the divisor is zero.\<close>

definition py_div :: "real \<Rightarrow> real \<Rightarrow> py_error + real" where
  "py_div a b = (if b = 0 then Inl ZeroDivisionError else Inr (a / b))"

text \<open>
  The body of the loop for one interaction that is in the mappings: a negative index
  (\<open>np.random.randint(0, num_videos)\<close> raises ValueError when \<open>num_videos\<close> is 0), a
  forward pass over the whole graph, the BPR loss, \<open>zero_grad\<close>, \<open>backward\<close> and
  \<open>optimizer.step()\<close>. It returns \<open>loss.item()\<close>.
\<close>

definition bpr_step ::
  "('w, 'o, 'ix, 'v) lib \<Rightarrow> hetero_data \<Rightarrow> nat \<Rightarrow> nat \<Rightarrow> nat \<Rightarrow> ('w, 'o) trainer \<Rightarrow>
   py_error + (real \<times> ('w, 'o) trainer)" where
  "bpr_step L data num_videos u_idx v_idx tr =
     (if num_videos = 0 then Inl ValueError
      else
        (let neg_idx = randint L (tr_pos tr) 0 num_videos;
             pos1 = tr_pos tr + 1
         in bind_err (data_x_dict data) (\<lambda>xd.
            bind_err (data_edge_index_dict data) (\<lambda>ed.
            bind_err (forward L (tr_model tr) xd ed pos1)
              (\<lambda>(embeddings, pos2).
                 (case (embeddings User, embeddings Video) of
                    (Some users, Some videos) \<Rightarrow>
                      bind_err (row users u_idx) (\<lambda>user_emb.
                      bind_err (row videos v_idx) (\<lambda>pos_emb.
                      bind_err (row videos neg_idx) (\<lambda>neg_emb.
                        (let pos_score = dot user_emb pos_emb;
                             neg_score = dot user_emb neg_emb;
                             loss = - logsigmoid (pos_score - neg_score)
                         in (case optimizer_step L (tr_opt tr) (gnn_params (tr_model tr)) data
                                    pos1 (u_idx, v_idx, neg_idx) of
                               (opt', params') \<Rightarrow>
                                 Inr (loss,
                                      tr\<lparr>tr_model := (tr_model tr)\<lparr>gnn_params := params'\<rparr>,
                                         tr_opt := opt', tr_pos := pos2\<rparr>))))))
                  | _ \<Rightarrow> Inl KeyError))))))"

text \<open>The loop over the interactions, with \<open>total_loss\<close> and \<open>num_batches\<close>; an
  interaction whose user or video is not in the mappings is skipped.\<close>

fun train_loop ::
  "('w, 'o, 'ix, 'v) lib \<Rightarrow> hetero_data \<Rightarrow> nat \<Rightarrow> id_index \<Rightarrow> id_index \<Rightarrow>
   (node_id \<times> node_id) list \<Rightarrow> real \<Rightarrow> nat \<Rightarrow> ('w, 'o) trainer \<Rightarrow>
   py_error + (real \<times> nat \<times> ('w, 'o) trainer)" where
  "train_loop L data num_videos users videos [] total_loss num_batches tr =
     Inr (total_loss, num_batches, tr)"
| "train_loop L data num_videos users videos ((uid, pos_vid) # rest)
     total_loss num_batches tr =
     (case (map_of users uid, map_of videos pos_vid) of
        (Some u_idx, Some v_idx) \<Rightarrow>
          bind_err (bpr_step L data num_videos u_idx v_idx tr)
            (\<lambda>(loss, tr').
               train_loop L data num_videos users videos rest
                 (total_loss + loss) (num_batches + 1) tr')
      | _ \<Rightarrow> train_loop L data num_videos users videos rest total_loss num_batches tr)"

definition train_epoch ::
  "('w, 'o, 'ix, 'v) lib \<Rightarrow> ('w, 'ix) engine \<Rightarrow> store \<Rightarrow> ('w, 'o) trainer \<Rightarrow>
   py_error + (real \<times> ('w, 'o) trainer)" where
  "train_epoch L e g tr =
     (if interactions g = [] then Inr (0.0, tr)
      else
        (case e_data e of
           None \<Rightarrow> Inl TypeError
         | Some data \<Rightarrow>
             (case hd_num_nodes data Video of
                None \<Rightarrow> Inl AttributeError
              | Some num_videos \<Rightarrow>
                  (case (e_node_mappings e User, e_node_mappings e Video) of
                     (Some users, Some videos) \<Rightarrow>
                       bind_err
                         (train_loop L data num_videos users videos (interactions g) 0 0 tr)
                         (\<lambda>(total_loss, num_batches, tr').
                            bind_err (py_div total_loss (real (max num_batches 1)))
                              (\<lambda>mean_loss. Inr (mean_loss, tr')))
                   | _ \<Rightarrow> Inl KeyError))))"

fun run_epochs ::
  "('w, 'o, 'ix, 'v) lib \<Rightarrow> ('w, 'ix) engine \<Rightarrow> store \<Rightarrow> nat \<Rightarrow> ('w, 'o) trainer \<Rightarrow>
   py_error + ('w, 'o) trainer" where
  "run_epochs L e g 0 tr = Inr tr"
| "run_epochs L e g (Suc n) tr =
     bind_err (train_epoch L e g tr) (\<lambda>(loss, tr'). run_epochs L e g n tr')"

subsection \<open>Embedding Store and Vector Index\<close>

text \<open>\<open>MATCH (n:Label {id: $node_id}) SET n.embedding = $embedding,
  n.embedding_updated = datetime()\<close>.\<close>

definition set_embedding :: "time \<Rightarrow> node_type \<Rightarrow> node_id \<Rightarrow> string \<Rightarrow> store \<Rightarrow> store" where
  "set_embedding t nt nid s g =
     (case nt of
        User \<Rightarrow> g\<lparr>g_users := map (\<lambda>n. if user_id n = nid
            then n\<lparr>user_embedding := Some s, user_embedding_updated := Some t\<rparr> else n)
            (g_users g)\<rparr>
      | Video \<Rightarrow> g\<lparr>g_videos := map (\<lambda>n. if video_id n = nid
            then n\<lparr>video_embedding := Some s, video_embedding_updated := Some t\<rparr> else n)
            (g_videos g)\<rparr>
      | Category \<Rightarrow> g\<lparr>g_categories := map (\<lambda>n. if category_id n = nid
            then n\<lparr>category_embedding := Some s, category_embedding_updated := Some t\<rparr>
            else n) (g_categories g)\<rparr>
      | ParentCategory \<Rightarrow> g\<lparr>g_parent_categories := map (\<lambda>n. if parent_category_id n = nid
            then n\<lparr>parent_category_embedding := Some s,
                   parent_category_embedding_updated := Some t\<rparr>
            else n) (g_parent_categories g)\<rparr>)"

definition store_embeddings_in_neo4j ::
  "('w, 'o, 'ix, 'v) lib \<Rightarrow> time \<Rightarrow> node_type \<Rightarrow> (node_id \<times> real list) list \<Rightarrow> store \<Rightarrow> store" where
  "store_embeddings_in_neo4j L t nt emb_dict g =
     fold (\<lambda>(nid, emb). set_embedding t nt nid (json_dumps L emb)) emb_dict g"

text \<open>\<open>emb_dict\<close> of one node type: the row of every mapped node; a missing key of
  the mappings or of the embeddings is a KeyError, an index beyond the tensor an
  IndexError.\<close>

fun rows_of ::
  "matrix \<Rightarrow> id_index \<Rightarrow> (node_id \<times> real list) list \<Rightarrow> py_error + (node_id \<times> real list) list" where
  "rows_of m [] emb_dict = Inr emb_dict"
| "rows_of m ((nid, idx) # rest) emb_dict =
     bind_err (row m idx) (\<lambda>emb. rows_of m rest (dict_put nid emb emb_dict))"

subsection \<open>_build_faiss_index, _extract_and_store_embeddings\<close>

text \<open>The loop over the records: \<open>np.array(json.loads(record['embedding']))\<close>.\<close>

fun load_embeddings ::
  "('w, 'o, 'ix, 'v) lib \<Rightarrow> (node_id \<times> string) list \<Rightarrow> py_error + 'v list" where
  "load_embeddings L [] = Inr []"
| "load_embeddings L ((vid, s) # rest) =
     bind_err (json_loads L s) (\<lambda>value.
     bind_err (np_array L value) (\<lambda>emb.
     bind_err (load_embeddings L rest) (\<lambda>embs. Inr (emb # embs))))"

text \<open>
  Every video with a non-null embedding, in store order. \<open>self.video_ids\<close> is
  reassigned before the early return, which leaves \<open>self.faiss_index\<close> as it was.
\<close>

definition build_faiss_index ::
  "('w, 'o, 'ix, 'v) lib \<Rightarrow> ('w, 'ix) world \<Rightarrow> py_error + ('w, 'ix) world" where
  "build_faiss_index L w =
     (let records = List.map_filter
            (\<lambda>n. map_option (\<lambda>s. (video_id n, s)) (video_embedding n))
            (g_videos (w_store w))
      in bind_err (load_embeddings L records)
           (\<lambda>video_embeddings.
              (let w1 = w\<lparr>w_engine := (w_engine w)\<lparr>e_video_ids := map fst records\<rparr>\<rparr>
               in if video_embeddings = [] then Inr w1
                  else bind_err (index_flat_ip L video_embeddings)
                         (\<lambda>ix. Inr (w1\<lparr>w_engine :=
                                       (w_engine w1)\<lparr>e_faiss_index := Some ix\<rparr>\<rparr>)))))"

definition all_node_types :: "node_type list" where
  "all_node_types = [User, Video, Category, ParentCategory]"

definition store_node_type ::
  "('w, 'o, 'ix, 'v) lib \<Rightarrow> time \<Rightarrow> ('w, 'ix) engine \<Rightarrow> (node_type \<rightharpoonup> matrix) \<Rightarrow> node_type \<Rightarrow>
   store \<Rightarrow> py_error + store" where
  "store_node_type L t e embeddings nt g =
     (case e_node_mappings e nt of
        None \<Rightarrow> Inl KeyError
      | Some mapping \<Rightarrow>
          (if mapping = [] then Inr (store_embeddings_in_neo4j L t nt [] g)
           else (case embeddings nt of
                   None \<Rightarrow> Inl KeyError
                 | Some m \<Rightarrow>
                     bind_err (rows_of m mapping [])
                       (\<lambda>emb_dict. Inr (store_embeddings_in_neo4j L t nt emb_dict g)))))"

fun store_node_types ::
  "('w, 'o, 'ix, 'v) lib \<Rightarrow> time \<Rightarrow> ('w, 'ix) engine \<Rightarrow> (node_type \<rightharpoonup> matrix) \<Rightarrow>
   node_type list \<Rightarrow> store \<Rightarrow> py_error + store" where
  "store_node_types L t e embeddings [] g = Inr g"
| "store_node_types L t e embeddings (nt # nts) g =
     bind_err (store_node_type L t e embeddings nt g)
       (store_node_types L t e embeddings nts)"

text \<open>\<open>self.model.eval()\<close>, one forward pass, the four node types written to the
  store, then the index rebuilt from the store.\<close>

definition extract_and_store_embeddings ::
  "('w, 'o, 'ix, 'v) lib \<Rightarrow> clock \<Rightarrow> ('w, 'ix) world \<Rightarrow> py_error + ('w, 'ix) world" where
  "extract_and_store_embeddings L clk w =
     (case e_model (w_engine w) of
        None \<Rightarrow> Inl AttributeError
      | Some m \<Rightarrow>
          (let m_eval = m\<lparr>gnn_training := False\<rparr>;
               e1 = (w_engine w)\<lparr>e_model := Some m_eval\<rparr>
           in (case e_data e1 of
                 None \<Rightarrow> Inl AttributeError
               | Some data \<Rightarrow>
                   bind_err (data_x_dict data) (\<lambda>xd.
                   bind_err (data_edge_index_dict data) (\<lambda>ed.
                   bind_err (forward L m_eval xd ed (w_rng w))
                     (\<lambda>(embeddings, pos).
                        bind_err (store_node_types L (neo4j_datetime clk) e1 embeddings
                                    all_node_types (w_store w))
                          (\<lambda>g. build_faiss_index L
                                  (w\<lparr>w_engine := e1, w_store := g, w_rng := pos\<rparr>))))))))"

subsection \<open>train_gnn_and_update_embeddings, ensure_model_trained\<close>

definition train_gnn_and_update_embeddings ::
  "('w, 'o, 'ix, 'v) lib \<Rightarrow> clock \<Rightarrow> int \<Rightarrow> nat \<Rightarrow> ('w, 'ix) world \<Rightarrow> py_error + ('w, 'ix) world" where
  "train_gnn_and_update_embeddings L clk num_epochs hidden_dim w =
     (let w1 = (if e_data (w_engine w) = None then load_graph_from_neo4j L w else w);
          (m, pos) = (case e_model (w_engine w1) of
                        None \<Rightarrow>
                          (\<lparr>gnn_hidden_dim = hidden_dim, gnn_num_layers = 3,
                            gnn_params = init_params L (w_rng w1) hidden_dim,
                            gnn_training = True\<rparr>, w_rng w1 + 1)
                      | Some m \<Rightarrow> (m, w_rng w1));
          tr = \<lparr>tr_model = m\<lparr>gnn_training := True\<rparr>, tr_opt = adam L (gnn_params m),
                tr_pos = pos\<rparr>
      in bind_err (run_epochs L (w_engine w1) (w_store w1) (nat num_epochs) tr)
           (\<lambda>tr'.
              bind_err (extract_and_store_embeddings L clk
                          (w1\<lparr>w_engine := (w_engine w1)\<lparr>e_model := Some (tr_model tr')\<rparr>,
                              w_rng := tr_pos tr'\<rparr>))
                (\<lambda>w2. bind_err (save_model clk w2) (\<lambda>w3. Inr (save_faiss_index w3)))))"

definition ensure_model_trained ::
  "('w, 'o, 'ix, 'v) lib \<Rightarrow> clock \<Rightarrow> bool \<Rightarrow> ('w, 'ix) world \<Rightarrow> py_error + ('w, 'ix) world" where
  "ensure_model_trained L clk force_retrain w =
     (if force_retrain \<or> check_model_needs_training clk (w_engine w) (w_store w)
      then train_gnn_and_update_embeddings L clk 30 128 w
      else if e_faiss_index (w_engine w) = None then build_faiss_index L w
      else Inr w)"

section \<open>Recommender\<close>

text \<open>
  \<open>MATCH (v:Video)<-[w:WATCHES]-() WITH v, count(w) AS watch_count ORDER BY watch_count
  DESC LIMIT $limit\<close>: the videos with at least one watch, by descending count; equal
  counts stay in store order. A negative \<open>LIMIT\<close> is an error of the store.
\<close>

definition watch_count :: "store \<Rightarrow> node_id \<Rightarrow> nat" where
  "watch_count g vid = length (filter (\<lambda>r. w_dst r = vid) (g_watches g))"

definition popularity_ranking :: "store \<Rightarrow> node_id list" where
  "popularity_ranking g =
     sort_key (\<lambda>vid. - int (watch_count g vid))
       (filter (\<lambda>vid. 0 < watch_count g vid) (map video_id (g_videos g)))"

definition get_popular_videos :: "int \<Rightarrow> store \<Rightarrow> py_error + node_id list" where
  "get_popular_videos limit g =
     (if limit < 0 then Inl CypherError else Inr (take (nat limit) (popularity_ranking g)))"

text \<open>Python's \<open>xs[i]\<close>: a negative index counts from the end.\<close>

definition py_index :: "'a list \<Rightarrow> int \<Rightarrow> py_error + 'a" where
  "py_index xs i =
     (let n = int (length xs); j = (if i < 0 then n + i else i)
      in if 0 \<le> j \<and> j < n then Inr (xs ! nat j) else Inl IndexError)"

definition watched_by :: "store \<Rightarrow> node_id \<Rightarrow> node_id set" where
  "watched_by g uid = set (map w_dst (filter (\<lambda>r. w_src r = uid) (g_watches g)))"

text \<open>The loop \<open>for idx in indices[0]\<close> that fills \<open>recommendations\<close>.\<close>

fun collect ::
  "node_id list \<Rightarrow> node_id set \<Rightarrow> int \<Rightarrow> int list \<Rightarrow> node_id list \<Rightarrow> py_error + node_id list" where
  "collect video_ids watched limit [] recommendations = Inr recommendations"
| "collect video_ids watched limit (idx # rest) recommendations =
     (if idx < int (length video_ids) then
        bind_err (py_index video_ids idx)
          (\<lambda>vid.
             if vid \<notin> watched then
               (if int (length (recommendations @ [vid])) \<ge> limit
                then Inr (recommendations @ [vid])
                else collect video_ids watched limit rest (recommendations @ [vid]))
             else collect video_ids watched limit rest recommendations)
      else collect video_ids watched limit rest recommendations)"

text \<open>\<open>record = result.single()\<close> and the test \<open>not record or not
  record['embedding']\<close>: the embedding text of the user's node, \<open>None\<close> when there is no
  record or the property is null or the empty string.\<close>

definition stored_embedding :: "store \<Rightarrow> node_id \<Rightarrow> string option" where
  "stored_embedding g uid =
     (case find (\<lambda>n. user_id n = uid) (g_users g) of
        None \<Rightarrow> None
      | Some rec \<Rightarrow>
          (case user_embedding rec of
             None \<Rightarrow> None
           | Some s \<Rightarrow> if s = [] then None else Some s))"

text \<open>The part of \<open>get_recommendations\<close> inside \<open>with self.driver.session()\<close>: the
  popularity fallback when there is no usable embedding; otherwise the embedding is
  decoded and made a normalized query row, the index is built if there is still none,
  searched for \<open>limit * 2\<close> neighbours, and the result filtered.\<close>

definition answer_from_store ::
  "('w, 'o, 'ix, 'v) lib \<Rightarrow> node_id \<Rightarrow> int \<Rightarrow> ('w, 'ix) world \<Rightarrow>
   py_error + (node_id list \<times> ('w, 'ix) world)" where
  "answer_from_store L uid limit w =
     (case stored_embedding (w_store w) uid of
        None \<Rightarrow> bind_err (get_popular_videos limit (w_store w)) (\<lambda>vs. Inr (vs, w))
      | Some s \<Rightarrow>
          bind_err (json_loads L s) (\<lambda>value.
          bind_err (query_vector L value) (\<lambda>query.
          bind_err (if e_faiss_index (w_engine w) = None
                    then build_faiss_index L w else Inr w)
            (\<lambda>w1.
               (case e_faiss_index (w_engine w1) of
                  None \<Rightarrow> Inl AttributeError
                | Some ix \<Rightarrow>
                    bind_err (faiss_search L ix query (limit * 2))
                      (\<lambda>indices.
                         bind_err
                           (collect (e_video_ids (w_engine w1))
                              (watched_by (w_store w1) uid) limit indices [])
                           (\<lambda>recommendations. Inr (recommendations, w1))))))))"

definition get_recommendations ::
  "('w, 'o, 'ix, 'v) lib \<Rightarrow> clock \<Rightarrow> node_id \<Rightarrow> int \<Rightarrow> ('w, 'ix) world \<Rightarrow>
   py_error + (node_id list \<times> ('w, 'ix) world)" where
  "get_recommendations L clk uid limit w =
     bind_err (if e_faiss_index (w_engine w) = None
               then ensure_model_trained L clk False w else Inr w)
       (answer_from_store L uid limit)"

text \<open>The index results that name a position of \<open>video_ids\<close>, as video ids, in rank
  order.\<close>

definition candidates :: "node_id list \<Rightarrow> int list \<Rightarrow> node_id list" where
  "candidates video_ids indices =
     concat (map (\<lambda>idx. if idx < int (length video_ids)
                        then (case py_index video_ids idx of Inl e \<Rightarrow> [] | Inr vid \<Rightarrow> [vid])
                        else []) indices)"


section \<open>The GNN layer in the words of the specification\<close>

text \<open>A relation whose source type equals its destination type.\<close>

definition same_type :: "edge_type \<times> edge_index \<Rightarrow> bool" where
  "same_type e = (case e of ((src_type, rel, dst_type), ei) \<Rightarrow> src_type = dst_type)"

text \<open>The outputs of a layer, one per same-type relation, in the order of the
  relations, each with the node type it feeds: convolution of that type's running
  representation over the relation, layer normalization, ReLU, dropout.\<close>

fun relation_outputs ::
  "('w, 'o, 'ix, 'v) lib \<Rightarrow> 'w hetero_gnn \<Rightarrow> nat \<Rightarrow> (node_type \<rightharpoonup> matrix) \<Rightarrow>
   (edge_type \<times> edge_index) list \<Rightarrow> nat \<Rightarrow> (node_type \<times> matrix) list \<times> nat" where
  "relation_outputs L m i x [] pos = ([], pos)"
| "relation_outputs L m i x (((src_type, rel, dst_type), ei) # rest) pos =
     (case x dst_type of
        None \<Rightarrow> relation_outputs L m i x rest pos
      | Some xs \<Rightarrow>
          (case apply_dropout L (gnn_training m) pos
                  (relu (layer_norm L (gnn_params m) i (gcn_conv L (gnn_params m) i xs ei))) of
             (out, pos') \<Rightarrow>
               (case relation_outputs L m i x rest pos' of
                  (outs, pos'') \<Rightarrow> ((dst_type, out) # outs, pos''))))"

text \<open>The sum of the outputs that feed a node type, if any.\<close>

definition summed :: "(node_type \<times> matrix) list \<Rightarrow> node_type \<Rightarrow> matrix option" where
  "summed outs nt =
     (case map snd (filter (\<lambda>(d, out). d = nt) outs) of
        [] \<Rightarrow> None
      | out # others \<Rightarrow> Some (foldl tensor_add out others))"

text \<open>A layer in the words of the specification: the outputs of the same-type relations,
  summed per destination type, added to the running representation of that type.\<close>

definition layer_spec ::
  "('w, 'o, 'ix, 'v) lib \<Rightarrow> 'w hetero_gnn \<Rightarrow> nat \<Rightarrow> (edge_type \<times> edge_index) list \<Rightarrow>
   (node_type \<rightharpoonup> matrix) \<Rightarrow> nat \<Rightarrow> (node_type \<rightharpoonup> matrix) \<times> nat" where
  "layer_spec L m i edges x pos =
     (case relation_outputs L m i x (filter same_type edges) pos of
        (outs, pos') \<Rightarrow>
          (\<lambda>nt. case summed outs nt of
                   None \<Rightarrow> x nt
                 | Some y \<Rightarrow> map_option (\<lambda>x0. tensor_add x0 y) (x nt),
           pos'))"

text \<open>The layers \<open>i\<close>, \<open>i + 1\<close>, ... of the specification, \<open>n\<close> of them, and the forward
  pass of the specification: the input projection of every node type, then the layers.\<close>

fun layers_spec ::
  "('w, 'o, 'ix, 'v) lib \<Rightarrow> 'w hetero_gnn \<Rightarrow> (edge_type \<times> edge_index) list \<Rightarrow> nat \<Rightarrow> nat \<Rightarrow>
   (node_type \<rightharpoonup> matrix) \<Rightarrow> nat \<Rightarrow> (node_type \<rightharpoonup> matrix) \<times> nat" where
  "layers_spec L m edges i 0 x pos = (x, pos)"
| "layers_spec L m edges i (Suc n) x pos =
     (case layer_spec L m i edges x pos of
        (x', pos') \<Rightarrow> layers_spec L m edges (i + 1) n x' pos')"

definition forward_spec ::
  "('w, 'o, 'ix, 'v) lib \<Rightarrow> 'w hetero_gnn \<Rightarrow> (node_type \<rightharpoonup> matrix) \<Rightarrow>
   (edge_type \<times> edge_index) list \<Rightarrow> nat \<Rightarrow> (node_type \<rightharpoonup> matrix) \<times> nat" where
  "forward_spec L m x edges pos =
     layers_spec L m edges 0 (gnn_num_layers m)
       (\<lambda>nt. map_option (input_proj L (gnn_params m) nt) (x nt)) pos"

text \<open>The value of one key of \<open>x_dict_new\<close> after further outputs: the first output is
  assigned, the later ones are added.\<close>

fun acc_sum :: "matrix option \<Rightarrow> matrix list \<Rightarrow> matrix option" where
  "acc_sum a [] = a"
| "acc_sum None (out # others) = acc_sum (Some out) others"
| "acc_sum (Some y) (out # others) = acc_sum (Some (tensor_add y out)) others"

section \<open>Scenarios\<close>

text \<open>A model trained at time 0 on five users and five videos.\<close>

definition five_ids :: "node_id list" where
  "five_ids = [''a'', ''b'', ''c'', ''d'', ''e'']"

definition trained_engine :: "(unit, unit) engine" where
  "trained_engine = blank_engine\<lparr>
     e_model := Some \<lparr>gnn_hidden_dim = 128, gnn_num_layers = 3, gnn_params = (),
                      gnn_training = False\<rparr>,
     e_node_mappings := (\<lambda>nt. Some (enumerate_ids five_ids)),
     e_model_metadata := empty_metadata\<lparr>md_last_trained := Some (Naive 0)\<rparr>\<rparr>"

definition store_of_size :: "nat \<Rightarrow> nat \<Rightarrow> store" where
  "store_of_size users videos = empty_store\<lparr>
     g_users := map (\<lambda>k. new_user (replicate (Suc k) CHR ''u'')) [0..<users],
     g_videos := map (\<lambda>k. new_video (replicate (Suc k) CHR ''v'')) [0..<videos]\<rparr>"

definition clock_at :: "time \<Rightarrow> clock" where
  "clock_at t = \<lparr>datetime_now = t, timezone_now = t, neo4j_datetime = t\<rparr>"

subsection \<open>A decoder for the stand-in library\<close>

text \<open>
  The engine stores an embedding as the text \<open>json.dumps(embedding.tolist())\<close>, a flat
  JSON array of numbers. \<open>decode_number_array\<close> decodes such texts (optional white
  space; numbers with optional sign, fraction and exponent) to the list of the values,
  and no other text. It serves the stand-in library below as its decoder; the texts of
  the scenarios are \<open>[1.0]\<close>, which it decodes as \<open>json.loads\<close> does, and \<open>not json\<close>,
  at which \<open>json.loads\<close> raises.
\<close>

definition is_digit :: "char \<Rightarrow> bool" where
  "is_digit c = (CHR ''0'' \<le> c \<and> c \<le> CHR ''9'')"

definition is_space :: "char \<Rightarrow> bool" where
  "is_space c = (c = CHR '' '' \<or> c = CHR 0x0A \<or> c = CHR 0x0D \<or> c = CHR 0x09)"

definition digits_value :: "string \<Rightarrow> nat" where
  "digits_value ds = foldl (\<lambda>v c. 10 * v + (of_char c - of_char (CHR ''0''))) 0 ds"

definition trim :: "string \<Rightarrow> string" where
  "trim s = rev (dropWhile is_space (rev (dropWhile is_space s)))"

fun split_commas :: "string \<Rightarrow> string list" where
  "split_commas [] = [[]]"
| "split_commas (c # cs) =
     (if c = CHR '','' then [] # split_commas cs
      else (case split_commas cs of
              [] \<Rightarrow> [[c]]
            | t # ts \<Rightarrow> (c # t) # ts))"

definition parse_exponent :: "string \<Rightarrow> int option" where
  "parse_exponent s =
     (case s of
        [] \<Rightarrow> Some 0
      | c # r \<Rightarrow>
          (if c = CHR ''e'' \<or> c = CHR ''E'' then
             (let (neg, ds) = (case r of
                                 [] \<Rightarrow> (False, [])
                               | d # r' \<Rightarrow>
                                   (if d = CHR ''-'' then (True, r')
                                    else if d = CHR ''+'' then (False, r')
                                    else (False, r)))
              in if ds \<noteq> [] \<and> list_all is_digit ds
                 then Some (if neg then - int (digits_value ds) else int (digits_value ds))
                 else None)
           else None))"

definition parse_number :: "string \<Rightarrow> real option" where
  "parse_number s =
     (let (neg, s1) = (case s of
                         [] \<Rightarrow> (False, [])
                       | c # r \<Rightarrow> (if c = CHR ''-'' then (True, r) else (False, s)));
          ip = takeWhile is_digit s1;
          s2 = dropWhile is_digit s1;
          (fp, s3) = (case s2 of
                        [] \<Rightarrow> (None, [])
                      | c # r \<Rightarrow>
                          (if c = CHR ''.''
                           then (Some (takeWhile is_digit r), dropWhile is_digit r)
                           else (None, s2)))
      in if ip = [] \<or> (1 < length ip \<and> hd ip = CHR ''0'') \<or> fp = Some [] then None
         else (case parse_exponent s3 of
                 None \<Rightarrow> None
               | Some ex \<Rightarrow>
                   Some ((if neg then - 1 else 1) *
                         (real (digits_value ip) +
                          (case fp of
                             None \<Rightarrow> 0
                           | Some f \<Rightarrow> real (digits_value f) / 10 ^ length f)) *
                         (if 0 \<le> ex then 10 ^ nat ex else 1 / 10 ^ nat (- ex)))))"

definition decode_number_array :: "string \<Rightarrow> real list option" where
  "decode_number_array s =
     (case trim s of
        [] \<Rightarrow> None
      | c # r \<Rightarrow>
          (if c = CHR ''['' \<and> r \<noteq> [] \<and> last r = CHR '']'' then
             (if trim (butlast r) = [] then Some []
              else those (map (\<lambda>t. parse_number (trim t)) (split_commas (butlast r))))
           else None))"

text \<open>
  A stand-in for the libraries, small enough to run: projections, convolution,
  normalization and dropout leave a tensor as it is, the random tensors are zero, the
  negative sample is the lower bound, the optimizer has no state, every vector prints as
  \<open>[1.0]\<close>, a decoded value and an array are the list of the numbers, an index is the
  list of its vectors, and a search answers the first \<open>k\<close> positions, padded with -1 as
  faiss pads.
\<close>

definition demo_lib :: "(unit, unit, matrix, real list) lib" where
  "demo_lib = \<lparr>
     input_proj = (\<lambda>w nt x. x),
     gcn_conv = (\<lambda>w i x ei. x),
     layer_norm = (\<lambda>w i x. x),
     dropout = (\<lambda>pos p x. x),
     randn = (\<lambda>pos n d. replicate n (replicate d 0)),
     randint = (\<lambda>pos low high. low),
     init_params = (\<lambda>pos h. ()),
     adam = (\<lambda>w. ()),
     optimizer_step = (\<lambda>opt w data pos idx. ((), ())),
     json_dumps = (\<lambda>v. ''[1.0]''),
     json_loads = (\<lambda>s. case decode_number_array s of
                          None \<Rightarrow> Inl JSONDecodeError
                        | Some xs \<Rightarrow> Inr xs),
     np_array = (\<lambda>v. Inr v),
     query_vector = (\<lambda>v. Inr v),
     index_flat_ip = (\<lambda>m. Inr m),
     faiss_search = (\<lambda>ix q k.
        Inr (map int [0..<min (nat k) (length ix)] @
             replicate (nat k - length ix) (- 1)))\<rparr>"

text \<open>A store with one user who has watched the one video, and a process that has not
  trained and finds no files.\<close>

definition small_store :: store where
  "small_store = empty_store\<lparr>
     g_users := [(new_user ''u1'')\<lparr>username := Some ''ann''\<rparr>],
     g_videos := [(new_video ''v1'')\<lparr>categories := Some [''c1'']\<rparr>],
     g_categories := [new_category ''c1''],
     g_watches := [\<lparr>w_src = ''u1'', w_dst = ''v1'', w_watch_time = 1, w_timestamp = ''t''\<rparr>]\<rparr>"

definition fresh_world :: "(unit, matrix) world" where
  "fresh_world = \<lparr>w_engine = blank_engine, w_store = small_store, w_disk = no_files,
     w_rng = 0\<rparr>"


text \<open>What \<open>load_graph_from_neo4j\<close> makes of that store with the stand-in
  library, and the store once every mapped node carries its embedding.\<close>

definition small_data :: hetero_data where
  "small_data = \<lparr>hd_x = (\<lambda>nt. Some (replicate (length (get_all_nodes small_store nt)) (replicate 64 0))),
     hd_num_nodes = (\<lambda>nt. Some (length (get_all_nodes small_store nt))),
     hd_edge_index = [((User, ''watches'', Video), [(0, 0)])],
     hd_edge_attr = [((User, ''watches'', Video), [1])]\<rparr>"

definition small_engine :: "(unit, matrix) engine" where
  "small_engine = blank_engine\<lparr>
        e_node_mappings := (\<lambda>nt. Some (enumerate_ids (get_all_nodes small_store nt))),
        e_reverse_mappings := (\<lambda>nt. Some (reverse_of (enumerate_ids (get_all_nodes small_store nt)))),
        e_data := Some small_data\<rparr>"

definition small_store_embedded :: "time \<Rightarrow> store" where
  "small_store_embedded t = small_store\<lparr>
     g_users := [(new_user ''u1'')\<lparr>username := Some ''ann'', user_embedding := Some ''[1.0]'',
                   user_embedding_updated := Some t\<rparr>],
     g_videos := [(new_video ''v1'')\<lparr>categories := Some [''c1''],
                   video_embedding := Some ''[1.0]'', video_embedding_updated := Some t\<rparr>],
     g_categories := [(new_category ''c1'')\<lparr>category_embedding := Some ''[1.0]'',
                   category_embedding_updated := Some t\<rparr>]\<rparr>"

text \<open>A snapshot that maps no user: the watch of the store is skipped.\<close>

definition stale_engine :: "(unit, matrix) engine" where
  "stale_engine = blank_engine\<lparr>e_node_mappings := (\<lambda>nt. Some []), e_data := Some small_data\<rparr>"

definition demo_trainer :: "(unit, unit) trainer" where
  "demo_trainer = \<lparr>tr_model = \<lparr>gnn_hidden_dim = 128, gnn_num_layers = 3, gnn_params = (),
     gnn_training = True\<rparr>, tr_opt = (), tr_pos = 0\<rparr>"

text \<open>Processes whose index is loaded. In \<open>cold_world\<close> the user has no embedding and
  has watched the one video. In \<open>warm_world\<close> the user has an embedding and has watched
  the first of two indexed videos. In \<open>malformed_world\<close> the user's embedding is not
  JSON.\<close>

definition cold_world :: "(unit, matrix) world" where
  "cold_world = \<lparr>w_engine = blank_engine\<lparr>e_faiss_index := Some [[1]], e_video_ids := [''v1'']\<rparr>,
     w_store = small_store, w_disk = no_files, w_rng = 0\<rparr>"

definition two_video_store :: "string \<Rightarrow> store" where
  "two_video_store emb = empty_store\<lparr>
     g_users := [(new_user ''u1'')\<lparr>user_embedding := Some emb\<rparr>],
     g_videos := [(new_video ''v1'')\<lparr>video_embedding := Some ''[1.0]''\<rparr>,
                  (new_video ''v2'')\<lparr>video_embedding := Some ''[1.0]''\<rparr>],
     g_watches := [\<lparr>w_src = ''u1'', w_dst = ''v1'', w_watch_time = 1, w_timestamp = ''t''\<rparr>]\<rparr>"

definition indexed_world :: "string \<Rightarrow> (unit, matrix) world" where
  "indexed_world emb = \<lparr>w_engine = blank_engine\<lparr>e_faiss_index := Some [[1], [1]],
       e_video_ids := [''v1'', ''v2'']\<rparr>,
     w_store = two_video_store emb, w_disk = no_files, w_rng = 0\<rparr>"

definition warm_world :: "(unit, matrix) world" where
  "warm_world = indexed_world ''[1.0]''"


text \<open>One user and one video, a user-user relation, a user-video relation and a
  video-video relation, and a model in training mode.\<close>

definition demo_model :: "unit hetero_gnn" where
  "demo_model = \<lparr>gnn_hidden_dim = 1, gnn_num_layers = 3, gnn_params = (), gnn_training = True\<rparr>"

definition demo_x :: "node_type \<rightharpoonup> matrix" where
  "demo_x = [User \<mapsto> [[1]], Video \<mapsto> [[2]]]"

definition demo_edges :: "(edge_type \<times> edge_index) list" where
  "demo_edges = [((User, ''follows'', User), [(0, 0)]),
                 ((User, ''watches'', Video), [(0, 0)]),
                 ((Video, ''similar_to'', Video), [(0, 0)])]"

section \<open>One sync run, property by property\<close>

text \<open>
  Every write of the sync operations is a \<open>MERGE\<close> on a key followed, or not, by a
  \<open>SET\<close>. \<open>upsert key rk mk st r\<close> is that write for the row \<open>r\<close>: the nodes or
  relationships whose key is \<open>rk r\<close> are updated by \<open>st r\<close>, and \<open>mk r\<close> is created
  when there is none.
\<close>

definition upsert :: "('a \<Rightarrow> 'k) \<Rightarrow> ('r \<Rightarrow> 'k) \<Rightarrow> ('r \<Rightarrow> 'a) \<Rightarrow> ('r \<Rightarrow> 'a \<Rightarrow> 'a) \<Rightarrow> 'r \<Rightarrow> 'a list \<Rightarrow> 'a list" where
  "upsert key rk mk st r xs = merge_on (\<lambda>x. key x = rk r) (mk r) (st r) xs"




subsection \<open>The writes of the node syncs\<close>













subsection \<open>The writes of the relationship syncs\<close>

















subsection \<open>What a run may change\<close>












section \<open>Lemmas on MERGE\<close>

lemma overlap_size_card:
  "distinct cs1 \<Longrightarrow> overlap_size cs1 cs2 = card (set cs1 \<inter> set cs2)"
proof -
  assume d: "distinct cs1"
  have "set (filter (\<lambda>c. c \<in> set cs2) cs1) = set cs1 \<inter> set cs2" by auto
  moreover have "distinct (filter (\<lambda>c. c \<in> set cs2) cs1)" using d by simp
  ultimately show ?thesis
    unfolding overlap_size_def by (metis distinct_card)
qed

lemma union_size_card:
  "distinct cs1 \<Longrightarrow> distinct cs2 \<Longrightarrow> union_size cs1 cs2 = card (set cs1 \<union> set cs2)"
proof -
  assume d: "distinct cs1" "distinct cs2"
  let ?l = "cs1 @ filter (\<lambda>c. c \<notin> set cs1) cs2"
  have "set ?l = set cs1 \<union> set cs2" by auto
  moreover have "distinct ?l" using d by auto
  ultimately show ?thesis
    unfolding union_size_def by (metis distinct_card)
qed

lemma cat_sim_jaccard:
  "distinct cs1 \<Longrightarrow> distinct cs2 \<Longrightarrow> cat_sim cs1 cs2 = jaccard (set cs1) (set cs2)"
  by (simp add: cat_sim_def jaccard_def overlap_size_card union_size_card)

lemma passes_threshold_jaccard:
  "distinct cs1 \<Longrightarrow> distinct cs2 \<Longrightarrow>
   passes_threshold cs1 cs2 =
     (set cs1 \<union> set cs2 \<noteq> {} \<and> jaccard (set cs1) (set cs2) \<ge> 0.3)"
  by (auto simp: passes_threshold_def cat_sim_jaccard union_size_card)

lemma pair_row_iff:
  "(a, b, s) \<in> set (pair_row v1 v2) \<longleftrightarrow>
     (\<exists>cs1 cs2. video_id v1 = a \<and> video_id v2 = b \<and> categories v1 = Some cs1 \<and>
        categories v2 = Some cs2 \<and> a < b \<and> passes_threshold cs1 cs2 \<and>
        s = cat_sim cs1 cs2)"
  by (cases "categories v1"; cases "categories v2") (auto simp: pair_row_def)

lemma similarity_rows_iff:
  "(a, b, s) \<in> set (similarity_rows g) \<longleftrightarrow>
     (\<exists>v1 \<in> set (g_videos g). \<exists>v2 \<in> set (g_videos g). \<exists>cs1 cs2.
        video_id v1 = a \<and> video_id v2 = b \<and> categories v1 = Some cs1 \<and>
        categories v2 = Some cs2 \<and> a < b \<and> passes_threshold cs1 cs2 \<and>
        s = cat_sim cs1 cs2)"
proof -
  have "(a, b, s) \<in> set (similarity_rows g) \<longleftrightarrow>
        (\<exists>v1 \<in> set (g_videos g). \<exists>v2 \<in> set (g_videos g). (a, b, s) \<in> set (pair_row v1 v2))"
    by (auto simp: similarity_rows_def)
  then show ?thesis by (simp add: pair_row_iff)
qed

lemma merge_on_hit: "list_ex p xs \<Longrightarrow> merge_on p c f xs = map (\<lambda>x. if p x then f x else x) xs"
  by (simp add: merge_on_def)

lemma merge_on_miss: "\<not> list_ex p xs \<Longrightarrow> merge_on p c f xs = xs @ [c]"
  by (simp add: merge_on_def)

lemma list_ex_merge_on:
  assumes inv: "\<And>x. q (f x) = q x"
  shows "list_ex q (merge_on p c f xs) =
           (if list_ex p xs then list_ex q xs else list_ex q xs \<or> q c)"
proof -
  have "list_ex q (map (\<lambda>x. if p x then f x else x) xs) = list_ex q xs"
    by (induction xs) (simp_all add: inv)
  then show ?thesis
    by (simp add: merge_on_def)
qed

lemma joins_sym: "joins r a b = joins r b a"
  by (auto simp: joins_def)

lemma joins_same_pair:
  "joins r a b \<Longrightarrow> joins r c d \<longleftrightarrow> (c = a \<and> d = b) \<or> (c = b \<and> d = a)"
  by (auto simp: joins_def)

lemma linked_merge_similar:
  "list_ex (\<lambda>r. joins r c d) (merge_similar now (a, b, s) es) \<longleftrightarrow>
     list_ex (\<lambda>r. joins r c d) es \<or> (c = a \<and> d = b) \<or> (c = b \<and> d = a)"
proof -
  let ?p = "\<lambda>r. joins r a b"
  let ?c = "\<lparr>s_src = a, s_dst = b, s_similarity = s, s_updated_at = now\<rparr>"
  let ?f = "\<lambda>r. r\<lparr>s_similarity := s, s_updated_at := now\<rparr>"
  have m: "merge_similar now (a, b, s) es = merge_on ?p ?c ?f es"
    by (simp add: merge_similar_def)
  have inv: "\<And>x. joins (?f x) c d = joins x c d"
    by (simp add: joins_def)
  have c: "joins ?c c d \<longleftrightarrow> (c = a \<and> d = b) \<or> (c = b \<and> d = a)"
    by (auto simp: joins_def)
  show ?thesis
  proof (cases "list_ex ?p es")
    case True
    then obtain r where r: "r \<in> set es" "joins r a b"
      by (auto simp: list_ex_iff)
    have "(c = a \<and> d = b) \<or> (c = b \<and> d = a) \<Longrightarrow> list_ex (\<lambda>r. joins r c d) es"
      using r joins_same_pair[OF r(2), of c d] by (auto simp: list_ex_iff)
    then show ?thesis
      unfolding m using True by (auto simp: list_ex_merge_on[of "\<lambda>r. joins r c d" ?f, OF inv])
  next
    case False
    then show ?thesis
      unfolding m by (simp add: list_ex_merge_on[of "\<lambda>r. joins r c d" ?f, OF inv] c)
  qed
qed

lemma linked_fold_merge_similar:
  "list_ex (\<lambda>r. joins r c d) (fold (merge_similar now) rows es) \<longleftrightarrow>
     list_ex (\<lambda>r. joins r c d) es \<or> (\<exists>s. (c, d, s) \<in> set rows \<or> (d, c, s) \<in> set rows)"
proof (induction rows arbitrary: es)
  case Nil
  then show ?case by simp
next
  case (Cons row rows)
  obtain a b s where row: "row = (a, b, s)" by (cases row) auto
  have "list_ex (\<lambda>r. joins r c d) (fold (merge_similar now) (row # rows) es) \<longleftrightarrow>
        (list_ex (\<lambda>r. joins r c d) es \<or> (c = a \<and> d = b) \<or> (c = b \<and> d = a)) \<or>
        (\<exists>s. (c, d, s) \<in> set rows \<or> (d, c, s) \<in> set rows)"
    by (simp add: row Cons.IH linked_merge_similar)
  also have "\<dots> \<longleftrightarrow> list_ex (\<lambda>r. joins r c d) es \<or>
        (\<exists>s. (c, d, s) \<in> set (row # rows) \<or> (d, c, s) \<in> set (row # rows))"
    unfolding row by auto
  finally show ?case .
qed


lemma list_all_merge_on:
  assumes "\<And>x. P x \<Longrightarrow> P (f x)" and "P c" and "\<forall>x\<in>set xs. P x"
  shows "\<forall>x\<in>set (merge_on p c f xs). P x"
  using assms by (auto simp: merge_on_def)

lemma distinct_merge_on:
  assumes key: "\<And>x. key (f x) = key x"
    and hit: "\<And>x. x \<in> set xs \<Longrightarrow> key x = key c \<Longrightarrow> p x"
    and d: "distinct (map key xs)"
  shows "distinct (map key (merge_on p c f xs))"
proof (cases "list_ex p xs")
  case True
  have eq: "map (key \<circ> (\<lambda>x. if p x then f x else x)) xs = map key xs"
    by (induction xs) (simp_all add: key)
  show ?thesis using True d by (simp add: merge_on_def eq)
next
  case False
  have "key c \<notin> set (map key xs)"
  proof
    assume "key c \<in> set (map key xs)"
    then obtain x where x: "x \<in> set xs" "key x = key c" by auto
    then have "p x" by (rule hit)
    with x(1) False show False by (auto simp: list_ex_iff)
  qed
  then show ?thesis using False d by (simp add: merge_on_def)
qed

lemma find_map_hit:
  assumes "\<And>x. p x \<Longrightarrow> p (f x)"
  shows "find p (map (\<lambda>x. if p x then f x else x) xs) = map_option f (find p xs)"
  by (induction xs) (simp_all add: assms)

lemma find_append_miss: "find p xs = None \<Longrightarrow> find p (xs @ ys) = find p ys"
  by (induction xs) (simp_all split: if_splits)

lemma find_append_hit: "find p xs = Some x \<Longrightarrow> find p (xs @ ys) = Some x"
  by (induction xs) (simp_all split: if_splits)

lemma find_None_list_ex: "find p xs = None \<longleftrightarrow> \<not> list_ex p xs"
  by (induction xs) simp_all

lemma find_merge_on_same:
  assumes "\<And>x. p x \<Longrightarrow> p (f x)" and "p c"
  shows "find p (merge_on p c f xs) = Some (case find p xs of None \<Rightarrow> c | Some x \<Rightarrow> f x)"
proof (cases "list_ex p xs")
  case True
  then obtain x where "find p xs = Some x"
    using find_None_list_ex[of p xs] by (cases "find p xs") auto
  then show ?thesis
    using True by (simp add: merge_on_def find_map_hit[of p f, OF assms(1)])
next
  case False
  then have "find p xs = None" by (simp add: find_None_list_ex)
  then show ?thesis
    using False assms(2) by (simp add: merge_on_def find_append_miss)
qed

lemma find_map_other:
  assumes "\<And>x. q (f x) = q x" and "\<And>x. q x \<Longrightarrow> \<not> p x"
  shows "find q (map (\<lambda>x. if p x then f x else x) xs) = find q xs"
  by (induction xs) (auto simp: assms)

lemma find_merge_on_other:
  assumes "\<And>x. q (f x) = q x" and "\<And>x. q x \<Longrightarrow> \<not> p x" and "\<not> q c"
  shows "find q (merge_on p c f xs) = find q xs"
proof (cases "list_ex p xs")
  case True
  then show ?thesis
    by (simp add: merge_on_def find_map_other[of q f p, OF assms(1,2)])
next
  case False
  show ?thesis
  proof (cases "find q xs")
    case None
    then show ?thesis using False assms(3) by (simp add: merge_on_def find_append_miss)
  next
    case (Some x)
    then show ?thesis using False by (simp add: merge_on_def find_append_hit)
  qed
qed

lemma merge_similar_eq:
  "merge_similar now (a, b, s) es =
     merge_on (\<lambda>r. joins r a b) \<lparr>s_src = a, s_dst = b, s_similarity = s, s_updated_at = now\<rparr>
       (\<lambda>r. r\<lparr>s_similarity := s, s_updated_at := now\<rparr>) es"
  by (simp add: merge_similar_def)

lemma sim_merge_similar_same:
  "map_option s_similarity (find (\<lambda>r. joins r a b) (merge_similar now (a, b, s) es)) = Some s"
proof -
  have 1: "\<And>x. joins x a b \<Longrightarrow> joins (x\<lparr>s_similarity := s, s_updated_at := now\<rparr>) a b"
    by (simp add: joins_def)
  have 2: "joins \<lparr>s_src = a, s_dst = b, s_similarity = s, s_updated_at = now\<rparr> a b"
    by (simp add: joins_def)
  show ?thesis
    unfolding merge_similar_eq
    by (simp add: find_merge_on_same[of "\<lambda>r. joins r a b", OF 1 2] split: option.splits)
qed

lemma sim_merge_similar_same':
  "map_option s_similarity (find (\<lambda>r. joins r b a) (merge_similar now (a, b, s) es)) = Some s"
  using sim_merge_similar_same[of a b now s es] by (simp add: joins_sym[of _ b a])

lemma sim_merge_similar_other:
  assumes "\<not> ((c = a \<and> d = b) \<or> (c = b \<and> d = a))"
  shows "find (\<lambda>r. joins r c d) (merge_similar now (a, b, s) es) = find (\<lambda>r. joins r c d) es"
proof -
  have 1: "\<And>x. joins (x\<lparr>s_similarity := s, s_updated_at := now\<rparr>) c d = joins x c d"
    by (simp add: joins_def)
  have 2: "\<And>x. joins x c d \<Longrightarrow> \<not> joins x a b"
    using assms by (auto simp: joins_def)
  have 3: "\<not> joins \<lparr>s_src = a, s_dst = b, s_similarity = s, s_updated_at = now\<rparr> c d"
    using assms by (auto simp: joins_def)
  show ?thesis
    unfolding merge_similar_eq
    by (rule find_merge_on_other[of "\<lambda>r. joins r c d", OF 1 2 3])
qed

lemma sim_fold_merge_similar:
  assumes "(a, b, s) \<in> set rows"
    and "\<And>s'. (a, b, s') \<in> set rows \<or> (b, a, s') \<in> set rows \<Longrightarrow> s' = s"
  shows "map_option s_similarity
           (find (\<lambda>r. joins r a b) (fold (merge_similar now) rows es)) = Some s"
  using assms
proof (induction rows rule: rev_induct)
  case Nil
  then show ?case by simp
next
  case (snoc row rows)
  obtain c d s' where row: "row = (c, d, s')" by (cases row) auto
  show ?case
  proof (cases "(a = c \<and> b = d) \<or> (a = d \<and> b = c)")
    case True
    then have "s' = s" using snoc.prems(2)[of s'] row by auto
    then show ?thesis
      using True row sim_merge_similar_same sim_merge_similar_same' by auto
  next
    case False
    then have "(a, b, s) \<in> set rows" using snoc.prems(1) row by auto
    moreover have "\<And>s'. (a, b, s') \<in> set rows \<or> (b, a, s') \<in> set rows \<Longrightarrow> s' = s"
      using snoc.prems(2) by auto
    ultimately have "map_option s_similarity
           (find (\<lambda>r. joins r a b) (fold (merge_similar now) rows es)) = Some s"
      by (rule snoc.IH)
    then show ?thesis
      using False row sim_merge_similar_other[of a c b d] by simp
  qed
qed

lemma find_distinct_key:
  "distinct (map key xs) \<Longrightarrow> x \<in> set xs \<Longrightarrow> find (\<lambda>n. key n = key x) xs = Some x"
  by (induction xs) (auto simp: rev_image_eqI)

lemma node_categories_of:
  assumes "distinct (map video_id (g_videos g))" and "v \<in> set (g_videos g)"
    and "categories v = Some cs"
  shows "node_categories g (video_id v) = cs"
  using find_distinct_key[of video_id "g_videos g" v, OF assms(1,2)] assms(3)
  by (simp add: node_categories_def)

lemma similar_pair_iff:
  "similar_pair g a b \<longleftrightarrow>
     (\<exists>v1 \<in> set (g_videos g). \<exists>v2 \<in> set (g_videos g). \<exists>cs1 cs2.
        video_id v1 = a \<and> video_id v2 = b \<and> categories v1 = Some cs1 \<and>
        categories v2 = Some cs2 \<and> a < b \<and> set cs1 \<union> set cs2 \<noteq> {} \<and>
        jaccard (set cs1) (set cs2) \<ge> 0.3)"
proof -
  have "\<And>v1 v2. (case (categories v1, categories v2) of
           (Some cs1, Some cs2) \<Rightarrow>
              set cs1 \<union> set cs2 \<noteq> {} \<and> jaccard (set cs1) (set cs2) \<ge> 0.3
         | _ \<Rightarrow> False) \<longleftrightarrow>
        (\<exists>cs1 cs2. categories v1 = Some cs1 \<and> categories v2 = Some cs2 \<and>
           set cs1 \<union> set cs2 \<noteq> {} \<and> jaccard (set cs1) (set cs2) \<ge> 0.3)"
    by (simp split: option.splits)
  then show ?thesis
    unfolding similar_pair_def list_ex_iff by blast
qed

lemma rows_of_similar_pair:
  assumes ids: "distinct (map video_id (g_videos g))"
    and cats: "\<forall>v\<in>set (g_videos g). \<forall>cs. categories v = Some cs \<longrightarrow> distinct cs"
  shows "(a, b, s) \<in> set (similarity_rows g) \<longleftrightarrow>
           similar_pair g a b \<and> s = pair_similarity g a b"
proof
  assume "(a, b, s) \<in> set (similarity_rows g)"
  then obtain v1 v2 cs1 cs2 where h: "v1 \<in> set (g_videos g)" "v2 \<in> set (g_videos g)"
    "video_id v1 = a" "video_id v2 = b" "categories v1 = Some cs1" "categories v2 = Some cs2"
    "a < b" "passes_threshold cs1 cs2" "s = cat_sim cs1 cs2"
    unfolding similarity_rows_iff by blast
  have d: "distinct cs1" "distinct cs2" using cats h by auto
  have n: "node_categories g a = cs1" "node_categories g b = cs2"
    using node_categories_of[OF ids] h by auto
  have "similar_pair g a b"
    unfolding similar_pair_iff using h passes_threshold_jaccard[OF d] by blast
  moreover have "s = pair_similarity g a b"
    by (simp add: pair_similarity_def n h(9) cat_sim_jaccard[OF d])
  ultimately show "similar_pair g a b \<and> s = pair_similarity g a b" ..
next
  assume r: "similar_pair g a b \<and> s = pair_similarity g a b"
  then obtain v1 v2 cs1 cs2 where h: "v1 \<in> set (g_videos g)" "v2 \<in> set (g_videos g)"
    "video_id v1 = a" "video_id v2 = b" "categories v1 = Some cs1" "categories v2 = Some cs2"
    "a < b" "set cs1 \<union> set cs2 \<noteq> {}" "jaccard (set cs1) (set cs2) \<ge> 0.3"
    unfolding similar_pair_iff by blast
  have d: "distinct cs1" "distinct cs2" using cats h by auto
  have n: "node_categories g a = cs1" "node_categories g b = cs2"
    using node_categories_of[OF ids] h by auto
  have "passes_threshold cs1 cs2"
    using h passes_threshold_jaccard[OF d] by simp
  moreover have "s = cat_sim cs1 cs2"
    using r by (simp add: pair_similarity_def n cat_sim_jaccard[OF d])
  ultimately show "(a, b, s) \<in> set (similarity_rows g)"
    unfolding similarity_rows_iff using h by blast
qed

lemma similar_pair_less: "similar_pair g a b \<Longrightarrow> a < b"
  unfolding similar_pair_iff by blast

lemma oriented_fold_merge_similar:
  assumes "\<forall>r\<in>set es. s_src r < s_dst r" and "\<forall>(a, b, s)\<in>set rows. a < b"
  shows "\<forall>r\<in>set (fold (merge_similar now) rows es). s_src r < s_dst r"
  using assms
proof (induction rows arbitrary: es)
  case Nil
  then show ?case by simp
next
  case (Cons row rows)
  obtain a b s where row: "row = (a, b, s)" by (cases row) auto
  have ab: "a < b" using Cons.prems(2) row by simp
  have "\<forall>r\<in>set (merge_similar now (a, b, s) es). s_src r < s_dst r"
    unfolding merge_similar_eq
    by (rule list_all_merge_on) (use ab Cons.prems(1) in simp_all)
  then show ?case
    using Cons.IH[of "merge_similar now (a, b, s) es"] Cons.prems(2) row by simp
qed

lemma distinct_fold_merge_similar:
  assumes "distinct (map edge_key es)"
  shows "distinct (map edge_key (fold (merge_similar now) rows es))"
  using assms
proof (induction rows arbitrary: es)
  case Nil
  then show ?case by simp
next
  case (Cons row rows)
  obtain a b s where row: "row = (a, b, s)" by (cases row) auto
  have "distinct (map edge_key (merge_similar now (a, b, s) es))"
    unfolding merge_similar_eq
  proof (rule distinct_merge_on)
    show "\<And>x. edge_key (x\<lparr>s_similarity := s, s_updated_at := now\<rparr>) = edge_key x"
      by (simp add: edge_key_def)
    show "\<And>x. x \<in> set es \<Longrightarrow>
            edge_key x = edge_key \<lparr>s_src = a, s_dst = b, s_similarity = s, s_updated_at = now\<rparr>
            \<Longrightarrow> joins x a b"
      by (simp add: edge_key_def joins_def)
    show "distinct (map edge_key es)" by (rule Cons.prems)
  qed
  then show ?case
    using Cons.IH[of "merge_similar now (a, b, s) es"] row by simp
qed

lemma filter_key_le_one:
  "distinct (map key xs) \<Longrightarrow> length (filter (\<lambda>x. key x = k) xs) \<le> Suc 0"
proof (induction xs)
  case Nil
  then show ?case by simp
next
  case (Cons x xs)
  show ?case
  proof (cases "key x = k")
    case True
    have "\<forall>y\<in>set xs. key y \<noteq> k"
    proof
      fix y assume "y \<in> set xs"
      then have "key y \<in> set (map key xs)" by simp
      moreover have "key x \<notin> set (map key xs)" using Cons.prems by simp
      ultimately show "key y \<noteq> k" using True by metis
    qed
    then have "filter (\<lambda>x. key x = k) xs = []"
      by (simp add: filter_empty_conv)
    then show ?thesis using True by simp
  next
    case False
    then show ?thesis using Cons by simp
  qed
qed

lemma at_most_one_joining:
  assumes o: "\<forall>r\<in>set es. s_src r < s_dst r" and d: "distinct (map edge_key es)"
  shows "length (filter (\<lambda>r. joins r a b) es) \<le> Suc 0"
proof -
  consider "a < b" | "b < a" | "a = b" by (metis linorder_less_linear)
  then show ?thesis
  proof cases
    case 1
    have "filter (\<lambda>r. joins r a b) es = filter (\<lambda>r. edge_key r = (a, b)) es"
      by (rule filter_cong) (use o 1 in \<open>auto simp: joins_def edge_key_def\<close>)
    then show ?thesis using filter_key_le_one[OF d] by simp
  next
    case 2
    have "filter (\<lambda>r. joins r a b) es = filter (\<lambda>r. edge_key r = (b, a)) es"
      by (rule filter_cong) (use o 2 in \<open>auto simp: joins_def edge_key_def\<close>)
    then show ?thesis using filter_key_le_one[OF d] by simp
  next
    case 3
    have "filter (\<lambda>r. joins r a b) es = []"
      using o 3 by (auto simp: filter_empty_conv joins_def)
    then show ?thesis by simp
  qed
qed

text \<open>
  Claim C6. On a store whose video ids are unique, whose category lists are duplicate-free
  and whose \<open>SIMILAR_TO\<close> relationships so far run from the smaller id to the larger,
  one per pair: after \<open>compute_video_similarities\<close> two videos are linked exactly when
  they were linked before or their category-set Jaccard overlap (intersection size over
  union size) is at least 0.30; for such a pair the relationship carries that ratio as
  its similarity; every relationship runs from the smaller id to the larger and no
  unordered pair has more than one. Categories \<open>{x,y}\<close> and \<open>{y,z}\<close> score 1/3 and
  pass; disjoint category lists never pass.
\<close>

theorem compute_video_similarities_jaccard:
  assumes ids: "distinct (map video_id (g_videos g))"
    and cats: "\<forall>v\<in>set (g_videos g). \<forall>cs. categories v = Some cs \<longrightarrow> distinct cs"
    and orient: "\<forall>r\<in>set (g_similar_to g). s_src r < s_dst r"
    and uniq: "distinct (map edge_key (g_similar_to g))"
  shows "(\<forall>a b. linked (compute_video_similarities now g) a b \<longleftrightarrow>
            linked g a b \<or> similar_pair g a b \<or> similar_pair g b a) \<and>
         (\<forall>a b. similar_pair g a b \<longrightarrow>
            similarity_between (compute_video_similarities now g) a b
              = Some (pair_similarity g a b)) \<and>
         (\<forall>r\<in>set (g_similar_to (compute_video_similarities now g)). s_src r < s_dst r) \<and>
         (\<forall>a b. length (filter (\<lambda>r. joins r a b)
                    (g_similar_to (compute_video_similarities now g))) \<le> 1) \<and>
         (\<forall>x y z. x \<noteq> y \<and> y \<noteq> z \<and> x \<noteq> z \<longrightarrow>
            cat_sim [x, y] [y, z] = 1 / 3 \<and> passes_threshold [x, y] [y, z]) \<and>
         (\<forall>cs1 cs2. set cs1 \<inter> set cs2 = {} \<longrightarrow> \<not> passes_threshold cs1 cs2)"
proof -
  let ?es = "g_similar_to g"
  let ?rows = "similarity_rows g"
  have es': "g_similar_to (compute_video_similarities now g) = fold (merge_similar now) ?rows ?es"
    by (simp add: compute_video_similarities_def)
  note rows = rows_of_similar_pair[OF ids cats]
  have 1: "\<forall>a b. linked (compute_video_similarities now g) a b \<longleftrightarrow>
            linked g a b \<or> similar_pair g a b \<or> similar_pair g b a"
    unfolding linked_def es' linked_fold_merge_similar rows by blast
  have 2: "\<forall>a b. similar_pair g a b \<longrightarrow>
            similarity_between (compute_video_similarities now g) a b
              = Some (pair_similarity g a b)"
  proof (intro allI impI)
    fix a b assume sp: "similar_pair g a b"
    then have ab: "a < b" by (rule similar_pair_less)
    have in_rows: "(a, b, pair_similarity g a b) \<in> set ?rows"
      using sp rows by simp
    have same: "\<And>s'. (a, b, s') \<in> set ?rows \<or> (b, a, s') \<in> set ?rows
                  \<Longrightarrow> s' = pair_similarity g a b"
    proof -
      fix s' assume "(a, b, s') \<in> set ?rows \<or> (b, a, s') \<in> set ?rows"
      then show "s' = pair_similarity g a b"
      proof
        assume "(a, b, s') \<in> set ?rows"
        then show ?thesis using rows by simp
      next
        assume "(b, a, s') \<in> set ?rows"
        then have "b < a" using rows similar_pair_less by blast
        with ab show ?thesis by simp
      qed
    qed
    show "similarity_between (compute_video_similarities now g) a b
              = Some (pair_similarity g a b)"
      unfolding similarity_between_def es'
      by (rule sim_fold_merge_similar[OF in_rows same])
  qed
  have rows_lt: "\<forall>(a, b, s)\<in>set ?rows. a < b"
    using rows similar_pair_less by blast
  have 3: "\<forall>r\<in>set (g_similar_to (compute_video_similarities now g)). s_src r < s_dst r"
    unfolding es' by (rule oriented_fold_merge_similar[OF orient rows_lt])
  have d: "distinct (map edge_key (g_similar_to (compute_video_similarities now g)))"
    unfolding es' by (rule distinct_fold_merge_similar[OF uniq])
  have 4: "\<forall>a b. length (filter (\<lambda>r. joins r a b)
                    (g_similar_to (compute_video_similarities now g))) \<le> 1"
    using at_most_one_joining[OF 3 d] by simp
  have 5: "\<forall>x y z. x \<noteq> y \<and> y \<noteq> z \<and> x \<noteq> z \<longrightarrow>
            cat_sim [x, y] [y, z] = 1 / 3 \<and> passes_threshold [x, y] [y, z]"
    by (simp add: cat_sim_def passes_threshold_def overlap_size_def union_size_def)
  have 6: "\<forall>cs1 cs2. set cs1 \<inter> set cs2 = {} \<longrightarrow> \<not> passes_threshold cs1 cs2"
  proof (intro allI impI)
    fix cs1 cs2 :: "node_id list" assume "set cs1 \<inter> set cs2 = {}"
    then have "filter (\<lambda>c. c \<in> set cs2) cs1 = []"
      by (auto simp: filter_empty_conv)
    then show "\<not> passes_threshold cs1 cs2"
      by (simp add: passes_threshold_def cat_sim_def overlap_size_def)
  qed
  from 1 2 3 4 5 6 show ?thesis by blast
qed

lemma abc_jaccard:
  "jaccard {''x'', ''y''} {''y'', ''z''} = 1 / 3"
  "jaccard {''x'', ''y''} {''p'', ''q''} = 0"
  "jaccard {''y'', ''z''} {''p'', ''q''} = 0"
proof -
  have "jaccard (set [''x'', ''y'']) (set [''y'', ''z'']) = cat_sim [''x'', ''y''] [''y'', ''z'']"
    by (rule cat_sim_jaccard[symmetric]) simp_all
  then show "jaccard {''x'', ''y''} {''y'', ''z''} = 1 / 3"
    by (simp add: cat_sim_def overlap_size_def union_size_def)
  have "jaccard (set [''x'', ''y'']) (set [''p'', ''q'']) = cat_sim [''x'', ''y''] [''p'', ''q'']"
    by (rule cat_sim_jaccard[symmetric]) simp_all
  then show "jaccard {''x'', ''y''} {''p'', ''q''} = 0"
    by (simp add: cat_sim_def overlap_size_def union_size_def)
  have "jaccard (set [''y'', ''z'']) (set [''p'', ''q'']) = cat_sim [''y'', ''z''] [''p'', ''q'']"
    by (rule cat_sim_jaccard[symmetric]) simp_all
  then show "jaccard {''y'', ''z''} {''p'', ''q''} = 0"
    by (simp add: cat_sim_def overlap_size_def union_size_def)
qed

theorem compute_video_similarities_jaccard_witness:
  "distinct (map video_id (g_videos abc_store)) \<and>
   list_all (\<lambda>v. case categories v of None \<Rightarrow> True | Some cs \<Rightarrow> distinct cs)
     (g_videos abc_store) \<and>
   list_all (\<lambda>r. s_src r < s_dst r) (g_similar_to abc_store) \<and>
   distinct (map edge_key (g_similar_to abc_store)) \<and>
   linked (compute_video_similarities 0 abc_store) ''A'' ''B'' \<and>
   similarity_between (compute_video_similarities 0 abc_store) ''A'' ''B'' = Some (1 / 3) \<and>
   \<not> linked (compute_video_similarities 0 abc_store) ''A'' ''C'' \<and>
   \<not> linked (compute_video_similarities 0 abc_store) ''B'' ''C''"
proof -
  have h1: "distinct (map video_id (g_videos abc_store))"
    by (simp add: abc_store_def new_video_def)
  have h2: "\<forall>v\<in>set (g_videos abc_store). \<forall>cs. categories v = Some cs \<longrightarrow> distinct cs"
    by (auto simp: abc_store_def new_video_def)
  have h3: "\<forall>r\<in>set (g_similar_to abc_store). s_src r < s_dst r"
    by (simp add: abc_store_def empty_store_def)
  have h4: "distinct (map edge_key (g_similar_to abc_store))"
    by (simp add: abc_store_def empty_store_def)
  note t = compute_video_similarities_jaccard[OF h1 h2 h3 h4, of 0]
  have l0: "\<And>a b. \<not> linked abc_store a b"
    by (simp add: linked_def abc_store_def empty_store_def)
  have ab: "similar_pair abc_store ''A'' ''B''"
    by (simp add: similar_pair_def abc_store_def empty_store_def new_video_def abc_jaccard)
  have n: "\<not> similar_pair abc_store ''A'' ''C''" "\<not> similar_pair abc_store ''C'' ''A''"
    "\<not> similar_pair abc_store ''B'' ''C''" "\<not> similar_pair abc_store ''C'' ''B''"
    by (simp_all add: similar_pair_def abc_store_def empty_store_def new_video_def abc_jaccard)
  have ps: "pair_similarity abc_store ''A'' ''B'' = 1 / 3"
    by (simp add: pair_similarity_def node_categories_def abc_store_def empty_store_def
        new_video_def abc_jaccard)
  have h2': "list_all (\<lambda>v. case categories v of None \<Rightarrow> True | Some cs \<Rightarrow> distinct cs)
     (g_videos abc_store)"
    by (simp add: abc_store_def new_video_def)
  have h3': "list_all (\<lambda>r. s_src r < s_dst r) (g_similar_to abc_store)"
    by (simp add: abc_store_def empty_store_def)
  from t l0 ab n ps h1 h2' h3' h4 show ?thesis by simp
qed

section \<open>Staleness Detector: properties\<close>

lemma outgrown_equal:
  "length (g_users g) = trained_count e User \<Longrightarrow> length (g_videos g) = trained_count e Video
   \<Longrightarrow> \<not> outgrown e g"
  by (simp add: outgrown_def)

lemma outgrown_users:
  assumes "0 < trained_count e User"
    and "121 * real (trained_count e User) \<le> 100 * real (length (g_users g))"
  shows "outgrown e g"
proof -
  have "real (trained_count e User) * 1.2 < real (length (g_users g))"
    using assms by simp
  then show ?thesis by (simp add: outgrown_def)
qed

text \<open>
  Claim C3. \<open>check_model_needs_training\<close> is true exactly when no model is loaded, or
  the time since the metadata's \<open>last_trained\<close> exceeds seven days, or the current user
  count exceeds 1.2 times the number of mapped users, or the current video count exceeds
  1.2 times the number of mapped videos. With a model loaded, \<open>last_trained\<close> equal to
  now and counts equal to the mapped counts it is false; once the user count has grown by
  21 percent of a positive mapped count it is true.
\<close>

theorem check_model_needs_training_cases:
  "(check_model_needs_training clk e g \<longleftrightarrow>
      e_model e = None \<or>
      (\<exists>t. md_last_trained (e_model_metadata e) = Some (Naive t) \<and>
           datetime_now clk - t > seven_days) \<or>
      (\<exists>t. md_last_trained (e_model_metadata e) = Some (Aware t) \<and>
           timezone_now clk - t > seven_days) \<or>
      real (length (g_users g)) > 1.2 * real (trained_count e User) \<or>
      real (length (g_videos g)) > 1.2 * real (trained_count e Video)) \<and>
   (e_model e \<noteq> None \<and>
    md_last_trained (e_model_metadata e) = Some (Naive (datetime_now clk)) \<and>
    length (g_users g) = trained_count e User \<and>
    length (g_videos g) = trained_count e Video
      \<longrightarrow> \<not> check_model_needs_training clk e g) \<and>
   (0 < trained_count e User \<and>
    121 * real (trained_count e User) \<le> 100 * real (length (g_users g))
      \<longrightarrow> check_model_needs_training clk e g)"
proof (intro conjI impI)
  show "check_model_needs_training clk e g \<longleftrightarrow>
      e_model e = None \<or>
      (\<exists>t. md_last_trained (e_model_metadata e) = Some (Naive t) \<and>
           datetime_now clk - t > seven_days) \<or>
      (\<exists>t. md_last_trained (e_model_metadata e) = Some (Aware t) \<and>
           timezone_now clk - t > seven_days) \<or>
      real (length (g_users g)) > 1.2 * real (trained_count e User) \<or>
      real (length (g_videos g)) > 1.2 * real (trained_count e Video)"
  proof (cases "md_last_trained (e_model_metadata e)")
    case None
    then show ?thesis
      by (auto simp: check_model_needs_training_def outgrown_def mult.commute)
  next
    case (Some d)
    then show ?thesis
      by (cases d) (auto simp: check_model_needs_training_def outgrown_def mult.commute)
  qed
next
  assume a: "e_model e \<noteq> None \<and>
    md_last_trained (e_model_metadata e) = Some (Naive (datetime_now clk)) \<and>
    length (g_users g) = trained_count e User \<and>
    length (g_videos g) = trained_count e Video"
  then have "\<not> outgrown e g" by (simp add: outgrown_equal)
  then show "\<not> check_model_needs_training clk e g"
    using a by (simp add: check_model_needs_training_def seven_days_def)
next
  assume a: "0 < trained_count e User \<and>
    121 * real (trained_count e User) \<le> 100 * real (length (g_users g))"
  then have "outgrown e g" using outgrown_users by blast
  then show "check_model_needs_training clk e g"
    by (auto simp: check_model_needs_training_def split: option.splits py_datetime.splits)
qed

lemma trained_count_demo: "trained_count trained_engine nt = 5"
  by (simp add: trained_count_def trained_engine_def blank_engine_def enumerate_ids_def
      five_ids_def dict_put_def merge_on_def upt_rec)

theorem check_model_needs_training_cases_witness:
  "\<not> check_model_needs_training (clock_at 0) trained_engine (store_of_size 5 5) \<and>
   check_model_needs_training (clock_at 0) trained_engine (store_of_size 7 5) \<and>
   check_model_needs_training (clock_at (seven_days + 1)) trained_engine (store_of_size 5 5)"
proof -
  note t = check_model_needs_training_cases
  have m: "e_model trained_engine \<noteq> None"
    "md_last_trained (e_model_metadata trained_engine) = Some (Naive 0)"
    by (simp_all add: trained_engine_def blank_engine_def empty_metadata_def)
  have l: "length (g_users (store_of_size a b)) = a" "length (g_videos (store_of_size a b)) = b"
    for a b by (simp_all add: store_of_size_def empty_store_def)
  have 1: "\<not> check_model_needs_training (clock_at 0) trained_engine (store_of_size 5 5)"
  proof -
    have "e_model trained_engine \<noteq> None \<and>
      md_last_trained (e_model_metadata trained_engine) = Some (Naive (datetime_now (clock_at 0))) \<and>
      length (g_users (store_of_size 5 5)) = trained_count trained_engine User \<and>
      length (g_videos (store_of_size 5 5)) = trained_count trained_engine Video"
      using m by (simp add: l trained_count_demo clock_at_def)
    with t[of "clock_at 0" trained_engine "store_of_size 5 5"] show ?thesis by blast
  qed
  have 2: "check_model_needs_training (clock_at 0) trained_engine (store_of_size 7 5)"
  proof -
    have "0 < trained_count trained_engine User \<and>
      121 * real (trained_count trained_engine User)
        \<le> 100 * real (length (g_users (store_of_size 7 5)))"
      by (simp add: l trained_count_demo)
    with t[of "clock_at 0" trained_engine "store_of_size 7 5"] show ?thesis by blast
  qed
  have 3: "check_model_needs_training (clock_at (seven_days + 1)) trained_engine (store_of_size 5 5)"
  proof -
    have "md_last_trained (e_model_metadata trained_engine) = Some (Naive 0) \<and>
          datetime_now (clock_at (seven_days + 1)) - 0 > seven_days"
      using m by (simp add: clock_at_def)
    with t[of "clock_at (seven_days + 1)" trained_engine "store_of_size 5 5"]
    show ?thesis by blast
  qed
  from 1 2 3 show ?thesis by simp
qed

section \<open>The training pipeline: what each stage leaves unchanged\<close>

lemma bind_err_Inr: "bind_err r f = Inr b \<longleftrightarrow> (\<exists>a. r = Inr a \<and> f a = Inr b)"
  by (cases r) (simp_all add: bind_err_def)

lemma bind_err_simps [simp]:
  "bind_err (Inl e) f = Inl e" "bind_err (Inr a) f = f a"
  by (simp_all add: bind_err_def)

lemma build_faiss_index_Inr:
  assumes "build_faiss_index L w = Inr w'"
  shows "\<exists>ids ix. w' = w\<lparr>w_engine := (w_engine w)\<lparr>e_video_ids := ids, e_faiss_index := ix\<rparr>\<rparr>"
proof -
  let ?records = "List.map_filter (\<lambda>n. map_option (\<lambda>s. (video_id n, s)) (video_embedding n))
            (g_videos (w_store w))"
  obtain embs where e: "load_embeddings L ?records = Inr embs"
    using assms by (cases "load_embeddings L ?records")
      (simp_all add: build_faiss_index_def)
  let ?w1 = "w\<lparr>w_engine := (w_engine w)\<lparr>e_video_ids := map fst ?records\<rparr>\<rparr>"
  show ?thesis
  proof (cases "embs = []")
    case True
    then have "w' = ?w1" using assms e by (simp add: build_faiss_index_def)
    then have "w' = w\<lparr>w_engine := (w_engine w)\<lparr>e_video_ids := map fst ?records,
                 e_faiss_index := e_faiss_index (w_engine w)\<rparr>\<rparr>"
      by simp
    then show ?thesis by blast
  next
    case False
    then obtain ix where "index_flat_ip L embs = Inr ix"
      and "w' = ?w1\<lparr>w_engine := (w_engine ?w1)\<lparr>e_faiss_index := Some ix\<rparr>\<rparr>"
      using assms e by (auto simp: build_faiss_index_def bind_err_Inr)
    then have "w' = w\<lparr>w_engine := (w_engine w)\<lparr>e_video_ids := map fst ?records,
                 e_faiss_index := Some ix\<rparr>\<rparr>"
      by simp
    then show ?thesis by blast
  qed
qed

lemma build_faiss_index_frame:
  assumes "build_faiss_index L w = Inr w'"
  shows "w_store w' = w_store w" "w_disk w' = w_disk w" "w_rng w' = w_rng w"
    "e_model (w_engine w') = e_model (w_engine w)"
    "e_model_metadata (w_engine w') = e_model_metadata (w_engine w)"
    "e_node_mappings (w_engine w') = e_node_mappings (w_engine w)"
    "e_reverse_mappings (w_engine w') = e_reverse_mappings (w_engine w)"
  using build_faiss_index_Inr[OF assms] by auto

lemma map_key_update:
  assumes "\<And>x. key (f x) = key x"
  shows "map key (map (\<lambda>x. if p x then f x else x) xs) = map key xs"
  by (induction xs) (simp_all add: assms)

lemma set_embedding_frame:
  "g_watches (set_embedding t nt nid s g) = g_watches g"
  "map video_id (g_videos (set_embedding t nt nid s g)) = map video_id (g_videos g)"
  "map user_id (g_users (set_embedding t nt nid s g)) = map user_id (g_users g)"
proof -
  show "g_watches (set_embedding t nt nid s g) = g_watches g"
    by (cases nt) (simp_all add: set_embedding_def)
  have "map user_id (map (\<lambda>n. if user_id n = nid
            then n\<lparr>user_embedding := Some s, user_embedding_updated := Some t\<rparr> else n)
            (g_users g)) = map user_id (g_users g)"
    by (rule map_key_update) simp
  then show "map user_id (g_users (set_embedding t nt nid s g)) = map user_id (g_users g)"
    by (cases nt) (simp_all add: set_embedding_def)
  have "map video_id (map (\<lambda>n. if video_id n = nid
            then n\<lparr>video_embedding := Some s, video_embedding_updated := Some t\<rparr> else n)
            (g_videos g)) = map video_id (g_videos g)"
    by (rule map_key_update) simp
  then show "map video_id (g_videos (set_embedding t nt nid s g)) = map video_id (g_videos g)"
    by (cases nt) (simp_all add: set_embedding_def)
qed

lemma store_embeddings_frame:
  "g_watches (store_embeddings_in_neo4j L t nt d g) = g_watches g"
  "map video_id (g_videos (store_embeddings_in_neo4j L t nt d g)) = map video_id (g_videos g)"
  "map user_id (g_users (store_embeddings_in_neo4j L t nt d g)) = map user_id (g_users g)"
  unfolding store_embeddings_in_neo4j_def
  by (induction d arbitrary: g) (simp_all add: set_embedding_frame split: prod.splits)

lemma store_node_type_frame:
  assumes "store_node_type L t e emb nt g = Inr g'"
  shows "g_watches g' = g_watches g" "map video_id (g_videos g') = map video_id (g_videos g)"
    "map user_id (g_users g') = map user_id (g_users g)"
  using assms
  by (auto simp: store_node_type_def bind_err_Inr store_embeddings_frame
      split: option.splits if_splits)

lemma store_node_types_frame:
  assumes "store_node_types L t e emb nts g = Inr g'"
  shows "g_watches g' = g_watches g \<and> map video_id (g_videos g') = map video_id (g_videos g) \<and>
    map user_id (g_users g') = map user_id (g_users g)"
  using assms
proof (induction nts arbitrary: g)
  case Nil
  then show ?case by simp
next
  case (Cons nt nts)
  then obtain g1 where g1: "store_node_type L t e emb nt g = Inr g1"
    and r: "store_node_types L t e emb nts g1 = Inr g'"
    by (auto simp: bind_err_Inr)
  show ?case
    using Cons.IH[OF r] store_node_type_frame[OF g1] by simp
qed

lemma extract_frame:
  assumes "extract_and_store_embeddings L clk w = Inr w'"
  shows "w_disk w' = w_disk w"
    "e_model_metadata (w_engine w') = e_model_metadata (w_engine w)"
    "e_node_mappings (w_engine w') = e_node_mappings (w_engine w)"
    "e_reverse_mappings (w_engine w') = e_reverse_mappings (w_engine w)"
    "g_watches (w_store w') = g_watches (w_store w)"
    "map video_id (g_videos (w_store w')) = map video_id (g_videos (w_store w))"
    "map user_id (g_users (w_store w')) = map user_id (g_users (w_store w))"
proof -
  obtain m where m: "e_model (w_engine w) = Some m"
    using assms by (cases "e_model (w_engine w)") (simp_all add: extract_and_store_embeddings_def)
  let ?m = "m\<lparr>gnn_training := False\<rparr>"
  let ?e1 = "(w_engine w)\<lparr>e_model := Some ?m\<rparr>"
  obtain data where d: "e_data (w_engine w) = Some data"
    using assms m by (cases "e_data (w_engine w)")
      (simp_all add: extract_and_store_embeddings_def Let_def)
  obtain xd ed emb pos g where f: "forward L ?m xd ed (w_rng w) = Inr (emb, pos)"
    and g: "store_node_types L (neo4j_datetime clk) ?e1 emb all_node_types (w_store w) = Inr g"
    and b: "build_faiss_index L (w\<lparr>w_engine := ?e1, w_store := g, w_rng := pos\<rparr>) = Inr w'"
    using assms m d
    by (auto simp: extract_and_store_embeddings_def Let_def bind_err_Inr)
  note fr = build_faiss_index_frame[OF b]
  note sf = store_node_types_frame[OF g]
  show "w_disk w' = w_disk w" using fr by simp
  show "e_model_metadata (w_engine w') = e_model_metadata (w_engine w)" using fr by simp
  show "e_node_mappings (w_engine w') = e_node_mappings (w_engine w)" using fr by simp
  show "e_reverse_mappings (w_engine w') = e_reverse_mappings (w_engine w)" using fr by simp
  show "g_watches (w_store w') = g_watches (w_store w)" using fr sf by simp
  show "map video_id (g_videos (w_store w')) = map video_id (g_videos (w_store w))"
    using fr sf by simp
  show "map user_id (g_users (w_store w')) = map user_id (g_users (w_store w))"
    using fr sf by simp
qed

lemma load_graph_frame:
  "w_disk (load_graph_from_neo4j L w) = w_disk w"
  "w_store (load_graph_from_neo4j L w) = w_store w"
  "e_model_metadata (w_engine (load_graph_from_neo4j L w)) = e_model_metadata (w_engine w)"
  "e_model (w_engine (load_graph_from_neo4j L w)) = e_model (w_engine w)"
  by (simp_all add: load_graph_from_neo4j_def Let_def)

lemma save_model_frame:
  assumes "save_model clk w = Inr w'"
  shows "w_store w' = w_store w"
    "metadata_file (w_disk w') = metadata_file (w_disk w)"
    "faiss_index_file (w_disk w') = faiss_index_file (w_disk w)"
    "video_ids_file (w_disk w') = video_ids_file (w_disk w)"
    "e_model (w_engine w') = e_model (w_engine w)"
    "e_faiss_index (w_engine w') = e_faiss_index (w_engine w)"
    "e_video_ids (w_engine w') = e_video_ids (w_engine w)"
    "md_total_epochs (e_model_metadata (w_engine w')) =
       Some ((case md_total_epochs (e_model_metadata (w_engine w)) of
                None \<Rightarrow> 0 | Some n \<Rightarrow> n) + 30)"
    "\<exists>m. e_model (w_engine w) = Some m \<and>
         model_file (w_disk w') = Some (gnn_hidden_dim m, gnn_params m)"
  using assms by (auto simp: save_model_def split: option.splits)

lemma save_faiss_index_frame:
  "w_store (save_faiss_index w) = w_store w"
  "w_engine (save_faiss_index w) = w_engine w"
  "metadata_file (w_disk (save_faiss_index w)) = metadata_file (w_disk w)"
  "model_file (w_disk (save_faiss_index w)) = model_file (w_disk w)"
  by (simp_all add: save_faiss_index_def split: option.splits)

lemma train_stages:
  assumes "train_gnn_and_update_embeddings L clk num_epochs hidden_dim w = Inr w'"
  shows "\<exists>w1 m' pos' w2 w3.
      w_disk w1 = w_disk w \<and> w_store w1 = w_store w \<and>
      e_model_metadata (w_engine w1) = e_model_metadata (w_engine w) \<and>
      extract_and_store_embeddings L clk
          (w1\<lparr>w_engine := (w_engine w1)\<lparr>e_model := Some m'\<rparr>,
              w_rng := pos'\<rparr>) = Inr w2 \<and>
      save_model clk w2 = Inr w3 \<and> w' = save_faiss_index w3"
proof (cases "e_data (w_engine w) = None")
  case True
  have "\<exists>m' pos' w2 w3.
      extract_and_store_embeddings L clk
          ((load_graph_from_neo4j L w)\<lparr>w_engine :=
              (w_engine (load_graph_from_neo4j L w))\<lparr>e_model := Some m'\<rparr>,
              w_rng := pos'\<rparr>) = Inr w2 \<and>
      save_model clk w2 = Inr w3 \<and> w' = save_faiss_index w3"
    using assms True
    apply (simp add: train_gnn_and_update_embeddings_def Let_def bind_err_Inr
        split: prod.splits)
    apply blast
    done
  then show ?thesis
    using load_graph_frame(1,2,3)[of L w] by blast
next
  case False
  have "\<exists>m' pos' w2 w3.
      extract_and_store_embeddings L clk
          (w\<lparr>w_engine := (w_engine w)\<lparr>e_model := Some m'\<rparr>,
              w_rng := pos'\<rparr>) = Inr w2 \<and>
      save_model clk w2 = Inr w3 \<and> w' = save_faiss_index w3"
    using assms False
    apply (simp add: train_gnn_and_update_embeddings_def Let_def bind_err_Inr
        split: prod.splits)
    apply blast
    done
  then show ?thesis by blast
qed

lemma train_frame:
  assumes "train_gnn_and_update_embeddings L clk num_epochs hidden_dim w = Inr w'"
  shows "metadata_file (w_disk w') = metadata_file (w_disk w)"
    "md_total_epochs (e_model_metadata (w_engine w')) =
       Some ((case md_total_epochs (e_model_metadata (w_engine w)) of
                None \<Rightarrow> 0 | Some n \<Rightarrow> n) + 30)"
    "g_watches (w_store w') = g_watches (w_store w)"
    "map video_id (g_videos (w_store w')) = map video_id (g_videos (w_store w))"
    "e_model (w_engine w') \<noteq> None"
    "map user_id (g_users (w_store w')) = map user_id (g_users (w_store w))"
proof -
  obtain w1 m' pos' w2 w3 where
    w1: "w_disk w1 = w_disk w" "w_store w1 = w_store w"
      "e_model_metadata (w_engine w1) = e_model_metadata (w_engine w)"
    and x: "extract_and_store_embeddings L clk
          (w1\<lparr>w_engine := (w_engine w1)\<lparr>e_model := Some m'\<rparr>,
              w_rng := pos'\<rparr>) = Inr w2"
    and sm: "save_model clk w2 = Inr w3"
    and w': "w' = save_faiss_index w3"
    using train_stages[OF assms] by blast
  note xf = extract_frame[OF x]
  note sf = save_model_frame[OF sm]
  show "metadata_file (w_disk w') = metadata_file (w_disk w)"
    using w' sf xf w1 by (simp add: save_faiss_index_frame)
  show "md_total_epochs (e_model_metadata (w_engine w')) =
       Some ((case md_total_epochs (e_model_metadata (w_engine w)) of
                None \<Rightarrow> 0 | Some n \<Rightarrow> n) + 30)"
    using w' sf(8) xf(2) w1 by (simp add: save_faiss_index_frame)
  show "g_watches (w_store w') = g_watches (w_store w)"
    using w' sf xf w1 by (simp add: save_faiss_index_frame)
  show "map video_id (g_videos (w_store w')) = map video_id (g_videos (w_store w))"
    using w' sf xf w1 by (simp add: save_faiss_index_frame)
  show "e_model (w_engine w') \<noteq> None"
    using w' sf(5,9) by (auto simp: save_faiss_index_frame)
  show "map user_id (g_users (w_store w')) = map user_id (g_users (w_store w))"
    using w' sf xf w1 by (simp add: save_faiss_index_frame)
qed

lemma enumerate_ids_single: "enumerate_ids [a] = [(a, 0)]" "enumerate_ids [] = []"
  by (simp_all add: enumerate_ids_def dict_put_def merge_on_def)

lemma small_nodes:
  "get_all_nodes small_store User = [''u1'']"
  "get_all_nodes small_store Video = [''v1'']"
  "get_all_nodes small_store Category = [''c1'']"
  "get_all_nodes small_store ParentCategory = []"
  by (simp_all add: get_all_nodes_def small_store_def empty_store_def new_user_def
      new_video_def new_category_def)

lemma small_edges:
  "filter (\<lambda>(et, edge_list). edge_list \<noteq> []) (get_all_edges small_store) =
     [((User, ''watches'', Video), [(''u1'', ''v1'', 1)])]"
  by (simp add: get_all_edges_def small_store_def empty_store_def)

lemma load_small:
  "load_graph_from_neo4j demo_lib fresh_world =
     fresh_world\<lparr>w_engine := blank_engine\<lparr>
        e_node_mappings := (\<lambda>nt. Some (enumerate_ids (get_all_nodes small_store nt))),
        e_reverse_mappings := (\<lambda>nt. Some (reverse_of (enumerate_ids (get_all_nodes small_store nt)))),
        e_data := Some small_data\<rparr>, w_rng := 4\<rparr>"
proof -
  have s: "w_store fresh_world = small_store" "w_engine fresh_world = blank_engine"
    "w_rng fresh_world = 0"
    by (simp_all add: fresh_world_def)
  have ie: "index_edges (enumerate_ids (get_all_nodes small_store User))
              (enumerate_ids (get_all_nodes small_store Video)) [(''u1'', ''v1'', 1)]
            = [((0, 0), 1)]"
    by (simp add: small_nodes enumerate_ids_single index_edges_def List.map_filter_def)
  have r: "randn demo_lib p n d = replicate n (replicate d 0)" for p n d
    by (simp add: demo_lib_def)
  show ?thesis
    unfolding load_graph_from_neo4j_def Let_def s small_edges
    by (simp add: ie r small_data_def)
qed

lemma gnn_branches_cross:
  assumes "\<forall>((s, r, d), ei)\<in>set edges. s \<noteq> d"
  shows "gnn_branches L m i x edges xn pos = Inr (xn, pos)"
  using assms by (induction edges) auto

lemma residual_empty: "residual x Map.empty = x"
  by (rule ext) (simp add: residual_def)

lemma gnn_layer_cross:
  assumes "\<forall>((s, r, d), ei)\<in>set edges. s \<noteq> d"
  shows "gnn_layer L m i edges x pos = Inr (x, pos)"
  by (simp add: gnn_layer_def gnn_branches_cross[OF assms] residual_empty)

lemma gnn_layers_cross:
  assumes "\<forall>((s, r, d), ei)\<in>set edges. s \<noteq> d"
  shows "gnn_layers L m edges i n x pos = Inr (x, pos)"
  by (induction n arbitrary: i) (simp_all add: gnn_layer_cross[OF assms])

lemma forward_cross:
  assumes "\<forall>((s, r, d), ei)\<in>set edges. s \<noteq> d"
  shows "forward L m x edges pos =
           Inr (\<lambda>nt. map_option (input_proj L (gnn_params m) nt) (x nt), pos)"
  by (simp add: forward_def gnn_layers_cross[OF assms])

lemma forward_small:
  "forward demo_lib m (hd_x small_data) (hd_edge_index small_data) pos =
     Inr (hd_x small_data, pos)"
proof -
  have c: "\<forall>((s, r, d), ei)\<in>set (hd_edge_index small_data). s \<noteq> d"
    by (simp add: small_data_def)
  have "(\<lambda>nt. map_option (input_proj demo_lib (gnn_params m) nt) (hd_x small_data nt))
          = hd_x small_data"
    by (rule ext) (simp add: demo_lib_def small_data_def)
  then show ?thesis by (simp add: forward_cross[OF c])
qed

lemma small_dicts:
  "data_x_dict small_data = Inr (hd_x small_data)"
  "data_edge_index_dict small_data = Inr (hd_edge_index small_data)"
  by (simp_all add: data_x_dict_def data_edge_index_dict_def small_data_def)

lemma bpr_step_small:
  "\<exists>loss. bpr_step demo_lib small_data (Suc 0) 0 0 tr =
     Inr (loss, tr\<lparr>tr_model := (tr_model tr)\<lparr>gnn_params := ()\<rparr>, tr_opt := (),
                    tr_pos := tr_pos tr + 1\<rparr>)"
proof -
  have x: "hd_x small_data User = Some [replicate 64 0]" "hd_x small_data Video = Some [replicate 64 0]"
    by (simp_all add: small_data_def small_nodes)
  have ri: "randint demo_lib p lo hi = lo" for p lo hi by (simp add: demo_lib_def)
  have os: "optimizer_step demo_lib opt w d p idx = ((), ())" for opt w d p idx
    by (simp add: demo_lib_def)
  show ?thesis
    unfolding bpr_step_def Let_def small_dicts bind_err_simps forward_small
    by (simp add: x ri os row_def)
qed

lemma train_epoch_small:
  "\<exists>loss. train_epoch demo_lib small_engine small_store tr =
     Inr (loss, tr\<lparr>tr_model := (tr_model tr)\<lparr>gnn_params := ()\<rparr>, tr_opt := (),
                    tr_pos := tr_pos tr + 1\<rparr>)"
proof -
  have i: "interactions small_store = [(''u1'', ''v1'')]"
    by (simp add: interactions_def small_store_def empty_store_def)
  have e: "e_data small_engine = Some small_data"
    "e_node_mappings small_engine User = Some [(''u1'', 0)]"
    "e_node_mappings small_engine Video = Some [(''v1'', 0)]"
    by (simp_all add: small_engine_def blank_engine_def small_nodes enumerate_ids_single)
  have n: "hd_num_nodes small_data Video = Some 1"
    by (simp add: small_data_def small_nodes)
  obtain loss where b: "bpr_step demo_lib small_data (Suc 0) 0 0 tr =
     Inr (loss, tr\<lparr>tr_model := (tr_model tr)\<lparr>gnn_params := ()\<rparr>, tr_opt := (),
                    tr_pos := tr_pos tr + 1\<rparr>)"
    using bpr_step_small by blast
  show ?thesis
    by (simp add: train_epoch_def i e n b py_div_def)
qed

lemma run_epochs_small:
  "\<exists>tr'. run_epochs demo_lib small_engine small_store n tr = Inr tr' \<and>
         gnn_hidden_dim (tr_model tr') = gnn_hidden_dim (tr_model tr) \<and>
         gnn_num_layers (tr_model tr') = gnn_num_layers (tr_model tr)"
proof (induction n arbitrary: tr)
  case 0
  then show ?case by simp
next
  case (Suc n)
  let ?tr1 = "tr\<lparr>tr_model := (tr_model tr)\<lparr>gnn_params := ()\<rparr>, tr_opt := (),
                    tr_pos := tr_pos tr + 1\<rparr>"
  obtain loss where t: "train_epoch demo_lib small_engine small_store tr = Inr (loss, ?tr1)"
    using train_epoch_small by blast
  from Suc.IH[of ?tr1] show ?case by (simp add: t)
qed

lemma json_loads_demo: "json_loads demo_lib ''[1.0]'' = Inr [1]"
  by (simp add: demo_lib_def decode_number_array_def trim_def is_space_def parse_number_def
      parse_exponent_def is_digit_def digits_value_def)

lemma store_node_types_small:
  "store_node_types demo_lib t (small_engine\<lparr>e_model := mo\<rparr>) (hd_x small_data)
     all_node_types small_store = Inr (small_store_embedded t)"
proof -
  have m: "e_node_mappings small_engine User = Some [(''u1'', 0)]"
    "e_node_mappings small_engine Video = Some [(''v1'', 0)]"
    "e_node_mappings small_engine Category = Some [(''c1'', 0)]"
    "e_node_mappings small_engine ParentCategory = Some []"
    by (simp_all add: small_engine_def blank_engine_def small_nodes enumerate_ids_single)
  have x: "hd_x small_data User = Some [replicate 64 0]"
    "hd_x small_data Video = Some [replicate 64 0]"
    "hd_x small_data Category = Some [replicate 64 0]"
    by (simp_all add: small_data_def small_nodes)
  have j: "json_dumps demo_lib v = ''[1.0]''" for v by (simp add: demo_lib_def)
  show ?thesis
    by (simp add: all_node_types_def store_node_type_def m x row_def dict_put_def merge_on_def
        store_embeddings_in_neo4j_def j set_embedding_def small_store_def
        small_store_embedded_def empty_store_def new_user_def new_video_def new_category_def)
qed

lemma build_small:
  assumes "w_store W = small_store_embedded t"
  shows "\<exists>w'. build_faiss_index demo_lib W = Inr w' \<and>
           e_faiss_index (w_engine w') = Some [[1]] \<and> e_video_ids (w_engine w') = [''v1'']"
proof -
  have r: "List.map_filter (\<lambda>n. map_option (\<lambda>s. (video_id n, s)) (video_embedding n))
            (g_videos (small_store_embedded t)) = [(''v1'', ''[1.0]'')]"
    by (simp add: List.map_filter_def small_store_embedded_def new_video_def)
  have i: "index_flat_ip demo_lib m = Inr m" "np_array demo_lib v = Inr v" for m v
    by (simp_all add: demo_lib_def)
  show ?thesis
    by (simp add: build_faiss_index_def assms r json_loads_demo i)
qed

lemma extract_small:
  "\<exists>w'. extract_and_store_embeddings demo_lib clk
      (fresh_world\<lparr>w_engine := small_engine\<lparr>e_model := Some m\<rparr>, w_rng := p\<rparr>) = Inr w' \<and>
      w_store w' = small_store_embedded (neo4j_datetime clk) \<and>
      e_faiss_index (w_engine w') = Some [[1]] \<and> e_video_ids (w_engine w') = [''v1''] \<and>
      e_model (w_engine w') \<noteq> None"
proof -
  let ?e1 = "small_engine\<lparr>e_model := Some (m\<lparr>gnn_training := False\<rparr>)\<rparr>"
  let ?W = "fresh_world\<lparr>w_engine := ?e1, w_store := small_store_embedded (neo4j_datetime clk),
         w_rng := p\<rparr>"
  have d: "e_data small_engine = Some small_data"
    by (simp add: small_engine_def blank_engine_def)
  have s: "w_store fresh_world = small_store" by (simp add: fresh_world_def)
  obtain w' where b: "build_faiss_index demo_lib ?W = Inr w'"
    and ix: "e_faiss_index (w_engine w') = Some [[1]]" "e_video_ids (w_engine w') = [''v1'']"
    using build_small[of ?W "neo4j_datetime clk"] by auto
  have x: "extract_and_store_embeddings demo_lib clk
      (fresh_world\<lparr>w_engine := small_engine\<lparr>e_model := Some m\<rparr>, w_rng := p\<rparr>) = Inr w'"
    using b
    by (simp add: extract_and_store_embeddings_def Let_def d s small_dicts forward_small
        store_node_types_small)
  have "w_store w' = small_store_embedded (neo4j_datetime clk)"
    "e_model (w_engine w') \<noteq> None"
    using build_faiss_index_frame(1,4)[OF b] by simp_all
  with x ix show ?thesis by blast
qed

lemma demo_run:
  "\<exists>w'. train_gnn_and_update_embeddings demo_lib (clock_at t) n 128 fresh_world = Inr w' \<and>
      w_store w' = small_store_embedded t \<and>
      e_faiss_index (w_engine w') = Some [[1]] \<and> e_video_ids (w_engine w') = [''v1'']"
proof -
  have l: "load_graph_from_neo4j demo_lib fresh_world =
             fresh_world\<lparr>w_engine := small_engine, w_rng := 4\<rparr>"
    by (simp add: load_small small_engine_def)
  have f: "e_data (w_engine fresh_world) = None" "e_model small_engine = None"
    "w_store fresh_world = small_store"
    by (simp_all add: fresh_world_def blank_engine_def small_engine_def)
  let ?tr = "\<lparr>tr_model = \<lparr>gnn_hidden_dim = 128, gnn_num_layers = 3,
                gnn_params = (), gnn_training = True\<rparr>,
              tr_opt = (), tr_pos = 5\<rparr>"
  obtain tr' where r: "run_epochs demo_lib small_engine small_store (nat n) ?tr = Inr tr'"
    using run_epochs_small by blast
  obtain w2 where x: "extract_and_store_embeddings demo_lib (clock_at t)
      (fresh_world\<lparr>w_engine := small_engine\<lparr>e_model := Some (tr_model tr')\<rparr>,
                   w_rng := tr_pos tr'\<rparr>) = Inr w2"
    and w2: "w_store w2 = small_store_embedded t"
      "e_faiss_index (w_engine w2) = Some [[1]]" "e_video_ids (w_engine w2) = [''v1'']"
      "e_model (w_engine w2) \<noteq> None"
    using extract_small[where clk="clock_at t" and m="tr_model tr'" and p="tr_pos tr'"]
    by (auto simp: clock_at_def)
  obtain w3 where sm: "save_model (clock_at t) w2 = Inr w3"
    using w2(4) by (auto simp: save_model_def split: option.splits)
  have t: "train_gnn_and_update_embeddings demo_lib (clock_at t) n 128 fresh_world
        = Inr (save_faiss_index w3)"
    by (simp add: train_gnn_and_update_embeddings_def Let_def f l r x sm)
  have "w_store (save_faiss_index w3) = small_store_embedded t"
    "e_faiss_index (w_engine (save_faiss_index w3)) = Some [[1]]"
    "e_video_ids (w_engine (save_faiss_index w3)) = [''v1'']"
    using save_model_frame(1,6,7)[OF sm] w2 by (simp_all add: save_faiss_index_frame)
  with t show ?thesis by blast
qed



section \<open>Trainer and persistence: properties\<close>

lemma train_loop_all_skipped:
  assumes "\<forall>(u, v)\<in>set xs. map_of users u = None \<or> map_of videos v = None"
  shows "train_loop L data n users videos xs acc k tr = Inr (acc, k, tr)"
  using assms by (induction xs) (auto split: option.splits)

lemma bind_err_never:
  assumes "r \<noteq> Inl e" and "\<And>a. f a \<noteq> Inl e"
  shows "bind_err r f \<noteq> Inl e"
  using assms by (cases r) simp_all

lemma bind_err_Inl:
  "bind_err r f = Inl e \<longleftrightarrow> r = Inl e \<or> (\<exists>a. r = Inr a \<and> f a = Inl e)"
  by (cases r) simp_all

lemma gnn_branches_no_zero_division:
  "gnn_branches L m i x edges xn pos \<noteq> Inl ZeroDivisionError"
proof (induction edges arbitrary: xn pos)
  case Nil
  then show ?case by simp
next
  case (Cons e edges)
  obtain s r d ei where e: "e = ((s, r, d), ei)" by (cases e) auto
  show ?case
  proof (cases "s = d")
    case False
    then show ?thesis using e Cons.IH by simp
  next
    case True
    show ?thesis
    proof (cases "x d")
      case None
      then show ?thesis using True e by simp
    next
      case (Some xs)
      obtain out p1 where bo: "branch_output L m i pos xs ei = (out, p1)"
        by (cases "branch_output L m i pos xs ei") auto
      show ?thesis using True e Some bo Cons.IH by simp
    qed
  qed
qed

lemma gnn_layers_no_zero_division:
  "gnn_layers L m edges i n x pos \<noteq> Inl ZeroDivisionError"
proof (induction n arbitrary: i x pos)
  case 0
  then show ?case by simp
next
  case (Suc n)
  show ?case
  proof (cases "gnn_branches L m i x edges Map.empty pos")
    case (Inl err)
    then have "err \<noteq> ZeroDivisionError"
      using gnn_branches_no_zero_division[of L m i x edges Map.empty pos] by auto
    then show ?thesis using Inl by (simp add: gnn_layer_def)
  next
    case (Inr p)
    obtain xn p1 where p: "p = (xn, p1)" by (cases p) auto
    show ?thesis using Inr p Suc.IH by (simp add: gnn_layer_def)
  qed
qed

lemma forward_no_zero_division: "forward L m x edges pos \<noteq> Inl ZeroDivisionError"
  unfolding forward_def by (rule gnn_layers_no_zero_division)

lemma bpr_step_no_zero_division:
  "bpr_step L data n u_idx v_idx tr \<noteq> Inl ZeroDivisionError"
proof (cases "n = 0")
  case True
  then show ?thesis by (simp add: bpr_step_def)
next
  case False
  have r: "row m k \<noteq> Inl ZeroDivisionError" for m k by (simp add: row_def)
  show ?thesis
    using False
    by (auto simp: bpr_step_def bind_err_Inl data_x_dict_def data_edge_index_dict_def
          forward_no_zero_division r Let_def split: prod.splits option.splits if_splits)
qed

lemma train_loop_no_zero_division:
  "train_loop L data n users videos xs acc k tr \<noteq> Inl ZeroDivisionError"
proof (induction xs arbitrary: acc k tr)
  case Nil
  then show ?case by simp
next
  case (Cons x xs)
  obtain u v where x: "x = (u, v)" by (cases x)
  show ?case
  proof (cases "map_of users u")
    case None
    then show ?thesis using x Cons.IH by simp
  next
    case (Some ui)
    show ?thesis
    proof (cases "map_of videos v")
      case None
      then show ?thesis using x Some Cons.IH by simp
    next
      case vi: (Some vi)
      have "bind_err (bpr_step L data n ui vi tr)
              (\<lambda>(loss, tr'). train_loop L data n users videos xs (acc + loss) (k + 1) tr')
            \<noteq> Inl ZeroDivisionError"
        by (rule bind_err_never) (auto simp: bpr_step_no_zero_division Cons.IH)
      then show ?thesis using x Some vi by simp
    qed
  qed
qed

lemma guarded_mean: "py_div tot (real (max k 1)) = Inr (tot / real (max k 1))"
  by (simp add: py_div_def max_def)

text \<open>
  Claim C10. \<open>_train_epoch\<close> returns 0.0 when the interaction pool is empty. When the
  pool is not empty and every interaction is skipped, because its user or its video is
  not in the node mappings, the mean is \<open>0 / max(0, 1)\<close>: it returns 0.0 as well. In
  both cases the model, the optimizer and the random generator are as they were: no
  optimizer step was taken. Whatever the pool and the mappings, \<open>_train_epoch\<close> does
  not raise ZeroDivisionError: the divisor \<open>max(num_batches, 1)\<close> is never zero, and
  the division returns the quotient.
\<close>

theorem train_epoch_without_steps:
  "train_epoch L e g tr \<noteq> Inl ZeroDivisionError \<and>
   py_div tot (real (max k 1)) = Inr (tot / real (max k 1)) \<and>
   (interactions g = [] \<longrightarrow> train_epoch L e g tr = Inr (0, tr)) \<and>
   (e_data e = Some data \<and> hd_num_nodes data Video = Some n \<and>
    e_node_mappings e User = Some users \<and> e_node_mappings e Video = Some videos \<and>
    (\<forall>(u, v)\<in>set (interactions g). map_of users u = None \<or> map_of videos v = None)
      \<longrightarrow> train_epoch L e g tr = Inr (0, tr))"
proof (intro conjI impI)
  show "train_epoch L e g tr \<noteq> Inl ZeroDivisionError"
  proof (cases "interactions g = []")
    case True
    then show ?thesis by (simp add: train_epoch_def)
  next
    case False
    have m: "bind_err (train_loop L d nv us vs (interactions g) 0 0 tr)
               (\<lambda>(total_loss, num_batches, tr').
                  bind_err (py_div total_loss (real (max num_batches 1)))
                    (\<lambda>mean_loss. Inr (mean_loss, tr'))) \<noteq> Inl ZeroDivisionError"
      for d nv us vs
      by (auto simp: bind_err_Inl train_loop_no_zero_division guarded_mean
            simp del: One_nat_def)
    show ?thesis
      using False m by (auto simp: train_epoch_def split: option.splits)
  qed
  show "py_div tot (real (max k 1)) = Inr (tot / real (max k 1))"
    by (rule guarded_mean)
next
  assume "interactions g = []"
  then show "train_epoch L e g tr = Inr (0, tr)"
    by (simp add: train_epoch_def)
next
  assume a: "e_data e = Some data \<and> hd_num_nodes data Video = Some n \<and>
    e_node_mappings e User = Some users \<and> e_node_mappings e Video = Some videos \<and>
    (\<forall>(u, v)\<in>set (interactions g). map_of users u = None \<or> map_of videos v = None)"
  then have "train_loop L data n users videos (interactions g) 0 0 tr = Inr (0, 0, tr)"
    using train_loop_all_skipped by blast
  then show "train_epoch L e g tr = Inr (0, tr)"
    using a by (simp add: train_epoch_def py_div_def)
qed

text \<open>
  Claim C10 at a snapshot that maps no user, over a store with one watch and over the
  empty store; the division by the guarded count of the first is \<open>0 / 1\<close>.
\<close>

theorem train_epoch_without_steps_witness:
  "interactions small_store = [(''u1'', ''v1'')] \<and>
   train_epoch demo_lib stale_engine small_store demo_trainer = Inr (0, demo_trainer) \<and>
   train_epoch demo_lib stale_engine empty_store demo_trainer = Inr (0, demo_trainer) \<and>
   py_div 0 (real (max 0 1)) = Inr 0"
proof -
  have i: "interactions small_store = [(''u1'', ''v1'')]"
    by (simp add: interactions_def small_store_def empty_store_def)
  have i0: "interactions empty_store = []"
    by (simp add: interactions_def empty_store_def)
  have h: "e_data stale_engine = Some small_data \<and> hd_num_nodes small_data Video = Some 1 \<and>
    e_node_mappings stale_engine User = Some [] \<and> e_node_mappings stale_engine Video = Some [] \<and>
    (\<forall>(u, v)\<in>set (interactions small_store). map_of [] u = (None :: nat option) \<or> map_of [] v = (None :: nat option))"
    by (simp add: stale_engine_def blank_engine_def small_data_def small_nodes)
  note t = train_epoch_without_steps
  have 1: "train_epoch demo_lib stale_engine small_store demo_trainer = Inr (0, demo_trainer)"
    using t[of demo_lib stale_engine small_store demo_trainer 0 0 small_data 1 "[]" "[]"] h
    by blast
  have 2: "train_epoch demo_lib stale_engine empty_store demo_trainer = Inr (0, demo_trainer)"
    using t[of demo_lib stale_engine empty_store demo_trainer] i0 by blast
  have 3: "py_div 0 (real (max 0 1)) = Inr 0"
    using t[of demo_lib stale_engine empty_store demo_trainer 0 0] by simp
  from i 1 2 3 show ?thesis by simp
qed

text \<open>
  Claim C7. Whatever the number of epochs of a training run that returns, the metadata
  file on disk is the one that was there before the run (\<open>_save_model\<close> writes the
  weights only), and the epoch count kept in memory is the previous count plus 30, not
  plus the number of epochs just run.
\<close>

theorem training_run_metadata:
  "train_gnn_and_update_embeddings L clk num_epochs hidden_dim w = Inr w' \<longrightarrow>
     metadata_file (w_disk w') = metadata_file (w_disk w) \<and>
     md_total_epochs (e_model_metadata (w_engine w')) =
       Some ((case md_total_epochs (e_model_metadata (w_engine w)) of
                None \<Rightarrow> 0 | Some n \<Rightarrow> n) + 30)"
  using train_frame(1,2) by blast

theorem training_run_metadata_witness:
  "\<exists>w'. train_gnn_and_update_embeddings demo_lib (clock_at 0) 5 128 fresh_world = Inr w' \<and>
        metadata_file (w_disk w') = None \<and>
        md_total_epochs (e_model_metadata (w_engine w')) = Some 30"
proof -
  obtain w' where r: "train_gnn_and_update_embeddings demo_lib (clock_at 0) 5 128 fresh_world = Inr w'"
    using demo_run by blast
  have "metadata_file (w_disk fresh_world) = None"
    "md_total_epochs (e_model_metadata (w_engine fresh_world)) = None"
    by (simp_all add: fresh_world_def no_files_def blank_engine_def empty_metadata_def)
  with training_run_metadata[of demo_lib "clock_at 0" 5 128 fresh_world w'] r
  have "metadata_file (w_disk w') = None \<and>
        md_total_epochs (e_model_metadata (w_engine w')) = Some 30"
    by simp
  with r show ?thesis by blast
qed

lemma new_engine_without_metadata:
  assumes "metadata_file fs = None"
  shows "e_model (w_engine (new_engine L g fs pos)) = None"
    "e_model_metadata (w_engine (new_engine L g fs pos)) = empty_metadata"
    "e_node_mappings (w_engine (new_engine L g fs pos)) = Map.empty"
    "faiss_index_file fs = Some ix \<Longrightarrow> video_ids_file fs = Some ids \<Longrightarrow>
       e_faiss_index (w_engine (new_engine L g fs pos)) = Some ix \<and>
       e_video_ids (w_engine (new_engine L g fs pos)) = ids"
  using assms
  by (auto simp: new_engine_def load_model_if_exists_def load_faiss_index_if_exists_def
      blank_engine_def split: option.splits prod.splits)

text \<open>
  Claim C1. After a training run that returns, in a directory that held no metadata file,
  a fresh engine over the saved files has no model, empty metadata and empty mappings,
  and reports that it needs training, although the engine that trained has a model.
\<close>

theorem reload_after_training:
  "train_gnn_and_update_embeddings L clk num_epochs hidden_dim w = Inr w' \<and>
   metadata_file (w_disk w) = None \<longrightarrow>
     e_model (w_engine w') \<noteq> None \<and>
     e_model (w_engine (new_engine L g (w_disk w') pos)) = None \<and>
     e_model_metadata (w_engine (new_engine L g (w_disk w') pos)) = empty_metadata \<and>
     e_node_mappings (w_engine (new_engine L g (w_disk w') pos)) = Map.empty \<and>
     check_model_needs_training clk' (w_engine (new_engine L g (w_disk w') pos)) g"
proof
  assume a: "train_gnn_and_update_embeddings L clk num_epochs hidden_dim w = Inr w' \<and>
   metadata_file (w_disk w) = None"
  then have m: "metadata_file (w_disk w') = None"
    using train_frame(1) by metis
  note n = new_engine_without_metadata[OF m, where L=L and g=g and pos=pos]
  have "check_model_needs_training clk' (w_engine (new_engine L g (w_disk w') pos)) g"
    by (simp add: check_model_needs_training_def n(1))
  moreover have "e_model (w_engine w') \<noteq> None"
    using a train_frame(5) by blast
  ultimately show "e_model (w_engine w') \<noteq> None \<and>
     e_model (w_engine (new_engine L g (w_disk w') pos)) = None \<and>
     e_model_metadata (w_engine (new_engine L g (w_disk w') pos)) = empty_metadata \<and>
     e_node_mappings (w_engine (new_engine L g (w_disk w') pos)) = Map.empty \<and>
     check_model_needs_training clk' (w_engine (new_engine L g (w_disk w') pos)) g"
    using n(1,2,3) by simp
qed

theorem reload_after_training_witness:
  "\<exists>w'. train_gnn_and_update_embeddings demo_lib (clock_at 0) 5 128 fresh_world = Inr w' \<and>
        e_model (w_engine w') \<noteq> None \<and>
        e_model (w_engine (new_engine demo_lib (w_store w') (w_disk w') 0)) = None \<and>
        check_model_needs_training (clock_at 0)
          (w_engine (new_engine demo_lib (w_store w') (w_disk w') 0)) (w_store w')"
proof -
  obtain w' where r: "train_gnn_and_update_embeddings demo_lib (clock_at 0) 5 128 fresh_world = Inr w'"
    using demo_run by blast
  have "metadata_file (w_disk fresh_world) = None"
    by (simp add: fresh_world_def no_files_def)
  with reload_after_training[of demo_lib "clock_at 0" 5 128 fresh_world w' "w_store w'" 0 "clock_at 0"] r
  show ?thesis by blast
qed

section \<open>Recommender: properties\<close>

lemma py_index_Inr: "py_index xs i = Inr v \<Longrightarrow> v \<in> set xs"
  by (auto simp: py_index_def Let_def split: if_splits)

lemma collect_sound:
  assumes "collect ids W limit indices acc = Inr recs"
  shows "set recs \<subseteq> set acc \<union> (set ids - W)"
  using assms
proof (induction indices arbitrary: acc)
  case Nil
  then show ?case by simp
next
  case (Cons idx rest)
  show ?case
  proof (cases "idx < int (length ids)")
    case False
    then show ?thesis using Cons by simp
  next
    case True
    then obtain v where v: "py_index ids idx = Inr v"
      using Cons.prems by (cases "py_index ids idx") simp_all
    then have vin: "v \<in> set ids" by (rule py_index_Inr)
    show ?thesis
    proof (cases "v \<in> W")
      case True
      then show ?thesis using Cons \<open>idx < int (length ids)\<close> v by simp
    next
      case False
      show ?thesis
      proof (cases "int (length (acc @ [v])) \<ge> limit")
        case True
        then have "recs = acc @ [v]"
          using Cons.prems \<open>idx < int (length ids)\<close> v False by simp
        then show ?thesis using vin False by auto
      next
        case nb: False
        then have "collect ids W limit rest (acc @ [v]) = Inr recs"
          using Cons.prems \<open>idx < int (length ids)\<close> v False by simp
        from Cons.IH[OF this] show ?thesis using vin False by auto
      qed
    qed
  qed
qed

lemma collect_take:
  assumes "collect ids W limit indices acc = Inr recs"
    and "int (length acc) < max limit 1"
  shows "recs = acc @ take (nat (max limit 1) - length acc)
                  (filter (\<lambda>v. v \<notin> W) (candidates ids indices))"
  using assms
proof (induction indices arbitrary: acc)
  case Nil
  then show ?case by (simp add: candidates_def)
next
  case (Cons idx rest)
  have c: "candidates ids (idx # rest) =
      (if idx < int (length ids)
       then (case py_index ids idx of Inl e \<Rightarrow> [] | Inr vid \<Rightarrow> [vid]) else [])
      @ candidates ids rest"
    by (simp add: candidates_def)
  show ?case
  proof (cases "idx < int (length ids)")
    case False
    then show ?thesis using Cons c by simp
  next
    case True
    then obtain v where v: "py_index ids idx = Inr v"
      using Cons.prems by (cases "py_index ids idx") simp_all
    have cv: "candidates ids (idx # rest) = v # candidates ids rest"
      using c True v by simp
    show ?thesis
    proof (cases "v \<in> W")
      case True
      then show ?thesis using Cons \<open>idx < int (length ids)\<close> v cv by simp
    next
      case False
      show ?thesis
      proof (cases "int (length (acc @ [v])) \<ge> limit")
        case True
        then have r: "recs = acc @ [v]"
          using Cons.prems \<open>idx < int (length ids)\<close> v False by simp
        have "nat (max limit 1) - length acc = Suc 0"
          using True Cons.prems(2) by (auto simp: max_def split: if_splits)
        then show ?thesis using r cv False by simp
      next
        case nb: False
        then have cr: "collect ids W limit rest (acc @ [v]) = Inr recs"
          using Cons.prems \<open>idx < int (length ids)\<close> v False by simp
        have l: "int (length (acc @ [v])) < max limit 1" using nb by simp
        have "nat (max limit 1) - length acc = Suc (nat (max limit 1) - length (acc @ [v]))"
          using l by (auto simp: max_def split: if_splits)
        then show ?thesis using Cons.IH[OF cr l] cv False by simp
      qed
    qed
  qed
qed

lemma ensure_frame:
  assumes "ensure_model_trained L clk force w = Inr w1"
  shows "g_watches (w_store w1) = g_watches (w_store w)"
    "map video_id (g_videos (w_store w1)) = map video_id (g_videos (w_store w))"
    "map user_id (g_users (w_store w1)) = map user_id (g_users (w_store w))"
proof -
  have "g_watches (w_store w1) = g_watches (w_store w) \<and>
    map video_id (g_videos (w_store w1)) = map video_id (g_videos (w_store w)) \<and>
    map user_id (g_users (w_store w1)) = map user_id (g_users (w_store w))"
  proof (cases "force \<or> check_model_needs_training clk (w_engine w) (w_store w)")
    case True
    then have "train_gnn_and_update_embeddings L clk 30 128 w = Inr w1"
      using assms unfolding ensure_model_trained_def by simp
    then show ?thesis using train_frame(3,4,6) by blast
  next
    case False
    show ?thesis
    proof (cases "e_faiss_index (w_engine w) = None")
      case True
      then have "build_faiss_index L w = Inr w1"
        using assms False unfolding ensure_model_trained_def by simp
      then show ?thesis using build_faiss_index_frame(1) by metis
    next
      case nf: False
      then have "w1 = w"
        using assms False unfolding ensure_model_trained_def by auto
      then show ?thesis by simp
    qed
  qed
  then show "g_watches (w_store w1) = g_watches (w_store w)"
    "map video_id (g_videos (w_store w1)) = map video_id (g_videos (w_store w))"
    "map user_id (g_users (w_store w1)) = map user_id (g_users (w_store w))"
    by simp_all
qed



lemma watched_by_cong:
  "g_watches g' = g_watches g \<Longrightarrow> watched_by g' uid = watched_by g uid"
  by (simp add: watched_by_def)


lemma get_recommendations_stages:
  assumes "get_recommendations L clk uid limit w = Inr (recs, w')"
  shows "\<exists>w1. (if e_faiss_index (w_engine w) = None
               then ensure_model_trained L clk False w else Inr w) = Inr w1 \<and>
              answer_from_store L uid limit w1 = Inr (recs, w') \<and>
              g_watches (w_store w1) = g_watches (w_store w) \<and>
              map video_id (g_videos (w_store w1)) = map video_id (g_videos (w_store w))"
proof -
  obtain w1 where p: "(if e_faiss_index (w_engine w) = None
               then ensure_model_trained L clk False w else Inr w) = Inr w1"
    and a: "answer_from_store L uid limit w1 = Inr (recs, w')"
    using assms by (auto simp: get_recommendations_def bind_err_Inr)
  have "g_watches (w_store w1) = g_watches (w_store w) \<and>
        map video_id (g_videos (w_store w1)) = map video_id (g_videos (w_store w))"
  proof (cases "e_faiss_index (w_engine w) = None")
    case True
    then show ?thesis using p ensure_frame by auto
  next
    case False
    then show ?thesis using p by auto
  qed
  with p a show ?thesis by blast
qed

lemma answer_from_index:
  assumes "answer_from_store L uid limit w = Inr (recs, w')"
    and "stored_embedding (w_store w) uid = Some s"
  shows "\<exists>ix val query indices.
      w_store w' = w_store w \<and> e_faiss_index (w_engine w') = Some ix \<and>
      json_loads L s = Inr val \<and> query_vector L val = Inr query \<and>
      faiss_search L ix query (limit * 2) = Inr indices \<and>
      collect (e_video_ids (w_engine w')) (watched_by (w_store w) uid) limit indices [] = Inr recs"
proof -
  obtain val query w1 where v: "json_loads L s = Inr val" and q: "query_vector L val = Inr query"
    and b: "(if e_faiss_index (w_engine w) = None
                         then build_faiss_index L w else Inr w) = Inr w1"
    and r: "(case e_faiss_index (w_engine w1) of
               None \<Rightarrow> Inl AttributeError
             | Some ix \<Rightarrow>
                 bind_err (faiss_search L ix query (limit * 2))
                   (\<lambda>indices.
                      bind_err
                        (collect (e_video_ids (w_engine w1))
                           (watched_by (w_store w1) uid) limit indices [])
                        (\<lambda>recommendations. Inr (recommendations, w1)))) = Inr (recs, w')"
    using assms by (auto simp: answer_from_store_def bind_err_Inr)
  have st: "w_store w1 = w_store w"
  proof (cases "e_faiss_index (w_engine w) = None")
    case True
    then show ?thesis using b build_faiss_index_frame(1) by auto
  next
    case False
    then show ?thesis using b by auto
  qed
  obtain ix where ix: "e_faiss_index (w_engine w1) = Some ix"
    using r by (cases "e_faiss_index (w_engine w1)") simp_all
  obtain indices where i: "faiss_search L ix query (limit * 2) = Inr indices"
    and c: "collect (e_video_ids (w_engine w1)) (watched_by (w_store w1) uid) limit indices []
              = Inr recs"
    and w': "w' = w1"
    using r ix by (auto simp: bind_err_Inr)
  show ?thesis
    using st ix v q i c w' by auto
qed


text \<open>
  Claim C2, as amended. When \<open>get_recommendations\<close> returns a list for a user who has
  a stored, non-empty embedding at query time, the list is answered from the vector
  index: the embedding was decoded and made a query row, the index was searched for
  \<open>2 * limit\<close> candidates, and the list is the first \<open>max(limit, 1)\<close> of the candidates
  that the user has not watched, in index rank order. No video the user has watched is
  in it.
\<close>

theorem recommendations_from_index_unwatched:
  "get_recommendations L clk uid limit w = Inr (recs, w') \<and>
   stored_embedding (w_store w') uid = Some s \<longrightarrow>
     (\<forall>v\<in>set recs. v \<notin> watched_by (w_store w) uid) \<and>
     (\<exists>ix val query indices.
        e_faiss_index (w_engine w') = Some ix \<and> json_loads L s = Inr val \<and>
        query_vector L val = Inr query \<and>
        faiss_search L ix query (limit * 2) = Inr indices \<and>
        recs = take (nat (max limit 1))
                 (filter (\<lambda>v. v \<notin> watched_by (w_store w) uid)
                    (candidates (e_video_ids (w_engine w')) indices)))"
proof
  assume a: "get_recommendations L clk uid limit w = Inr (recs, w') \<and>
   stored_embedding (w_store w') uid = Some s"
  obtain w1 where af: "answer_from_store L uid limit w1 = Inr (recs, w')"
    and gw: "g_watches (w_store w1) = g_watches (w_store w)"
    using get_recommendations_stages a by blast
  have same: "w_store w' = w_store w1"
  proof (cases "stored_embedding (w_store w1) uid")
    case None
    then show ?thesis
      using af by (auto simp: answer_from_store_def bind_err_Inr)
  next
    case (Some s1)
    then show ?thesis using answer_from_index[OF af Some] by auto
  qed
  then have se: "stored_embedding (w_store w1) uid = Some s" using a by simp
  obtain ix val query indices where
    ix: "e_faiss_index (w_engine w') = Some ix" and v: "json_loads L s = Inr val"
    and q: "query_vector L val = Inr query"
    and i: "faiss_search L ix query (limit * 2) = Inr indices"
    and c: "collect (e_video_ids (w_engine w')) (watched_by (w_store w1) uid) limit indices []
              = Inr recs"
    using answer_from_index[OF af se] by blast
  have wb: "watched_by (w_store w1) uid = watched_by (w_store w) uid"
    using gw by (rule watched_by_cong)
  have 1: "\<forall>v\<in>set recs. v \<notin> watched_by (w_store w) uid"
    using collect_sound[OF c] wb by auto
  have 2: "recs = take (nat (max limit 1))
                 (filter (\<lambda>v. v \<notin> watched_by (w_store w) uid)
                    (candidates (e_video_ids (w_engine w')) indices))"
    using collect_take[OF c] wb by simp
  from 1 2 ix v q i
  show "(\<forall>v\<in>set recs. v \<notin> watched_by (w_store w) uid) \<and>
     (\<exists>ix val query indices.
        e_faiss_index (w_engine w') = Some ix \<and> json_loads L s = Inr val \<and>
        query_vector L val = Inr query \<and>
        faiss_search L ix query (limit * 2) = Inr indices \<and>
        recs = take (nat (max limit 1))
                 (filter (\<lambda>v. v \<notin> watched_by (w_store w) uid)
                    (candidates (e_video_ids (w_engine w')) indices)))"
    by blast
qed



lemma cold_facts:
  "e_faiss_index (w_engine cold_world) = Some [[1]]"
  "w_store cold_world = small_store"
  "stored_embedding small_store ''u1'' = None"
  "popularity_ranking small_store = [''v1'']"
  "watched_by small_store ''u1'' = {''v1''}"
  by (simp_all add: cold_world_def blank_engine_def stored_embedding_def small_store_def
      empty_store_def new_user_def new_video_def popularity_ranking_def watch_count_def
      watched_by_def)


text \<open>
  Claim C2 as stated fails in the popularity fallback: the user of \<open>cold_world\<close> has no
  embedding and has watched video v1, the only watched video of the store, and
  \<open>get_recommendations\<close> returns it.
\<close>

theorem fallback_returns_watched_video:
  "get_recommendations demo_lib (clock_at 0) ''u1'' 20 cold_world = Inr ([''v1''], cold_world) \<and>
   ''v1'' \<in> watched_by (w_store cold_world) ''u1''"
proof -
  have "get_recommendations demo_lib (clock_at 0) ''u1'' 20 cold_world
          = answer_from_store demo_lib ''u1'' 20 cold_world"
    using cold_facts(1) by (simp add: get_recommendations_def)
  also have "\<dots> = Inr ([''v1''], cold_world)"
    by (simp add: answer_from_store_def cold_facts get_popular_videos_def)
  finally show ?thesis by (simp add: cold_facts)
qed


lemma indexed_facts:
  "e_faiss_index (w_engine (indexed_world emb)) = Some [[1], [1]]"
  "e_video_ids (w_engine (indexed_world emb)) = [''v1'', ''v2'']"
  "w_store (indexed_world emb) = two_video_store emb"
  "emb \<noteq> [] \<Longrightarrow> stored_embedding (two_video_store emb) ''u1'' = Some emb"
  "watched_by (two_video_store emb) ''u1'' = {''v1''}"
  by (simp_all add: indexed_world_def blank_engine_def stored_embedding_def two_video_store_def
      empty_store_def new_user_def watched_by_def)





lemma warm_answer:
  "get_recommendations demo_lib (clock_at 0) ''u1'' 1 warm_world = Inr ([''v2''], warm_world)"
proof -
  have s: "stored_embedding (w_store warm_world) ''u1'' = Some ''[1.0]''"
    by (simp add: warm_world_def indexed_facts)
  have f: "faiss_search demo_lib [[1], [1]] q 2 = Inr [0, 1]" for q
    by (simp add: demo_lib_def upt_rec)
  have q: "query_vector demo_lib v = Inr v" for v by (simp add: demo_lib_def)
  have c: "collect [''v1'', ''v2''] {''v1''} 1 [0, 1] [] = Inr [''v2'']"
    by (simp add: py_index_def)
  have "get_recommendations demo_lib (clock_at 0) ''u1'' 1 warm_world
          = answer_from_store demo_lib ''u1'' 1 warm_world"
    by (simp add: get_recommendations_def warm_world_def indexed_facts)
  also have "\<dots> = Inr ([''v2''], warm_world)"
    using s by (simp add: answer_from_store_def json_loads_demo q warm_world_def indexed_facts
        f c del: collect.simps)
  finally show ?thesis .
qed

text \<open>
  The amended claim at \<open>warm_world\<close>: the watched first candidate is dropped.
\<close>

theorem recommendations_from_index_unwatched_witness:
  "get_recommendations demo_lib (clock_at 0) ''u1'' 1 warm_world = Inr ([''v2''], warm_world) \<and>
   stored_embedding (w_store warm_world) ''u1'' = Some ''[1.0]'' \<and>
   watched_by (w_store warm_world) ''u1'' = {''v1''} \<and>
   list_all (\<lambda>v. v \<notin> watched_by (w_store warm_world) ''u1'') [''v2'']"
proof -
  have s: "stored_embedding (w_store warm_world) ''u1'' = Some ''[1.0]''"
    by (simp add: warm_world_def indexed_facts)
  have w: "watched_by (w_store warm_world) ''u1'' = {''v1''}"
    by (simp add: warm_world_def indexed_facts)
  from recommendations_from_index_unwatched[of demo_lib "clock_at 0" "''u1''" 1 warm_world
      "[''v2'']" warm_world "''[1.0]''"] warm_answer s
  have "\<forall>v\<in>set [''v2'']. v \<notin> watched_by (w_store warm_world) ''u1''" by blast
  then have "list_all (\<lambda>v. v \<notin> watched_by (w_store warm_world) ''u1'') [''v2'']"
    by (simp add: list_all_iff)
  with warm_answer s w show ?thesis by simp
qed

section \<open>Interest edges: properties\<close>

lemma accumulate_add: "accumulate a j (accumulate a i v) = accumulate a (i + j) v"
  by (cases v) (auto simp: accumulate_def algebra_simps)

lemma accumulate_0 [simp]: "accumulate a 0 v = v"
  by (simp add: accumulate_def)

lemma interest_step_effect:
  "interest (interest_step uid a cid g) u c =
     (if uid = u \<and> cid = c \<and> has_category g c then accumulate a 1 (interest g u c)
      else interest g u c)"
proof (cases "has_category g cid")
  case False
  then show ?thesis by (auto simp: interest_step_def)
next
  case True
  let ?p = "\<lambda>r. i_src r = uid \<and> i_dst r = cid"
  let ?q = "\<lambda>r. i_src r = u \<and> i_dst r = c"
  let ?c = "\<lparr>i_src = uid, i_dst = cid, i_score = a, i_count = 1\<rparr>"
  let ?f = "\<lambda>r. r\<lparr>i_score := i_score r + a, i_count := i_count r + 1\<rparr>"
  have g': "g_interested_in (interest_step uid a cid g) = merge_on ?p ?c ?f (g_interested_in g)"
    using True by (simp add: interest_step_def)
  show ?thesis
  proof (cases "uid = u \<and> cid = c")
    case same: True
    have "find ?p (merge_on ?p ?c ?f (g_interested_in g)) =
            Some (case find ?p (g_interested_in g) of None \<Rightarrow> ?c | Some x \<Rightarrow> ?f x)"
      by (rule find_merge_on_same) simp_all
    then have "interest (interest_step uid a cid g) uid cid
                 = accumulate a 1 (interest g uid cid)"
      unfolding interest_def g'
      by (simp add: accumulate_def split: option.splits)
    then show ?thesis
      using same True by simp
  next
    case other: False
    have "find ?q (merge_on ?p ?c ?f (g_interested_in g)) = find ?q (g_interested_in g)"
      by (rule find_merge_on_other) (use other in auto)
    then show ?thesis
      using other by (auto simp: interest_def g')
  qed
qed

lemma has_category_interest_step [simp]:
  "has_category (interest_step uid a cid g) c = has_category g c"
  by (simp add: interest_step_def has_category_def)

lemma interest_fold:
  "interest (fold (interest_step uid a) cats g) u c =
     accumulate a (if uid = u \<and> has_category g c then count_list cats c else 0) (interest g u c)"
proof (induction cats arbitrary: g)
  case Nil
  then show ?case by simp
next
  case (Cons cid cats)
  show ?case
    by (simp add: Cons.IH interest_step_effect accumulate_add)
qed

lemma interest_uci_step [simp]: "interest (uci_step uid a cid g) u c = interest g u c"
  by (simp add: interest_def uci_step_def)

lemma interest_fold_uci [simp]: "interest (fold (uci_step uid a) cats g) u c = interest g u c"
  by (induction cats arbitrary: g) simp_all

lemma interest_frame [simp]:
  "interest (g\<lparr>g_watches := ws\<rparr>) u c = interest g u c"
  "interest (g\<lparr>g_likes := ls\<rparr>) u c = interest g u c"
  "has_category (g\<lparr>g_watches := ws\<rparr>) c = has_category g c"
  "has_category (g\<lparr>g_likes := ls\<rparr>) c = has_category g c"
  by (simp_all add: interest_def has_category_def)

lemma interest_apply:
  "interest (apply_interaction x g) u c = accumulate (amount x) (bumps x g u c) (interest g u c)"
proof (cases x)
  case (WatchEvent w)
  show ?thesis
    by (simp add: WatchEvent sync_watch_to_neo4j_def Let_def interest_fold bumps_def)
next
  case (LikeEvent l)
  show ?thesis
    by (simp add: LikeEvent sync_like_to_neo4j_def Let_def interest_fold bumps_def)
qed

lemma interest_monotone_step:
  assumes "0 \<le> amount x" and "interest g u c = Some (s, n)"
  shows "\<exists>s' n'. interest (apply_interaction x g) u c = Some (s', n') \<and> s \<le> s' \<and> n \<le> n'"
  using assms by (simp add: interest_apply accumulate_def)

lemma interest_monotone_fold:
  assumes "\<forall>x\<in>set events. 0 \<le> amount x" and "interest g u c = Some (s, n)"
  shows "\<exists>s' n'. interest (fold apply_interaction events g) u c = Some (s', n') \<and>
           s \<le> s' \<and> n \<le> n'"
  using assms
proof (induction events arbitrary: g s n)
  case Nil
  then show ?case by simp
next
  case (Cons x events)
  obtain s1 n1 where 1: "interest (apply_interaction x g) u c = Some (s1, n1)"
    and le1: "s \<le> s1" "n \<le> n1"
    using interest_monotone_step[of x g u c s n] Cons.prems by auto
  obtain s' n' where "interest (fold apply_interaction events (apply_interaction x g)) u c
      = Some (s', n')" and "s1 \<le> s'" "n1 \<le> n'"
    using Cons.IH[OF _ 1] Cons.prems(1) by auto
  then show ?case using le1 by auto
qed

text \<open>
  Claim C9, as amended. Across any sequence of \<open>sync_watch_to_neo4j\<close> and
  \<open>sync_like_to_neo4j\<close> operations whose amounts (the watch time of a watch, 2.0 for a
  like) are not negative, an existing \<open>INTERESTED_IN\<close> edge stays, and its score and its
  count do not decrease. One qualifying operation creates the edge with the amount and
  count 1, or adds the amount to the score and exactly one to the count.
\<close>

theorem interest_under_interactions:
  "((\<forall>x\<in>set events. 0 \<le> amount x) \<and> interest g u c = Some (s, n) \<longrightarrow>
      (\<exists>s' n'. interest (fold apply_interaction events g) u c = Some (s', n') \<and>
               s \<le> s' \<and> n \<le> n')) \<and>
   (qualifying x g u c \<longrightarrow>
      interest (apply_interaction x g) u c =
        Some (case interest g u c of
                None \<Rightarrow> (amount x, 1)
              | Some (s0, n0) \<Rightarrow> (s0 + amount x, n0 + 1)))"
proof (intro conjI impI)
  assume "(\<forall>x\<in>set events. 0 \<le> amount x) \<and> interest g u c = Some (s, n)"
  then show "\<exists>s' n'. interest (fold apply_interaction events g) u c = Some (s', n') \<and>
               s \<le> s' \<and> n \<le> n'"
    using interest_monotone_fold by blast
next
  assume "qualifying x g u c"
  then have "bumps x g u c = 1"
    by (simp add: qualifying_def bumps_def)
  then show "interest (apply_interaction x g) u c =
        Some (case interest g u c of
                None \<Rightarrow> (amount x, 1)
              | Some (s0, n0) \<Rightarrow> (s0 + amount x, n0 + 1))"
    by (simp add: interest_apply accumulate_def split: option.splits)
qed

lemma scenario_nodes:
  "has_user two_videos_one_category ''u1''"
  "has_video two_videos_one_category ''v1''"
  "has_video two_videos_one_category ''v2''"
  "has_category two_videos_one_category ''c1''"
  "node_categories two_videos_one_category ''v1'' = [''c1'']"
  "node_categories two_videos_one_category ''v2'' = [''c1'']"
  "interest two_videos_one_category ''u1'' ''c1'' = None"
  by (simp_all add: two_videos_one_category_def empty_store_def has_user_def has_video_def
      has_category_def node_categories_def new_user_def new_video_def new_category_def
      interest_def)

lemma sync_like_nodes [simp]:
  "has_user (sync_like_to_neo4j l g) k = has_user g k"
  "has_video (sync_like_to_neo4j l g) k = has_video g k"
  "has_category (sync_like_to_neo4j l g) k = has_category g k"
  "node_categories (sync_like_to_neo4j l g) k = node_categories g k"
proof -
  have i: "g_users (fold (interest_step uid a) cs g) = g_users g \<and>
           g_videos (fold (interest_step uid a) cs g) = g_videos g \<and>
           g_categories (fold (interest_step uid a) cs g) = g_categories g" for uid a cs g
    by (induction cs arbitrary: g) (simp_all add: interest_step_def)
  have u: "g_users (fold (uci_step uid a) cs g) = g_users g \<and>
           g_videos (fold (uci_step uid a) cs g) = g_videos g \<and>
           g_categories (fold (uci_step uid a) cs g) = g_categories g" for uid a cs g
    by (induction cs arbitrary: g) (simp_all add: uci_step_def)
  have "g_users (sync_like_to_neo4j l g) = g_users g \<and>
        g_videos (sync_like_to_neo4j l g) = g_videos g \<and>
        g_categories (sync_like_to_neo4j l g) = g_categories g"
    by (simp add: sync_like_to_neo4j_def Let_def i u)
  then show "has_user (sync_like_to_neo4j l g) k = has_user g k"
    "has_video (sync_like_to_neo4j l g) k = has_video g k"
    "has_category (sync_like_to_neo4j l g) k = has_category g k"
    "node_categories (sync_like_to_neo4j l g) k = node_categories g k"
    by (simp_all add: has_user_def has_video_def has_category_def node_categories_def)
qed

lemma liked_interest:
  "interest (sync_like_to_neo4j like_v1 two_videos_one_category) ''u1'' ''c1'' = Some (2, 1)"
  using interest_apply[of "LikeEvent like_v1" two_videos_one_category "''u1''" "''c1''"]
  by (simp add: bumps_def scenario_nodes like_v1_def accumulate_def)

text \<open>
  Claim C9 as stated fails for a watch with a negative watch time: after the like of v1
  the edge from u1 to c1 has score 2 and count 1; the watch of v2 with watch time -5
  takes the score down to -3.
\<close>

theorem negative_watch_time_lowers_score:
  "interest (sync_like_to_neo4j like_v1 two_videos_one_category) ''u1'' ''c1'' = Some (2, 1) \<and>
   interest (sync_watch_to_neo4j (watch_v2 (- 5))
               (sync_like_to_neo4j like_v1 two_videos_one_category)) ''u1'' ''c1''
     = Some (- 3, 2)"
proof -
  have "interest (sync_watch_to_neo4j (watch_v2 (- 5))
               (sync_like_to_neo4j like_v1 two_videos_one_category)) ''u1'' ''c1''
     = Some (- 3, 2)"
    using interest_apply[of "WatchEvent (watch_v2 (- 5))"
        "sync_like_to_neo4j like_v1 two_videos_one_category" "''u1''" "''c1''"]
    by (simp add: bumps_def scenario_nodes watch_v2_def accumulate_def liked_interest)
  with liked_interest show ?thesis by simp
qed

text \<open>
  The amended claim after the like of v1: a watch of v2 with watch time 1.5 qualifies.
\<close>

theorem interest_under_interactions_witness:
  "interest (sync_like_to_neo4j like_v1 two_videos_one_category) ''u1'' ''c1'' = Some (2, 1) \<and>
   interest (apply_interaction (WatchEvent (watch_v2 1.5))
               (sync_like_to_neo4j like_v1 two_videos_one_category)) ''u1'' ''c1''
     = Some (3.5, 2) \<and>
   (\<exists>s' n'. interest (fold apply_interaction [WatchEvent (watch_v2 1.5), LikeEvent like_v1]
                        (sync_like_to_neo4j like_v1 two_videos_one_category)) ''u1'' ''c1''
               = Some (s', n') \<and> 2 \<le> s' \<and> 1 \<le> n')"
proof -
  let ?g = "sync_like_to_neo4j like_v1 two_videos_one_category"
  let ?x = "WatchEvent (watch_v2 1.5)"
  note t = interest_under_interactions[of "[?x, LikeEvent like_v1]" ?g "''u1''" "''c1''" 2 1 ?x]
  have q: "qualifying ?x ?g ''u1'' ''c1''"
    by (simp add: qualifying_def scenario_nodes watch_v2_def)
  have a: "(\<forall>x\<in>set [?x, LikeEvent like_v1]. 0 \<le> amount x) \<and>
           interest ?g ''u1'' ''c1'' = Some (2, 1)"
    by (simp add: liked_interest watch_v2_def)
  from t q have "interest (apply_interaction ?x ?g) ''u1'' ''c1'' =
        Some (case interest ?g ''u1'' ''c1'' of
                None \<Rightarrow> (amount ?x, 1)
              | Some (s0, n0) \<Rightarrow> (s0 + amount ?x, n0 + 1))" by blast
  then have 1: "interest (apply_interaction ?x ?g) ''u1'' ''c1'' = Some (3.5, 2)"
    by (simp add: liked_interest watch_v2_def)
  from t a have 2: "\<exists>s' n'. interest (fold apply_interaction [?x, LikeEvent like_v1] ?g)
                   ''u1'' ''c1'' = Some (s', n') \<and> 2 \<le> s' \<and> 1 \<le> n'" by blast
  from liked_interest 1 2 show ?thesis by blast
qed

section \<open>GNN model: properties\<close>

lemma acc_sum_Some: "acc_sum (Some y) outs = Some (foldl tensor_add y outs)"
  by (induction outs arbitrary: y) simp_all

lemma summed_acc_sum:
  "summed outs nt = acc_sum None (map snd (filter (\<lambda>(d, out). d = nt) outs))"
  by (cases "map snd (filter (\<lambda>(d, out). d = nt) outs)") (simp_all add: summed_def acc_sum_Some)

lemma gnn_branches_filter:
  "gnn_branches L m i x edges xn pos = gnn_branches L m i x (filter same_type edges) xn pos"
proof (induction edges arbitrary: xn pos)
  case Nil
  then show ?case by simp
next
  case (Cons e edges)
  obtain s r d ei where e: "e = ((s, r, d), ei)" by (cases e) auto
  show ?case
  proof (cases "s = d")
    case False
    have "gnn_branches L m i x (e # edges) xn pos = gnn_branches L m i x edges xn pos"
      using False e by simp
    also have "\<dots> = gnn_branches L m i x (filter same_type edges) xn pos"
      by (rule Cons.IH)
    also have "\<dots> = gnn_branches L m i x (filter same_type (e # edges)) xn pos"
      using False e by (simp add: same_type_def)
    finally show ?thesis .
  next
    case True
    show ?thesis
    proof (cases "x d")
      case None
      then show ?thesis using True e by (simp add: same_type_def)
    next
      case (Some xs)
      obtain out p1 where bo: "branch_output L m i pos xs ei = (out, p1)"
        by (cases "branch_output L m i pos xs ei") auto
      let ?xn1 = "(case xn d of None \<Rightarrow> xn(d \<mapsto> out) | Some y \<Rightarrow> xn(d \<mapsto> tensor_add y out))"
      have "gnn_branches L m i x (e # edges) xn pos = gnn_branches L m i x edges ?xn1 p1"
        using True e Some bo by simp
      also have "\<dots> = gnn_branches L m i x (filter same_type edges) ?xn1 p1"
        by (rule Cons.IH)
      also have "\<dots> = gnn_branches L m i x (filter same_type (e # edges)) xn pos"
        using True e Some bo by (simp add: same_type_def)
      finally show ?thesis .
    qed
  qed
qed

lemma gnn_branches_outputs:
  assumes "gnn_branches L m i x edges xn pos = Inr (xn', pos')"
  shows "\<exists>outs. relation_outputs L m i x (filter same_type edges) pos = (outs, pos') \<and>
           (\<forall>nt. xn' nt = acc_sum (xn nt) (map snd (filter (\<lambda>(d, out). d = nt) outs)))"
  using assms
proof (induction edges arbitrary: xn pos)
  case Nil
  then show ?case by simp
next
  case (Cons e edges)
  obtain s r d ei where e: "e = ((s, r, d), ei)" by (cases e) auto
  show ?case
  proof (cases "s = d")
    case False
    then have "gnn_branches L m i x edges xn pos = Inr (xn', pos')"
      using Cons.prems e by simp
    from Cons.IH[OF this] show ?thesis using False e by (simp add: same_type_def)
  next
    case True
    obtain xs where xs: "x d = Some xs"
      using Cons.prems e True by (cases "x d") simp_all
    obtain out p1 where bo: "branch_output L m i pos xs ei = (out, p1)"
      by (cases "branch_output L m i pos xs ei") auto
    let ?xn1 = "(case xn d of None \<Rightarrow> xn(d \<mapsto> out) | Some y \<Rightarrow> xn(d \<mapsto> tensor_add y out))"
    have rest: "gnn_branches L m i x edges ?xn1 p1 = Inr (xn', pos')"
      using Cons.prems e True xs bo by simp
    obtain outs where ro: "relation_outputs L m i x (filter same_type edges) p1 = (outs, pos')"
      and acc: "\<forall>nt. xn' nt = acc_sum (?xn1 nt) (map snd (filter (\<lambda>(d, out). d = nt) outs))"
      using Cons.IH[OF rest] by blast
    have ad: "apply_dropout L (gnn_training m) pos
                (relu (layer_norm L (gnn_params m) i (gcn_conv L (gnn_params m) i xs ei)))
              = (out, p1)"
      using bo by (simp add: branch_output_def)
    have ro': "relation_outputs L m i x (filter same_type (e # edges)) pos
                 = ((d, out) # outs, pos')"
      using e True xs ad ro by (simp add: same_type_def)
    have "\<forall>nt. xn' nt = acc_sum (xn nt)
                 (map snd (filter (\<lambda>(d, out). d = nt) ((d, out) # outs)))"
    proof
      fix nt
      show "xn' nt = acc_sum (xn nt) (map snd (filter (\<lambda>(d, out). d = nt) ((d, out) # outs)))"
        using acc[rule_format, of nt] by (cases "xn d") (auto split: option.splits)
    qed
    with ro' show ?thesis by blast
  qed
qed

lemma gnn_layer_spec:
  assumes "gnn_layer L m i edges x pos = Inr (x', pos')"
  shows "layer_spec L m i edges x pos = (x', pos')"
proof -
  obtain xn where b: "gnn_branches L m i x edges Map.empty pos = Inr (xn, pos')"
    and x': "x' = residual x xn"
    using assms by (auto simp: gnn_layer_def split: sum.splits)
  obtain outs where ro: "relation_outputs L m i x (filter same_type edges) pos = (outs, pos')"
    and acc: "\<forall>nt. xn nt = acc_sum None (map snd (filter (\<lambda>(d, out). d = nt) outs))"
    using gnn_branches_outputs[OF b] by auto
  have "xn = summed outs"
    by (rule ext) (simp add: acc summed_acc_sum)
  then show ?thesis
    by (simp add: layer_spec_def ro x' residual_def)
qed

lemma gnn_layers_filter:
  "gnn_layers L m edges i n x pos = gnn_layers L m (filter same_type edges) i n x pos"
proof (induction n arbitrary: i x pos)
  case 0
  then show ?case by simp
next
  case (Suc n)
  have h: "gnn_layer L m i edges x pos = gnn_layer L m i (filter same_type edges) x pos"
    unfolding gnn_layer_def
    by (subst gnn_branches_filter) (rule refl)
  show ?case
  proof (cases "gnn_layer L m i (filter same_type edges) x pos")
    case (Inl err)
    then show ?thesis using h by simp
  next
    case (Inr p)
    obtain x1 p1 where p: "p = (x1, p1)" by (cases p) auto
    have "gnn_layers L m edges i (Suc n) x pos = gnn_layers L m edges (i + 1) n x1 p1"
      using h Inr p by simp
    also have "\<dots> = gnn_layers L m (filter same_type edges) (i + 1) n x1 p1"
      by (rule Suc.IH)
    also have "\<dots> = gnn_layers L m (filter same_type edges) i (Suc n) x pos"
      using Inr p by simp
    finally show ?thesis .
  qed
qed

lemma gnn_layers_spec:
  assumes "gnn_layers L m edges i n x pos = Inr r"
  shows "layers_spec L m edges i n x pos = r"
  using assms
proof (induction n arbitrary: i x pos)
  case 0
  then show ?case by simp
next
  case (Suc n)
  obtain x1 p1 where l: "gnn_layer L m i edges x pos = Inr (x1, p1)"
    and rest: "gnn_layers L m edges (i + 1) n x1 p1 = Inr r"
    using Suc.prems by (auto split: sum.splits)
  have "layer_spec L m i edges x pos = (x1, p1)"
    using l by (rule gnn_layer_spec)
  then show ?case using Suc.IH[OF rest] by simp
qed

text \<open>
  Claim C8. A forward pass that returns has computed the input projections followed by
  the layers in the words of the specification: each layer takes, for each relation
  whose source type equals its destination type, convolution, layer normalization, ReLU
  and dropout of the running representation of that type; sums these outputs per
  destination type; and adds the sum to the running representation of that type.
  Relations that cross node types change nothing: the forward pass is the forward pass
  over the same-type relations. Each single layer that returns is the layer of the
  specification. Dropout has rate 0.3 in training mode and is the identity in
  evaluation mode.
\<close>

theorem forward_same_type_only:
  "(forward L m x edges pos = Inr r \<longrightarrow> forward_spec L m x edges pos = r) \<and>
   forward L m x edges pos = forward L m x (filter same_type edges) pos \<and>
   (gnn_layer L m i edges y pos = Inr (y', pos') \<longrightarrow> layer_spec L m i edges y pos = (y', pos')) \<and>
   apply_dropout L True pos z = (dropout L pos 0.3 z, pos + 1) \<and>
   apply_dropout L False pos z = (z, pos)"
proof (intro conjI impI)
  show "forward_spec L m x edges pos = r" if "forward L m x edges pos = Inr r"
    using that unfolding forward_def forward_spec_def by (rule gnn_layers_spec)
  show "forward L m x edges pos = forward L m x (filter same_type edges) pos"
    unfolding forward_def by (rule gnn_layers_filter)
  show "layer_spec L m i edges y pos = (y', pos')"
    if "gnn_layer L m i edges y pos = Inr (y', pos')"
    using that by (rule gnn_layer_spec)
  show "apply_dropout L True pos z = (dropout L pos 0.3 z, pos + 1)"
    by (simp add: apply_dropout_def)
  show "apply_dropout L False pos z = (z, pos)"
    by (simp add: apply_dropout_def)
qed

lemma demo_layer:
  assumes "0 \<le> a" "0 \<le> b"
  shows "gnn_layer demo_lib demo_model i demo_edges [User \<mapsto> [[a]], Video \<mapsto> [[b]]] p =
     Inr ([User \<mapsto> [[a + a]], Video \<mapsto> [[b + b]]], p + 2)"
proof -
  have 1: "gnn_layer demo_lib demo_model i demo_edges [User \<mapsto> [[a]], Video \<mapsto> [[b]]] p =
     Inr (residual [User \<mapsto> [[a]], Video \<mapsto> [[b]]]
            [User \<mapsto> [[a]], Video \<mapsto> [[b]]], p + 2)"
    using assms
    by (simp add: gnn_layer_def demo_edges_def branch_output_def apply_dropout_def
      demo_model_def demo_lib_def relu_def max_def)
  have 2: "residual [User \<mapsto> [[a]], Video \<mapsto> [[b]]] [User \<mapsto> [[a]], Video \<mapsto> [[b]]] =
     [User \<mapsto> [[a + a]], Video \<mapsto> [[b + b]]]"
    by (rule ext) (simp add: residual_def tensor_add_def)
  show ?thesis by (simp only: 1 2)
qed

lemma demo_forward:
  "forward demo_lib demo_model demo_x demo_edges 0 =
     Inr ([User \<mapsto> [[8]], Video \<mapsto> [[16]]], 6)"
proof -
  have p: "(\<lambda>nt. map_option (input_proj demo_lib (gnn_params demo_model) nt) (demo_x nt)) =
      [User \<mapsto> [[1]], Video \<mapsto> [[2]]]"
    by (rule ext) (simp add: demo_lib_def demo_x_def)
  have n: "gnn_num_layers demo_model = Suc (Suc (Suc 0))" by (simp add: demo_model_def)
  show ?thesis
    unfolding forward_def p n
    by (simp add: demo_layer)
qed

text \<open>
  Claim C8 at a user-user, a user-video and a video-video relation, three layers in
  training mode: with the stand-in library each layer doubles the representation of
  users and of videos, and draws two dropout masks.
\<close>

theorem forward_same_type_only_witness:
  "forward demo_lib demo_model demo_x demo_edges 0 =
     Inr ([User \<mapsto> [[8]], Video \<mapsto> [[16]]], 6) \<and>
   forward_spec demo_lib demo_model demo_x demo_edges 0 =
     ([User \<mapsto> [[8]], Video \<mapsto> [[16]]], 6) \<and>
   gnn_layer demo_lib demo_model 0 demo_edges [User \<mapsto> [[1]], Video \<mapsto> [[2]]] 0 =
     Inr ([User \<mapsto> [[2]], Video \<mapsto> [[4]]], 2) \<and>
   layer_spec demo_lib demo_model 0 demo_edges [User \<mapsto> [[1]], Video \<mapsto> [[2]]] 0 =
     ([User \<mapsto> [[2]], Video \<mapsto> [[4]]], 2)"
proof -
  have l: "gnn_layer demo_lib demo_model 0 demo_edges [User \<mapsto> [[1]], Video \<mapsto> [[2]]] 0 =
     Inr ([User \<mapsto> [[2]], Video \<mapsto> [[4]]], 2)"
    using demo_layer[of 1 2 0 0] by simp
  from forward_same_type_only[of demo_lib demo_model demo_x demo_edges 0
      "([User \<mapsto> [[8]], Video \<mapsto> [[16]]], 6)" 0 "[User \<mapsto> [[1]], Video \<mapsto> [[2]]]"
      "[User \<mapsto> [[2]], Video \<mapsto> [[4]]]" 2 "[]"]
    demo_forward l
  show ?thesis by blast
qed

section \<open>Graph Sync run twice\<close>

















lemma fold_Pair: "fold (\<lambda>x. h (a, x)) xs = fold h (map (Pair a) xs)"
  by (simp add: fold_map o_def)

lemma merge_edge_upsert: "merge_edge e = upsert (\<lambda>e. e) (\<lambda>e. e) (\<lambda>e. e) (\<lambda>_ e. e) e"
  by (rule ext) (simp add: merge_edge_def upsert_def)


































lemma fold_cond:
  "fold (\<lambda>x ys. if c x then h x ys else ys) xs ys = fold h (filter c xs) ys"
  by (induction xs arbitrary: ys) simp_all















































end
